theory Spec2Isabelle
  imports Main "HOL-Library.Word"
begin

section \<open>Identifiers, addresses and errors\<close>

text \<open>
  The Go types of the SDK that the actions use: \<^verbatim>\<open>ids.ID\<close> is a 32-byte array,
  \<^verbatim>\<open>ids.NodeID\<close> a 20-byte array, \<^verbatim>\<open>codec.Address\<close> a 33-byte array and every amount
  and block height a \<^verbatim>\<open>uint64\<close>. Arrays are byte lists here; their lengths are the
  constants below.
\<close>

type_synonym byte = "8 word"
type_synonym bytes = "byte list"
type_synonym uint64 = "64 word"
type_synonym ID = bytes
type_synonym NodeID = bytes
type_synonym address = bytes

definition IntLen :: nat where "IntLen = 4"
definition Uint64Len :: nat where "Uint64Len = 8"
definition NodeIDLen :: nat where "NodeIDLen = 20"
definition IDLen :: nat where "IDLen = 32"
definition AddressLen :: nat where "AddressLen = 33"

definition ids_Empty :: ID where
  "ids_Empty = replicate IDLen 0"

definition EmptyAddress :: address where
  "EmptyAddress = replicate AddressLen 0"

datatype error =
    ErrBadNodeIDLength
  | ErrStorage
  | ErrInvalidBalance
  | ErrOverflow
  | ErrStakeAlreadyActive
  | ErrStakeNotFound
  | ErrInvalidBranchFactor
  | ErrParseAddress
  | ErrInsufficientLength
  | ErrOversized
  | ErrFieldNotPopulated

text \<open>\<^verbatim>\<open>ids.ToNodeID\<close> accepts a byte slice of exactly 20 bytes.\<close>

definition ToNodeID :: "bytes \<Rightarrow> error + NodeID" where
  "ToNodeID b = (if length b = NodeIDLen then Inr b else Inl ErrBadNodeIDLength)"

section \<open>The ledger behind \<^verbatim>\<open>state.Mutable\<close>\<close>

text \<open>
  The package \<^verbatim>\<open>storage\<close> of the repository is not among the source files; the actions
  only call it. Its state and functions are modelled from the specification's data
  model (section 3) and error taxonomy (section 7). A key names one piece of ledger
  state; a read or a write of a key can fail (a storage I/O failure), which the two
  predicates \<open>readFails\<close> and \<open>writeFails\<close> of the state decide.
\<close>

datatype skey =
    BalanceKey address ID
  | StakeKey ID
  | RegisterValidatorStakeKey NodeID
  | DelegateUserStakeKey address NodeID
  | AssetKey ID

record stake_record =
  st_nodeID :: NodeID
  st_second :: uint64
  st_third :: uint64
  st_owner :: address

record validator_stake =
  vs_stakeStartBlock :: uint64
  vs_stakeEndBlock :: uint64
  vs_stakedAmount :: uint64
  vs_delegationFeeRate :: uint64
  vs_rewardAddress :: address
  vs_ownerAddress :: address

record delegator_stake =
  ds_stakeStartBlock :: uint64
  ds_stakeEndBlock :: uint64
  ds_stakedAmount :: uint64
  ds_rewardAddress :: address

record asset_record =
  as_symbol :: string
  as_decimals :: byte
  as_metadata :: string
  as_supply :: uint64
  as_owner :: address
  as_warp :: bool

record mutable =
  balances :: "address \<times> ID \<Rightarrow> uint64"
  stakes :: "ID \<rightharpoonup> stake_record"
  validatorStakes :: "NodeID \<rightharpoonup> validator_stake"
  delegatorStakes :: "address \<times> NodeID \<rightharpoonup> delegator_stake"
  assets :: "ID \<rightharpoonup> asset_record"
  readFails :: "skey \<Rightarrow> bool"
  writeFails :: "skey \<Rightarrow> bool"

definition zero_stake :: stake_record where
  "zero_stake = \<lparr>st_nodeID = replicate NodeIDLen 0, st_second = 0, st_third = 0,
     st_owner = EmptyAddress\<rparr>"

definition zero_validator_stake :: validator_stake where
  "zero_validator_stake = \<lparr>vs_stakeStartBlock = 0, vs_stakeEndBlock = 0, vs_stakedAmount = 0,
     vs_delegationFeeRate = 0, vs_rewardAddress = EmptyAddress, vs_ownerAddress = EmptyAddress\<rparr>"

definition zero_delegator_stake :: delegator_stake where
  "zero_delegator_stake = \<lparr>ds_stakeStartBlock = 0, ds_stakeEndBlock = 0, ds_stakedAmount = 0,
     ds_rewardAddress = EmptyAddress\<rparr>"

text \<open>
  Modelled from the spec: \<^verbatim>\<open>storage.GetStake\<close>, whose source is missing. It returns
  \<^verbatim>\<open>(exists, nodeIDStaked, _, _, owner, err)\<close>: the record stored under the stake id, or
  \<^verbatim>\<open>exists = false\<close> with zero values when there is none, or an error when the read
  fails.
\<close>

definition GetStake :: "mutable \<Rightarrow> ID \<Rightarrow> bool \<times> stake_record \<times> error option" where
  "GetStake mu stake =
     (if readFails mu (StakeKey stake) then (False, zero_stake, Some ErrStorage)
      else case stakes mu stake of
             None \<Rightarrow> (False, zero_stake, None)
           | Some r \<Rightarrow> (True, r, None))"

text \<open>
  Modelled from the spec: \<^verbatim>\<open>storage.GetRegisterValidatorStake\<close>, whose source is missing.
  It returns \<^verbatim>\<open>(exists, stakeStartBlock, stakeEndBlock, stakedAmount, delegationFeeRate,
  rewardAddress, ownerAddress, err)\<close> for the validator stake record of a node id.
\<close>

definition GetRegisterValidatorStake ::
  "mutable \<Rightarrow> NodeID \<Rightarrow> bool \<times> validator_stake \<times> error option" where
  "GetRegisterValidatorStake mu nodeID =
     (if readFails mu (RegisterValidatorStakeKey nodeID)
      then (False, zero_validator_stake, Some ErrStorage)
      else case validatorStakes mu nodeID of
             None \<Rightarrow> (False, zero_validator_stake, None)
           | Some v \<Rightarrow> (True, v, None))"

text \<open>
  Modelled from the spec: \<^verbatim>\<open>storage.GetDelegateUserStake\<close>, whose source is missing. It
  returns \<^verbatim>\<open>exists\<close>, the fields of the delegator stake record of (owner, node id) and
  an error.
\<close>

definition GetDelegateUserStake ::
  "mutable \<Rightarrow> address \<Rightarrow> NodeID \<Rightarrow> bool \<times> delegator_stake \<times> error option" where
  "GetDelegateUserStake mu owner nodeID =
     (if readFails mu (DelegateUserStakeKey owner nodeID)
      then (False, zero_delegator_stake, Some ErrStorage)
      else case delegatorStakes mu (owner, nodeID) of
             None \<Rightarrow> (False, zero_delegator_stake, None)
           | Some d \<Rightarrow> (True, d, None))"

text \<open>
  Modelled from the spec: \<^verbatim>\<open>storage.SetDelegateUserStake\<close>, whose source is missing. It
  writes the delegator stake record of (owner, node id).
\<close>

definition SetDelegateUserStake ::
  "mutable \<Rightarrow> address \<Rightarrow> NodeID \<Rightarrow> uint64 \<Rightarrow> uint64 \<Rightarrow> uint64 \<Rightarrow> address \<Rightarrow> error + mutable" where
  "SetDelegateUserStake mu owner nodeID stakeStartBlock stakeEndBlock stakedAmount rewardAddress =
     (if writeFails mu (DelegateUserStakeKey owner nodeID) then Inl ErrStorage
      else Inr (mu\<lparr>delegatorStakes := (delegatorStakes mu)((owner, nodeID) \<mapsto>
             \<lparr>ds_stakeStartBlock = stakeStartBlock, ds_stakeEndBlock = stakeEndBlock,
              ds_stakedAmount = stakedAmount, ds_rewardAddress = rewardAddress\<rparr>)\<rparr>))"

text \<open>
  Modelled from the spec: \<^verbatim>\<open>storage.DeleteRegisterValidatorStake\<close>, whose source is
  missing. It removes the validator stake record of a node id.
\<close>

definition DeleteRegisterValidatorStake :: "mutable \<Rightarrow> NodeID \<Rightarrow> error + mutable" where
  "DeleteRegisterValidatorStake mu nodeID =
     (if writeFails mu (RegisterValidatorStakeKey nodeID) then Inl ErrStorage
      else Inr (mu\<lparr>validatorStakes := (validatorStakes mu)(nodeID := None)\<rparr>))"

text \<open>
  Modelled from the spec: \<^verbatim>\<open>storage.SetBalance\<close>, whose source is missing. A balance is
  a \<^verbatim>\<open>uint64\<close> per (address, asset); an address without an entry holds 0. The function
  writes the balance of one (address, asset).
\<close>

definition SetBalance :: "mutable \<Rightarrow> address \<Rightarrow> ID \<Rightarrow> uint64 \<Rightarrow> error + mutable" where
  "SetBalance mu addr asset balance =
     (if writeFails mu (BalanceKey addr asset) then Inl ErrStorage
      else Inr (mu\<lparr>balances := (balances mu)((addr, asset) := balance)\<rparr>))"

text \<open>
  Modelled from the spec: \<^verbatim>\<open>storage.AddBalance\<close>, whose source is missing. It reads the
  balance, adds the amount and writes the sum; it fails when the sum overflows
  \<^verbatim>\<open>uint64\<close>. The actions call it with \<^verbatim>\<open>create = true\<close> only, so an address without an
  entry gets one.
\<close>

definition AddBalance :: "mutable \<Rightarrow> address \<Rightarrow> ID \<Rightarrow> uint64 \<Rightarrow> error + mutable" where
  "AddBalance mu addr asset amount =
     (if readFails mu (BalanceKey addr asset) then Inl ErrStorage
      else if 2 ^ 64 \<le> unat (balances mu (addr, asset)) + unat amount then Inl ErrInvalidBalance
      else SetBalance mu addr asset (balances mu (addr, asset) + amount))"

text \<open>
  Modelled from the spec: \<^verbatim>\<open>storage.SubBalance\<close>, whose source is missing. It reads the
  balance, subtracts the amount and writes the difference; it fails when the balance is
  smaller than the amount (a balance is never negative).
\<close>

definition SubBalance :: "mutable \<Rightarrow> address \<Rightarrow> ID \<Rightarrow> uint64 \<Rightarrow> error + mutable" where
  "SubBalance mu addr asset amount =
     (if readFails mu (BalanceKey addr asset) then Inl ErrStorage
      else if balances mu (addr, asset) < amount then Inl ErrInvalidBalance
      else SetBalance mu addr asset (balances mu (addr, asset) - amount))"

text \<open>
  Modelled from the spec: \<^verbatim>\<open>storage.SetAsset\<close>, whose source is missing. It writes the
  record of an asset: symbol, decimals, metadata, total supply, owner, warp flag.
\<close>

definition SetAsset ::
  "mutable \<Rightarrow> ID \<Rightarrow> string \<Rightarrow> byte \<Rightarrow> string \<Rightarrow> uint64 \<Rightarrow> address \<Rightarrow> bool \<Rightarrow> error + mutable" where
  "SetAsset mu asset symbol decimals metadata supply owner warp =
     (if writeFails mu (AssetKey asset) then Inl ErrStorage
      else Inr (mu\<lparr>assets := (assets mu)(asset \<mapsto>
             \<lparr>as_symbol = symbol, as_decimals = decimals, as_metadata = metadata,
              as_supply = supply, as_owner = owner, as_warp = warp\<rparr>)\<rparr>))"

section \<open>The Emission Engine\<close>

text \<open>
  The package \<^verbatim>\<open>emission\<close> of the repository is not among the source files either. Its
  singleton is a value that every \<^verbatim>\<open>Execute\<close> takes and returns. Modelled from the spec
  (section 4.2): the engine keeps a map of validator stakes by node id and a map of
  delegations by (owner, node id), allows one active stake per key, returns the
  accumulated reward when a validator stake is withdrawn, and holds the height and the
  timestamp of the last accepted block. A time is Go's \<^verbatim>\<open>time.Time\<close> without monotonic
  reading: a count of seconds since January 1 of year 1 and of nanoseconds within the
  second, compared in that order; here it is the one integer
  \<open>seconds * 10\<^sup>9 + nanoseconds\<close>.
\<close>

type_synonym time = int

record emission_validator =
  ev_stakedAmount :: uint64
  ev_accumulatedReward :: uint64

record emission_delegation =
  ed_stakeStartBlock :: uint64
  ed_stakeEndBlock :: uint64
  ed_stakedAmount :: uint64

record emission =
  em_validators :: "NodeID \<rightharpoonup> emission_validator"
  em_delegators :: "address \<times> NodeID \<rightharpoonup> emission_delegation"
  em_lastAcceptedBlockHeight :: uint64
  em_lastAcceptedBlockTimestamp :: time

text \<open>
  Modelled from the spec: the value of \<^verbatim>\<open>emission.GetStakingConfig()\<close>, whose source is
  missing. Of its fields \<^verbatim>\<open>Execute\<close> reads \<^verbatim>\<open>MinDelegatorStake\<close> only; the
  configuration is an argument of the model.
\<close>

record staking_config =
  MinDelegatorStake :: uint64

text \<open>
  Modelled from the spec: \<^verbatim>\<open>Emission.GetLastAcceptedBlockHeight\<close> and
  \<^verbatim>\<open>Emission.GetLastAcceptedBlockTimestamp\<close>, whose sources are missing. They return
  the height and the timestamp of the last accepted block as the engine holds them.
\<close>

definition GetLastAcceptedBlockHeight :: "emission \<Rightarrow> uint64" where
  "GetLastAcceptedBlockHeight e = em_lastAcceptedBlockHeight e"

definition GetLastAcceptedBlockTimestamp :: "emission \<Rightarrow> time" where
  "GetLastAcceptedBlockTimestamp e = em_lastAcceptedBlockTimestamp e"

text \<open>
  Modelled from the spec: \<^verbatim>\<open>Emission.DelegateUserStake\<close>, whose source is missing. It
  records the delegation under (owner, node id) unless that key already has one.
\<close>

definition Emission_DelegateUserStake ::
  "emission \<Rightarrow> NodeID \<Rightarrow> address \<Rightarrow> uint64 \<Rightarrow> uint64 \<Rightarrow> uint64 \<Rightarrow> error + emission" where
  "Emission_DelegateUserStake e nodeID delegator stakeStartBlock stakeEndBlock stakedAmount =
     (case em_delegators e (delegator, nodeID) of
        Some d \<Rightarrow> Inl ErrStakeAlreadyActive
      | None \<Rightarrow> Inr (e\<lparr>em_delegators := (em_delegators e)((delegator, nodeID) \<mapsto>
                 \<lparr>ed_stakeStartBlock = stakeStartBlock, ed_stakeEndBlock = stakeEndBlock,
                  ed_stakedAmount = stakedAmount\<rparr>)\<rparr>))"

text \<open>
  Modelled from the spec: \<^verbatim>\<open>Emission.WithdrawValidatorStake\<close>, whose source is missing.
  It removes the validator's entry and returns the reward accumulated for it; it fails
  when the node id has no active stake.
\<close>

definition Emission_WithdrawValidatorStake ::
  "emission \<Rightarrow> NodeID \<Rightarrow> error + (uint64 \<times> emission)" where
  "Emission_WithdrawValidatorStake e nodeID =
     (case em_validators e nodeID of
        None \<Rightarrow> Inl ErrStakeNotFound
      | Some v \<Rightarrow> Inr (ev_accumulatedReward v,
                 e\<lparr>em_validators := (em_validators e)(nodeID := None)\<rparr>))"

section \<open>The result of \<^verbatim>\<open>Execute\<close>\<close>

text \<open>
  \<^verbatim>\<open>Execute\<close> returns \<^verbatim>\<open>(success, computeUnits, output, warpMessage, error)\<close>. The
  compute-unit constants and the rejection payloads (\<^verbatim>\<open>OutputUnauthorized\<close> and the
  others) are declared outside the source files: they appear here by name, one
  constructor for each, so that two names are two payloads. \<^verbatim>\<open>utils.ErrBytes(err)\<close> is
  the text of an error as bytes, \<open>ErrBytes err\<close>; \<open>OutputNil\<close> is Go's \<^verbatim>\<open>nil\<close> slice.
\<close>

datatype compute_units =
    UnstakeValidatorComputeUnits
  | WithdrawValidatorStakeComputeUnits
  | DelegateUserStakeComputeUnits
  | RegisterValidatorStakeComputeUnits

datatype payload =
    OutputNil
  | OutputBytes bytes
  | ErrBytes error
  | OutputInvalidNodeID
  | OutputStakeMissing
  | OutputUnauthorized
  | OutputDifferentNodeIDThanStaked
  | OutputValidatorAlreadyRegistered
  | OutputStakeNotStarted
  | OutputValidatorNotYetRegistered
  | OutputUserAlreadyStaked
  | OutputDelegateStakedAmountInvalid
  | OutputInvalidStakeEndBlock
  | OutputInvalidStakeStartBlock

record result =
  success :: bool
  computeUnits :: compute_units
  outputBytes :: payload
  warpMessage :: "bytes option"
  fatalError :: "error option"

text \<open>
  The two shapes of return statement the actions have:
  \<^verbatim>\<open>return false, units, out, nil, nil\<close> and \<^verbatim>\<open>return true, units, out, nil, nil\<close>.
\<close>

definition returnFalse :: "compute_units \<Rightarrow> payload \<Rightarrow> result" where
  "returnFalse u out = \<lparr>success = False, computeUnits = u, outputBytes = out,
     warpMessage = None, fatalError = None\<rparr>"

definition returnTrue :: "compute_units \<Rightarrow> payload \<Rightarrow> result" where
  "returnTrue u out = \<lparr>success = True, computeUnits = u, outputBytes = out,
     warpMessage = None, fatalError = None\<rparr>"

section \<open>UnstakeValidator\<close>

record UnstakeValidator =
  uv_Stake :: ID
  uv_NodeID :: bytes

text \<open>
  \<^verbatim>\<open>UnstakeValidator.Execute\<close> (unstake_validator.go, lines 48-71). \<^verbatim>\<open>nodeIDStaked.Bytes()\<close>
  is the node id's 20 bytes and \<^verbatim>\<open>bytes.Equal\<close> is equality of the byte lists. The
  function writes nothing: the ledger and the engine are returned as they came.
\<close>

definition UnstakeValidator_Execute ::
  "UnstakeValidator \<Rightarrow> address \<Rightarrow> mutable \<times> emission \<Rightarrow> result \<times> mutable \<times> emission" where
  "UnstakeValidator_Execute u actor w =
     (case w of (mu, em) \<Rightarrow>
      (case GetStake mu (uv_Stake u) of
         (exists, st, Some e) \<Rightarrow>
           (returnFalse UnstakeValidatorComputeUnits (ErrBytes e), mu, em)
       | (exists, st, None) \<Rightarrow>
           if \<not> exists then (returnFalse UnstakeValidatorComputeUnits OutputStakeMissing, mu, em)
           else if st_owner st \<noteq> actor
             then (returnFalse UnstakeValidatorComputeUnits OutputUnauthorized, mu, em)
           else if st_nodeID st \<noteq> uv_NodeID u
             then (returnFalse UnstakeValidatorComputeUnits OutputDifferentNodeIDThanStaked, mu, em)
           else (returnTrue UnstakeValidatorComputeUnits OutputNil, mu, em)))"

section \<open>The packer\<close>

text \<open>
  \<^verbatim>\<open>Marshal\<close> and \<^verbatim>\<open>Unmarshal\<close> go through \<^verbatim>\<open>codec.Packer\<close> of the SDK, a thin layer over
  \<^verbatim>\<open>wrappers.Packer\<close> of the node library. Neither is code of the repository; the model
  follows the library: a byte slice, an offset, a size limit and the first error. Once
  an error is set, packing and unpacking do nothing more. Integers are big-endian
  (\<^verbatim>\<open>binary.BigEndian\<close>).
\<close>

fun be_bytes :: "nat \<Rightarrow> nat \<Rightarrow> bytes" where
  "be_bytes 0 v = []"
| "be_bytes (Suc n) v = be_bytes n (v div 256) @ [of_nat (v mod 256)]"

fun be_nat_acc :: "nat \<Rightarrow> bytes \<Rightarrow> nat" where
  "be_nat_acc acc [] = acc"
| "be_nat_acc acc (b # bs) = be_nat_acc (acc * 256 + unat b) bs"

definition be_nat :: "bytes \<Rightarrow> nat" where
  "be_nat bs = be_nat_acc 0 bs"

record packer =
  p_Bytes :: bytes
  p_Offset :: nat
  p_MaxSize :: nat
  p_Err :: "error option"

definition NewReader :: "bytes \<Rightarrow> nat \<Rightarrow> packer" where
  "NewReader src limit = \<lparr>p_Bytes = src, p_Offset = 0, p_MaxSize = limit, p_Err = None\<rparr>"

definition NewWriter :: "nat \<Rightarrow> nat \<Rightarrow> packer" where
  "NewWriter initial limit = \<lparr>p_Bytes = [], p_Offset = 0, p_MaxSize = limit, p_Err = None\<rparr>"

definition Errored :: "packer \<Rightarrow> bool" where
  "Errored p = (p_Err p \<noteq> None)"

text \<open>\<^verbatim>\<open>Errs.Add\<close> keeps the first error.\<close>

definition addErr :: "packer \<Rightarrow> error \<Rightarrow> packer" where
  "addErr p e = (if p_Err p = None then p\<lparr>p_Err := Some e\<rparr> else p)"

text \<open>
  \<^verbatim>\<open>expand\<close> makes room for \<open>n\<close> more bytes at the offset, up to \<^verbatim>\<open>MaxSize\<close>;
  \<^verbatim>\<open>checkSpace\<close> requires \<open>n\<close> unread bytes.
\<close>

definition expand :: "packer \<Rightarrow> nat \<Rightarrow> packer" where
  "expand p n =
     (let neededSize = n + p_Offset p in
      if neededSize \<le> length (p_Bytes p) then p
      else if p_MaxSize p < neededSize then p\<lparr>p_Err := Some ErrInsufficientLength\<rparr>
      else p\<lparr>p_Bytes := p_Bytes p @ replicate (neededSize - length (p_Bytes p)) 0\<rparr>)"

definition checkSpace :: "packer \<Rightarrow> nat \<Rightarrow> packer" where
  "checkSpace p n =
     (if length (p_Bytes p) < p_Offset p + n then addErr p ErrInsufficientLength else p)"

definition PackFixedBytes :: "packer \<Rightarrow> bytes \<Rightarrow> packer" where
  "PackFixedBytes p b =
     (let p1 = expand p (length b) in
      if Errored p1 then p1
      else p1\<lparr>p_Bytes := take (p_Offset p1) (p_Bytes p1) @ b @
                   drop (p_Offset p1 + length b) (p_Bytes p1),
              p_Offset := p_Offset p1 + length b\<rparr>)"

definition UnpackFixedBytes :: "packer \<Rightarrow> nat \<Rightarrow> bytes \<times> packer" where
  "UnpackFixedBytes p size' =
     (let p1 = checkSpace p size' in
      if Errored p1 then ([], p1)
      else (take size' (drop (p_Offset p1) (p_Bytes p1)),
            p1\<lparr>p_Offset := p_Offset p1 + size'\<rparr>))"

definition PackInt :: "packer \<Rightarrow> 32 word \<Rightarrow> packer" where
  "PackInt p v = PackFixedBytes p (be_bytes IntLen (unat v))"

definition UnpackInt :: "packer \<Rightarrow> 32 word \<times> packer" where
  "UnpackInt p =
     (let p1 = checkSpace p IntLen in
      if Errored p1 then (0, p1)
      else (of_nat (be_nat (take IntLen (drop (p_Offset p1) (p_Bytes p1)))),
            p1\<lparr>p_Offset := p_Offset p1 + IntLen\<rparr>))"

definition PackLong :: "packer \<Rightarrow> uint64 \<Rightarrow> packer" where
  "PackLong p v = PackFixedBytes p (be_bytes Uint64Len (unat v))"

definition UnpackLong :: "packer \<Rightarrow> uint64 \<times> packer" where
  "UnpackLong p =
     (let p1 = checkSpace p Uint64Len in
      if Errored p1 then (0, p1)
      else (of_nat (be_nat (take Uint64Len (drop (p_Offset p1) (p_Bytes p1)))),
            p1\<lparr>p_Offset := p_Offset p1 + Uint64Len\<rparr>))"

text \<open>
  \<^verbatim>\<open>PackBytes\<close> writes the length as a 4-byte integer, then the bytes;
  \<^verbatim>\<open>UnpackLimitedBytes\<close> reads the length, refuses one over the limit, then reads
  that many bytes.
\<close>

definition PackBytes :: "packer \<Rightarrow> bytes \<Rightarrow> packer" where
  "PackBytes p b = PackFixedBytes (PackInt p (of_nat (length b))) b"

definition UnpackLimitedBytes :: "packer \<Rightarrow> 32 word \<Rightarrow> bytes \<times> packer" where
  "UnpackLimitedBytes p limit =
     (case UnpackInt p of (size', p1) \<Rightarrow>
        if limit < size' then ([], addErr p1 ErrOversized)
        else UnpackFixedBytes p1 (unat size'))"

text \<open>
  The layer of \<^verbatim>\<open>codec.Packer\<close>: a required field that reads as zero or empty adds
  \<^verbatim>\<open>ErrFieldNotPopulated\<close>. \<^verbatim>\<open>UnpackID\<close> and \<^verbatim>\<open>UnpackAddress\<close> copy what was read into
  a zeroed array. \<^verbatim>\<open>UnpackBytes\<close> is called with a limit that is not negative, the only
  branch modelled.
\<close>

definition PackID :: "packer \<Rightarrow> ID \<Rightarrow> packer" where
  "PackID p src = PackFixedBytes p src"

definition UnpackID :: "packer \<Rightarrow> bool \<Rightarrow> ID \<times> packer" where
  "UnpackID p required =
     (case UnpackFixedBytes p IDLen of (b, p1) \<Rightarrow>
        (let dest = b @ replicate (IDLen - length b) 0 in
         (dest, if required \<and> dest = ids_Empty then addErr p1 ErrFieldNotPopulated else p1)))"

definition PackAddress :: "packer \<Rightarrow> address \<Rightarrow> packer" where
  "PackAddress p a = PackFixedBytes p a"

definition UnpackAddress :: "packer \<Rightarrow> address \<times> packer" where
  "UnpackAddress p =
     (case UnpackFixedBytes p AddressLen of (b, p1) \<Rightarrow>
        (let dest = b @ replicate (AddressLen - length b) 0 in
         (dest, if dest = EmptyAddress then addErr p1 ErrFieldNotPopulated else p1)))"

definition PackUint64 :: "packer \<Rightarrow> uint64 \<Rightarrow> packer" where
  "PackUint64 p v = PackLong p v"

definition UnpackUint64 :: "packer \<Rightarrow> bool \<Rightarrow> uint64 \<times> packer" where
  "UnpackUint64 p required =
     (case UnpackLong p of (v, p1) \<Rightarrow>
        (v, if required \<and> v = 0 then addErr p1 ErrFieldNotPopulated else p1))"

definition UnpackBytes :: "packer \<Rightarrow> nat \<Rightarrow> bool \<Rightarrow> bytes \<times> packer" where
  "UnpackBytes p limit required =
     (case UnpackLimitedBytes p (of_nat limit) of (dest, p1) \<Rightarrow>
        (dest, if required \<and> length dest = 0 then addErr p1 ErrFieldNotPopulated else p1))"

section \<open>WithdrawValidatorStake\<close>

record WithdrawValidatorStake =
  wv_NodeID :: bytes

record RegisterStakeResult =
  rs_StakedAmount :: uint64

text \<open>\<^verbatim>\<open>RegisterStakeResult.Marshal\<close> (withdraw_validator_stake.go, lines 147-151).\<close>

definition RegisterStakeResult_Marshal :: "RegisterStakeResult \<Rightarrow> bytes \<times> error option" where
  "RegisterStakeResult_Marshal s =
     (let p = PackUint64 (NewWriter Uint64Len Uint64Len) (rs_StakedAmount s)
      in (p_Bytes p, p_Err p))"

text \<open>
  \<^verbatim>\<open>int64(x)\<close> of a \<^verbatim>\<open>uint64\<close> reads the same bits as a signed number.
  \<^verbatim>\<open>time.Unix(sec, 0)\<close> adds the seconds between year 1 and 1970 to \<open>sec\<close> in \<^verbatim>\<open>int64\<close>,
  where the sum wraps around.
\<close>

definition int64 :: "uint64 \<Rightarrow> int" where
  "int64 x = sint x"

definition unixToInternal :: int where
  "unixToInternal = 62135596800"

definition wrap_int64 :: "int \<Rightarrow> int" where
  "wrap_int64 x = (x + 2 ^ 63) mod 2 ^ 64 - 2 ^ 63"

definition time_Unix :: "int \<Rightarrow> time" where
  "time_Unix sec = wrap_int64 (sec + unixToInternal) * 1000000000"

text \<open>
  \<^verbatim>\<open>WithdrawValidatorStake.Execute\<close> (withdraw_validator_stake.go, lines 50-111). The
  reading of the wall clock, \<^verbatim>\<open>time.Now()\<close>, is the argument \<open>currentTime\<close>. The error
  that \<^verbatim>\<open>GetRegisterValidatorStake\<close> returns is dropped, as at line 66. A mutating call
  that fails leaves what the calls before it wrote.
\<close>

definition WithdrawValidatorStake_Execute ::
  "time \<Rightarrow> WithdrawValidatorStake \<Rightarrow> address \<Rightarrow> mutable \<times> emission \<Rightarrow>
   result \<times> mutable \<times> emission" where
  "WithdrawValidatorStake_Execute currentTime u actor w =
     (case w of (mu, em) \<Rightarrow>
      (case ToNodeID (wv_NodeID u) of
         Inl e \<Rightarrow> (returnFalse WithdrawValidatorStakeComputeUnits OutputInvalidNodeID, mu, em)
       | Inr nodeID \<Rightarrow>
      (case GetRegisterValidatorStake mu nodeID of (exists, v, dropped) \<Rightarrow>
         if \<not> exists
           then (returnFalse WithdrawValidatorStakeComputeUnits OutputValidatorAlreadyRegistered,
                 mu, em)
         else if vs_ownerAddress v \<noteq> actor
           then (returnFalse WithdrawValidatorStakeComputeUnits OutputUnauthorized, mu, em)
         else
           (let lastBlockTime = GetLastAcceptedBlockTimestamp em;
                endTime = time_Unix (int64 (vs_stakeEndBlock v))
            in
            if currentTime < endTime \<or> lastBlockTime < endTime
              then (returnFalse WithdrawValidatorStakeComputeUnits OutputStakeNotStarted, mu, em)
            else
      (case Emission_WithdrawValidatorStake em nodeID of
         Inl e \<Rightarrow> (returnFalse WithdrawValidatorStakeComputeUnits (ErrBytes e), mu, em)
       | Inr (rewardAmount, em1) \<Rightarrow>
      (case AddBalance mu (vs_rewardAddress v) ids_Empty rewardAmount of
         Inl e \<Rightarrow> (returnFalse WithdrawValidatorStakeComputeUnits (ErrBytes e), mu, em1)
       | Inr mu1 \<Rightarrow>
      (case DeleteRegisterValidatorStake mu1 nodeID of
         Inl e \<Rightarrow> (returnFalse WithdrawValidatorStakeComputeUnits (ErrBytes e), mu1, em1)
       | Inr mu2 \<Rightarrow>
      (case AddBalance mu2 actor ids_Empty (vs_stakedAmount v) of
         Inl e \<Rightarrow> (returnFalse WithdrawValidatorStakeComputeUnits (ErrBytes e), mu2, em1)
       | Inr mu3 \<Rightarrow>
      (case RegisterStakeResult_Marshal \<lparr>rs_StakedAmount = vs_stakedAmount v\<rparr> of
         (out, Some e) \<Rightarrow>
           (returnFalse WithdrawValidatorStakeComputeUnits (ErrBytes e), mu3, em1)
       | (out, None) \<Rightarrow>
           (returnTrue WithdrawValidatorStakeComputeUnits (OutputBytes out), mu3, em1))))))))))"

section \<open>DelegateUserStake\<close>

record DelegateUserStake =
  du_NodeID :: bytes
  du_StakeStartBlock :: uint64
  du_StakeEndBlock :: uint64
  du_StakedAmount :: uint64
  du_RewardAddress :: address

text \<open>
  \<^verbatim>\<open>DelegateUserStake.Execute\<close> (delegate_user_stake.go, lines 53-112). The staking
  configuration, \<^verbatim>\<open>emission.GetStakingConfig()\<close>, is an argument. Of the two reads only
  \<^verbatim>\<open>exists\<close> is kept (lines 68 and 74). The rejection at line 70 carries
  \<^verbatim>\<open>RegisterValidatorStakeComputeUnits\<close>, as the source has it.
\<close>

definition DelegateUserStake_Execute ::
  "staking_config \<Rightarrow> DelegateUserStake \<Rightarrow> address \<Rightarrow> mutable \<times> emission \<Rightarrow>
   result \<times> mutable \<times> emission" where
  "DelegateUserStake_Execute stakingConfig s actor w =
     (case w of (mu, em) \<Rightarrow>
      (case ToNodeID (du_NodeID s) of
         Inl e \<Rightarrow> (returnFalse DelegateUserStakeComputeUnits OutputInvalidNodeID, mu, em)
       | Inr nodeID \<Rightarrow>
         if \<not> fst (GetRegisterValidatorStake mu nodeID)
           then (returnFalse RegisterValidatorStakeComputeUnits OutputValidatorNotYetRegistered,
                 mu, em)
         else if fst (GetDelegateUserStake mu actor nodeID)
           then (returnFalse DelegateUserStakeComputeUnits OutputUserAlreadyStaked, mu, em)
         else if du_StakedAmount s < MinDelegatorStake stakingConfig
           then (returnFalse DelegateUserStakeComputeUnits OutputDelegateStakedAmountInvalid,
                 mu, em)
         else if du_StakeEndBlock s \<le> du_StakeStartBlock s
           then (returnFalse DelegateUserStakeComputeUnits OutputInvalidStakeEndBlock, mu, em)
         else if du_StakeStartBlock s < GetLastAcceptedBlockHeight em
           then (returnFalse DelegateUserStakeComputeUnits OutputInvalidStakeStartBlock, mu, em)
         else
      (case Emission_DelegateUserStake em nodeID actor (du_StakeStartBlock s)
              (du_StakeEndBlock s) (du_StakedAmount s) of
         Inl e \<Rightarrow> (returnFalse DelegateUserStakeComputeUnits (ErrBytes e), mu, em)
       | Inr em1 \<Rightarrow>
      (case SubBalance mu actor ids_Empty (du_StakedAmount s) of
         Inl e \<Rightarrow> (returnFalse DelegateUserStakeComputeUnits (ErrBytes e), mu, em1)
       | Inr mu1 \<Rightarrow>
      (case SetDelegateUserStake mu1 actor nodeID (du_StakeStartBlock s) (du_StakeEndBlock s)
              (du_StakedAmount s) (du_RewardAddress s) of
         Inl e \<Rightarrow> (returnFalse DelegateUserStakeComputeUnits (ErrBytes e), mu1, em1)
       | Inr mu2 \<Rightarrow> (returnTrue DelegateUserStakeComputeUnits OutputNil, mu2, em1))))))"

section \<open>Size, Marshal and Unmarshal of the actions\<close>

text \<open>unstake_validator.go, lines 77-91.\<close>

definition UnstakeValidator_Size :: nat where
  "UnstakeValidator_Size = IDLen"

definition UnstakeValidator_Marshal :: "UnstakeValidator \<Rightarrow> packer \<Rightarrow> packer" where
  "UnstakeValidator_Marshal u p = PackBytes (PackID p (uv_Stake u)) (uv_NodeID u)"

definition UnmarshalUnstakeValidator :: "packer \<Rightarrow> UnstakeValidator \<times> error option" where
  "UnmarshalUnstakeValidator p =
     (case UnpackID p True of (stake, p1) \<Rightarrow>
      (case UnpackBytes p1 NodeIDLen False of (nodeID, p2) \<Rightarrow>
         (\<lparr>uv_Stake = stake, uv_NodeID = nodeID\<rparr>, p_Err p2)))"

text \<open>withdraw_validator_stake.go, lines 117-129.\<close>

definition WithdrawValidatorStake_Size :: nat where
  "WithdrawValidatorStake_Size = NodeIDLen"

definition WithdrawValidatorStake_Marshal :: "WithdrawValidatorStake \<Rightarrow> packer \<Rightarrow> packer" where
  "WithdrawValidatorStake_Marshal u p = PackBytes p (wv_NodeID u)"

definition UnmarshalWithdrawValidatorStake ::
  "packer \<Rightarrow> WithdrawValidatorStake \<times> error option" where
  "UnmarshalWithdrawValidatorStake p =
     (case UnpackBytes p NodeIDLen True of (nodeID, p1) \<Rightarrow>
        (\<lparr>wv_NodeID = nodeID\<rparr>, p_Err p1))"

text \<open>delegate_user_stake.go, lines 118-138.\<close>

definition DelegateUserStake_Size :: nat where
  "DelegateUserStake_Size = NodeIDLen + 3 * Uint64Len + AddressLen"

definition DelegateUserStake_Marshal :: "DelegateUserStake \<Rightarrow> packer \<Rightarrow> packer" where
  "DelegateUserStake_Marshal s p =
     (let p1 = PackBytes p (du_NodeID s);
          p2 = PackUint64 p1 (du_StakeStartBlock s);
          p3 = PackUint64 p2 (du_StakeEndBlock s);
          p4 = PackUint64 p3 (du_StakedAmount s)
      in PackAddress p4 (du_RewardAddress s))"

definition UnmarshalDelegateUserStake :: "packer \<Rightarrow> DelegateUserStake \<times> error option" where
  "UnmarshalDelegateUserStake p =
     (case UnpackBytes p NodeIDLen True of (nodeID, p1) \<Rightarrow>
      (case UnpackUint64 p1 True of (stakeStartBlock, p2) \<Rightarrow>
      (case UnpackUint64 p2 True of (stakeEndBlock, p3) \<Rightarrow>
      (case UnpackUint64 p3 True of (stakedAmount, p4) \<Rightarrow>
      (case UnpackAddress p4 of (rewardAddress, p5) \<Rightarrow>
         (\<lparr>du_NodeID = nodeID, du_StakeStartBlock = stakeStartBlock,
           du_StakeEndBlock = stakeEndBlock, du_StakedAmount = stakedAmount,
           du_RewardAddress = rewardAddress\<rparr>, p_Err p5))))))"

section \<open>Genesis\<close>

text \<open>
  genesis.go. Of \<^verbatim>\<open>Genesis\<close> only the fields that \<^verbatim>\<open>Load\<close> reads are kept; an allocation is
  a non-nil pointer to its struct. \<^verbatim>\<open>merkledb.BranchFactor\<close> is an integer whose valid
  values are 2, 4, 16 and 256. \<^verbatim>\<open>hmath.Add64\<close> is the checked addition of the node
  library. The constants of package \<^verbatim>\<open>consts\<close> (HRP, Symbol, Decimals, Name) are declared
  outside the source files and are arguments here, as is the bech32 parser
  \<^verbatim>\<open>codec.ParseAddressBech32\<close> of the SDK.
\<close>

record CustomAllocation =
  ca_Address :: string
  ca_Balance :: uint64

record Genesis =
  g_StateBranchFactor :: int
  g_CustomAllocation :: "CustomAllocation list"

record chain_consts =
  HRP :: string
  Symbol :: string
  Decimals :: byte
  Name :: string

type_synonym bech32_parser = "string \<Rightarrow> string \<Rightarrow> error + address"

definition BranchFactor_Valid :: "int \<Rightarrow> error option" where
  "BranchFactor_Valid b =
     (if b = 2 \<or> b = 4 \<or> b = 16 \<or> b = 256 then None else Some ErrInvalidBranchFactor)"

definition Add64 :: "uint64 \<Rightarrow> uint64 \<Rightarrow> error + uint64" where
  "Add64 a b = (if - 1 - b < a then Inl ErrOverflow else Inr (a + b))"

text \<open>
  The loop of \<^verbatim>\<open>Load\<close> (genesis.go, lines 134-146): the running supply and the ledger
  are threaded through; the first error stops it, with what was written so far.
\<close>

fun loadAllocations ::
  "bech32_parser \<Rightarrow> string \<Rightarrow> CustomAllocation list \<Rightarrow> uint64 \<Rightarrow> mutable \<Rightarrow>
   error option \<times> uint64 \<times> mutable" where
  "loadAllocations parse hrp [] supply mu = (None, supply, mu)"
| "loadAllocations parse hrp (alloc # rest) supply mu =
     (case parse hrp (ca_Address alloc) of
        Inl e \<Rightarrow> (Some e, supply, mu)
      | Inr addr \<Rightarrow>
     (case Add64 supply (ca_Balance alloc) of
        Inl e \<Rightarrow> (Some e, supply, mu)
      | Inr supply1 \<Rightarrow>
     (case SetBalance mu addr ids_Empty (ca_Balance alloc) of
        Inl e \<Rightarrow> (Some e, supply1, mu)
      | Inr mu1 \<Rightarrow> loadAllocations parse hrp rest supply1 mu1)))"

text \<open>\<^verbatim>\<open>Genesis.Load\<close> (genesis.go, lines 125-159): the error, and the ledger as it is left.\<close>

definition Genesis_Load ::
  "bech32_parser \<Rightarrow> chain_consts \<Rightarrow> Genesis \<Rightarrow> mutable \<Rightarrow> error option \<times> mutable" where
  "Genesis_Load parse c g mu =
     (case BranchFactor_Valid (g_StateBranchFactor g) of
        Some e \<Rightarrow> (Some e, mu)
      | None \<Rightarrow>
     (case loadAllocations parse (HRP c) (g_CustomAllocation g) 0 mu of
        (Some e, supply, mu1) \<Rightarrow> (Some e, mu1)
      | (None, supply, mu1) \<Rightarrow>
     (case SetAsset mu1 ids_Empty (Symbol c) (Decimals c) (Name c) supply EmptyAddress False of
        Inl e \<Rightarrow> (Some e, mu1)
      | Inr mu2 \<Rightarrow> (None, mu2))))"

text \<open>
  The sum of the listed balances as a natural number, and the balances that one
  \<^verbatim>\<open>SetBalance\<close> per allocation, in list order, leaves.
\<close>

definition total_allocated :: "CustomAllocation list \<Rightarrow> nat" where
  "total_allocated allocs = sum_list (map (\<lambda>a. unat (ca_Balance a)) allocs)"

definition seeded_balances ::
  "bech32_parser \<Rightarrow> string \<Rightarrow> CustomAllocation list \<Rightarrow> (address \<times> ID \<Rightarrow> uint64) \<Rightarrow>
   address \<times> ID \<Rightarrow> uint64" where
  "seeded_balances parse hrp allocs b =
     foldl (\<lambda>b a. case parse hrp (ca_Address a) of
                     Inl e \<Rightarrow> b
                   | Inr addr \<Rightarrow> b((addr, ids_Empty) := ca_Balance a)) b allocs"

text \<open>
  What the packer writes for each action on a writer with room, and which field values
  the decoders accept: a field unpacked with \<^verbatim>\<open>required = true\<close> must not read as zero or
  empty, a node id must not be longer than the limit \<^verbatim>\<open>NodeIDLen\<close>, an id has 32 bytes
  and an address 33.
\<close>

definition lengthPrefixed :: "bytes \<Rightarrow> bytes" where
  "lengthPrefixed b = be_bytes IntLen (unat (of_nat (length b) :: 32 word)) @ b"

definition UnstakeValidator_populated :: "UnstakeValidator \<Rightarrow> bool" where
  "UnstakeValidator_populated u \<longleftrightarrow>
     length (uv_Stake u) = IDLen \<and> uv_Stake u \<noteq> ids_Empty \<and>
     length (uv_NodeID u) \<le> NodeIDLen"

definition WithdrawValidatorStake_populated :: "WithdrawValidatorStake \<Rightarrow> bool" where
  "WithdrawValidatorStake_populated u \<longleftrightarrow>
     wv_NodeID u \<noteq> [] \<and> length (wv_NodeID u) \<le> NodeIDLen"

definition DelegateUserStake_populated :: "DelegateUserStake \<Rightarrow> bool" where
  "DelegateUserStake_populated s \<longleftrightarrow>
     du_NodeID s \<noteq> [] \<and> length (du_NodeID s) \<le> NodeIDLen \<and>
     du_StakeStartBlock s \<noteq> 0 \<and> du_StakeEndBlock s \<noteq> 0 \<and> du_StakedAmount s \<noteq> 0 \<and>
     length (du_RewardAddress s) = AddressLen \<and> du_RewardAddress s \<noteq> EmptyAddress"

text \<open>The bytes of an action: \<^verbatim>\<open>Marshal\<close> on a fresh writer whose limit is \<open>limit\<close>.\<close>

definition UnstakeValidator_bytes :: "nat \<Rightarrow> UnstakeValidator \<Rightarrow> bytes" where
  "UnstakeValidator_bytes limit u =
     p_Bytes (UnstakeValidator_Marshal u (NewWriter UnstakeValidator_Size limit))"

definition WithdrawValidatorStake_bytes :: "nat \<Rightarrow> WithdrawValidatorStake \<Rightarrow> bytes" where
  "WithdrawValidatorStake_bytes limit u =
     p_Bytes (WithdrawValidatorStake_Marshal u (NewWriter WithdrawValidatorStake_Size limit))"

definition DelegateUserStake_bytes :: "nat \<Rightarrow> DelegateUserStake \<Rightarrow> bytes" where
  "DelegateUserStake_bytes limit s =
     p_Bytes (DelegateUserStake_Marshal s (NewWriter DelegateUserStake_Size limit))"

section \<open>Concrete ledgers\<close>

text \<open>
  Well-formed inputs on which the theorems below are exercised: addresses, node ids and
  ids of the right length filled with one byte, a ledger without entries whose storage
  never fails, and an engine without stakes.
\<close>

definition addr_of :: "byte \<Rightarrow> address" where
  "addr_of b = replicate AddressLen b"

definition node_of :: "byte \<Rightarrow> NodeID" where
  "node_of b = replicate NodeIDLen b"

definition id_of :: "byte \<Rightarrow> ID" where
  "id_of b = replicate IDLen b"

definition empty_ledger :: mutable where
  "empty_ledger = \<lparr>balances = (\<lambda>k. 0), stakes = Map.empty, validatorStakes = Map.empty,
     delegatorStakes = Map.empty, assets = Map.empty, readFails = (\<lambda>k. False),
     writeFails = (\<lambda>k. False)\<rparr>"

definition empty_engine :: emission where
  "empty_engine = \<lparr>em_validators = Map.empty, em_delegators = Map.empty,
     em_lastAcceptedBlockHeight = 0, em_lastAcceptedBlockTimestamp = 0\<rparr>"

definition stake1 :: stake_record where
  "stake1 = \<lparr>st_nodeID = node_of 7, st_second = 0, st_third = 0, st_owner = addr_of 2\<rparr>"

definition ledger_with_stake :: mutable where
  "ledger_with_stake = empty_ledger\<lparr>stakes := [id_of 1 \<mapsto> stake1]\<rparr>"

definition validator7 :: validator_stake where
  "validator7 = \<lparr>vs_stakeStartBlock = 100, vs_stakeEndBlock = 200, vs_stakedAmount = 5000,
     vs_delegationFeeRate = 10, vs_rewardAddress = addr_of 4, vs_ownerAddress = addr_of 2\<rparr>"

definition ledger_with_validator :: mutable where
  "ledger_with_validator = empty_ledger\<lparr>validatorStakes := [node_of 7 \<mapsto> validator7],
     balances := (\<lambda>k. 0)((addr_of 3, ids_Empty) := 1000)\<rparr>"

definition engine_with_validator :: emission where
  "engine_with_validator = empty_engine\<lparr>em_validators := [node_of 7 \<mapsto>
       \<lparr>ev_stakedAmount = 5000, ev_accumulatedReward = 30\<rparr>],
     em_lastAcceptedBlockHeight := 50, em_lastAcceptedBlockTimestamp := time_Unix 300\<rparr>"

definition config100 :: staking_config where
  "config100 = \<lparr>MinDelegatorStake = 100\<rparr>"

definition delegate5000 :: DelegateUserStake where
  "delegate5000 = \<lparr>du_NodeID = node_of 7, du_StakeStartBlock = 100, du_StakeEndBlock = 200,
     du_StakedAmount = 5000, du_RewardAddress = addr_of 5\<rparr>"

definition withdraw7 :: WithdrawValidatorStake where
  "withdraw7 = \<lparr>wv_NodeID = node_of 7\<rparr>"

text \<open>Ledgers in which an access fails: every read, the write of one key, the read of one record.\<close>

definition ledger_unreadable :: mutable where
  "ledger_unreadable = ledger_with_stake\<lparr>readFails := (\<lambda>k. True)\<rparr>"

definition ledger_write_fails :: "skey \<Rightarrow> mutable" where
  "ledger_write_fails key = ledger_with_validator\<lparr>writeFails := (\<lambda>k. k = key)\<rparr>"

definition ledger_validator_unreadable :: mutable where
  "ledger_validator_unreadable = ledger_with_validator\<lparr>readFails :=
     (\<lambda>k. k = RegisterValidatorStakeKey (node_of 7))\<rparr>"

definition unstake1 :: UnstakeValidator where
  "unstake1 = \<lparr>uv_Stake = id_of 1, uv_NodeID = node_of 7\<rparr>"

definition engine_after_withdraw :: emission where
  "engine_after_withdraw = engine_with_validator\<lparr>em_validators := Map.empty\<rparr>"

definition delegate_with :: "uint64 \<Rightarrow> uint64 \<Rightarrow> uint64 \<Rightarrow> DelegateUserStake" where
  "delegate_with stakeStartBlock stakeEndBlock stakedAmount =
     \<lparr>du_NodeID = node_of 7, du_StakeStartBlock = stakeStartBlock,
      du_StakeEndBlock = stakeEndBlock, du_StakedAmount = stakedAmount,
      du_RewardAddress = addr_of 5\<rparr>"

definition ledger_with_delegation :: mutable where
  "ledger_with_delegation = ledger_with_validator\<lparr>delegatorStakes :=
     [(addr_of 3, node_of 7) \<mapsto> \<lparr>ds_stakeStartBlock = 100, ds_stakeEndBlock = 200,
        ds_stakedAmount = 500, ds_rewardAddress = addr_of 5\<rparr>]\<rparr>"

definition ledger_delegation_unreadable :: mutable where
  "ledger_delegation_unreadable = ledger_with_delegation\<lparr>readFails :=
     (\<lambda>k. k = DelegateUserStakeKey (addr_of 3) (node_of 7))\<rparr>"

text \<open>
  For \<^verbatim>\<open>Genesis.Load\<close>: a parser that refuses the empty string and maps any other to the
  address filled with the string's length, the constants of a chain, a genesis with
  branch factor 16, and a ledger in which the write of the native asset record fails.
\<close>

definition example_parser :: bech32_parser where
  "example_parser hrp saddr =
     (if saddr = [] then Inl ErrParseAddress else Inr (addr_of (of_nat (length saddr))))"

definition example_consts :: chain_consts where
  "example_consts = \<lparr>HRP = ''hrp'', Symbol = ''SYM'', Decimals = 9, Name = ''name''\<rparr>"

definition genesis_of :: "CustomAllocation list \<Rightarrow> Genesis" where
  "genesis_of allocs = \<lparr>g_StateBranchFactor = 16, g_CustomAllocation = allocs\<rparr>"

definition alloc :: "string \<Rightarrow> uint64 \<Rightarrow> CustomAllocation" where
  "alloc saddr balance = \<lparr>ca_Address = saddr, ca_Balance = balance\<rparr>"

definition ledger_asset_write_fails :: mutable where
  "ledger_asset_write_fails = empty_ledger\<lparr>writeFails := (\<lambda>k. k = AssetKey ids_Empty)\<rparr>"

text \<open>Actions whose node id has 21 bytes, one more than \<^verbatim>\<open>NodeIDLen\<close>.\<close>

definition unstake_long :: UnstakeValidator where
  "unstake_long = \<lparr>uv_Stake = id_of 1, uv_NodeID = replicate 21 7\<rparr>"

definition withdraw_long :: WithdrawValidatorStake where
  "withdraw_long = \<lparr>wv_NodeID = replicate 21 7\<rparr>"

definition delegate_long :: DelegateUserStake where
  "delegate_long = \<lparr>du_NodeID = replicate 21 7, du_StakeStartBlock = 100,
     du_StakeEndBlock = 200, du_StakedAmount = 5000, du_RewardAddress = addr_of 5\<rparr>"

section \<open>Facts about the concrete inputs\<close>

lemma addr_of_eq [simp]: "addr_of a = addr_of b \<longleftrightarrow> a = b"
  by (simp add: addr_of_def AddressLen_def)

lemma node_of_eq [simp]: "node_of a = node_of b \<longleftrightarrow> a = b"
  by (simp add: node_of_def NodeIDLen_def)

lemma id_of_eq [simp]: "id_of a = id_of b \<longleftrightarrow> a = b"
  by (simp add: id_of_def IDLen_def)

lemma length_node_of [simp]: "length (node_of b) = NodeIDLen"
  by (simp add: node_of_def)

lemma length_addr_of [simp]: "length (addr_of b) = AddressLen"
  by (simp add: addr_of_def)

lemma length_id_of [simp]: "length (id_of b) = IDLen"
  by (simp add: id_of_def)

lemma ToNodeID_node_of [simp]: "ToNodeID (node_of b) = Inr (node_of b)"
  by (simp add: ToNodeID_def)

section \<open>Facts about the storage functions and the packer\<close>

lemma length_be_bytes [simp]: "length (be_bytes n v) = n"
  by (induction n arbitrary: v) auto

lemma PackFixedBytes_append:
  assumes "p_Err p = None" and "p_Offset p = length (p_Bytes p)"
    and "length (p_Bytes p) + length b \<le> p_MaxSize p"
  shows "PackFixedBytes p b = p\<lparr>p_Bytes := p_Bytes p @ b, p_Offset := p_Offset p + length b\<rparr>"
  using assms by (cases "b = []") (simp_all add: PackFixedBytes_def expand_def Errored_def Let_def)

lemma RegisterStakeResult_Marshal_eq:
  "RegisterStakeResult_Marshal s = (be_bytes Uint64Len (unat (rs_StakedAmount s)), None)"
  by (simp add: RegisterStakeResult_Marshal_def PackUint64_def PackLong_def NewWriter_def
      PackFixedBytes_append)

lemma AddBalance_Inr:
  assumes "AddBalance mu a k x = Inr mu'"
  shows "mu' = mu\<lparr>balances := (balances mu)((a, k) := balances mu (a, k) + x)\<rparr>"
    and "unat (balances mu (a, k)) + unat x < 2 ^ 64"
  using assms by (auto simp add: AddBalance_def SetBalance_def split: if_splits)

lemma unat_add_no_overflow:
  fixes a b :: uint64
  assumes "unat a + unat b < 2 ^ 64"
  shows "unat (a + b) = unat a + unat b"
  using assms by (simp add: unat_word_ariths)

lemma DeleteRegisterValidatorStake_Inr:
  assumes "DeleteRegisterValidatorStake mu n = Inr mu'"
  shows "mu' = mu\<lparr>validatorStakes := (validatorStakes mu)(n := None)\<rparr>"
  using assms by (auto simp add: DeleteRegisterValidatorStake_def split: if_splits)

lemma SubBalance_Inr:
  assumes "SubBalance mu a k x = Inr mu'"
  shows "mu' = mu\<lparr>balances := (balances mu)((a, k) := balances mu (a, k) - x)\<rparr>"
    and "x \<le> balances mu (a, k)"
  using assms by (auto simp add: SubBalance_def SetBalance_def split: if_splits)

lemma SetDelegateUserStake_Inr:
  assumes "SetDelegateUserStake mu a n st en am rw = Inr mu'"
  shows "mu' = mu\<lparr>delegatorStakes := (delegatorStakes mu)((a, n) \<mapsto>
           \<lparr>ds_stakeStartBlock = st, ds_stakeEndBlock = en, ds_stakedAmount = am,
            ds_rewardAddress = rw\<rparr>)\<rparr>"
  using assms by (auto simp add: SetDelegateUserStake_def split: if_splits)

lemma Emission_DelegateUserStake_Inr:
  assumes "Emission_DelegateUserStake em n a st en am = Inr em'"
  shows "em' = em\<lparr>em_delegators := (em_delegators em)((a, n) \<mapsto>
           \<lparr>ed_stakeStartBlock = st, ed_stakeEndBlock = en, ed_stakedAmount = am\<rparr>)\<rparr>"
    and "em_delegators em (a, n) = None"
  using assms by (auto simp add: Emission_DelegateUserStake_def split: option.splits)

lemma unat_sub_no_underflow:
  fixes a b :: uint64
  assumes "b \<le> a"
  shows "unat (a - b) + unat b = unat a"
  using assms by (simp add: unat_sub word_le_nat_alt)

lemmas example_defs =
  ledger_with_stake_def ledger_with_validator_def engine_with_validator_def
  empty_ledger_def empty_engine_def validator7_def stake1_def config100_def
  delegate5000_def withdraw7_def ledger_unreadable_def ledger_write_fails_def
  unstake1_def engine_after_withdraw_def delegate_with_def ledger_with_delegation_def
  example_parser_def example_consts_def genesis_of_def alloc_def ledger_asset_write_fails_def
  unstake_long_def withdraw_long_def delegate_long_def

lemmas storage_defs =
  GetStake_def GetRegisterValidatorStake_def GetDelegateUserStake_def
  SetDelegateUserStake_def DeleteRegisterValidatorStake_def SetBalance_def AddBalance_def
  SubBalance_def SetAsset_def

lemmas engine_defs =
  GetLastAcceptedBlockHeight_def GetLastAcceptedBlockTimestamp_def
  Emission_DelegateUserStake_def Emission_WithdrawValidatorStake_def

lemmas time_defs = time_Unix_def wrap_int64_def unixToInternal_def int64_def

section \<open>UnstakeValidator: rejections and the successful run\<close>

text \<open>
  What \<^verbatim>\<open>Execute\<close> returns in a state that holds the targeted record: the result
  depends on whether the read of the record fails, on the caller and, for
  \<^verbatim>\<open>UnstakeValidator\<close>, on the node id, in this order; the state is returned as given.
\<close>

lemma UnstakeValidator_Execute_existing:
  assumes "stakes mu (uv_Stake u) = Some st"
  shows "UnstakeValidator_Execute u actor (mu, em) =
           (if readFails mu (StakeKey (uv_Stake u))
              then returnFalse UnstakeValidatorComputeUnits (ErrBytes ErrStorage)
            else if st_owner st \<noteq> actor
              then returnFalse UnstakeValidatorComputeUnits OutputUnauthorized
            else if st_nodeID st \<noteq> uv_NodeID u
              then returnFalse UnstakeValidatorComputeUnits OutputDifferentNodeIDThanStaked
            else returnTrue UnstakeValidatorComputeUnits OutputNil, mu, em)"
  using assms by (simp add: UnstakeValidator_Execute_def GetStake_def)

lemma WithdrawValidatorStake_unauthorized:
  assumes "validatorStakes mu (wv_NodeID w) = Some v"
    and "vs_ownerAddress v \<noteq> actor"
  shows "WithdrawValidatorStake_Execute now w actor (mu, em) =
           (returnFalse WithdrawValidatorStakeComputeUnits
              (if length (wv_NodeID w) \<noteq> NodeIDLen then OutputInvalidNodeID
               else if readFails mu (RegisterValidatorStakeKey (wv_NodeID w))
                 then OutputValidatorAlreadyRegistered
               else OutputUnauthorized), mu, em)"
  using assms
  by (simp add: WithdrawValidatorStake_Execute_def ToNodeID_def GetRegisterValidatorStake_def)

lemma GetStake_example [simp]:
  "GetStake ledger_with_stake (id_of 1) = (True, stake1, None)"
  by (simp add: GetStake_def ledger_with_stake_def empty_ledger_def)

lemma GetRegisterValidatorStake_example [simp]:
  "GetRegisterValidatorStake ledger_with_validator (node_of 7) = (True, validator7, None)"
  by (simp add: GetRegisterValidatorStake_def ledger_with_validator_def empty_ledger_def)

text \<open>
  Claim C3, as the code has it. In every state that holds the targeted stake record
  (under the stake id for \<^verbatim>\<open>UnstakeValidator\<close>, under the node id for
  \<^verbatim>\<open>WithdrawValidatorStake\<close>) and for every actor: where the actor is not the record's
  owner, both \<^verbatim>\<open>Execute\<close> functions return \<^verbatim>\<open>success = false\<close>, with
  \<^verbatim>\<open>OutputUnauthorized\<close> when the read of the record succeeds (for
  \<^verbatim>\<open>WithdrawValidatorStake\<close>, on a node id of 20 bytes), whatever node id is supplied to
  \<^verbatim>\<open>UnstakeValidator\<close>; where the owner calls \<^verbatim>\<open>UnstakeValidator\<close> with a node id that
  differs from the staked one, it returns \<^verbatim>\<open>success = false\<close>, with
  \<^verbatim>\<open>OutputDifferentNodeIDThanStaked\<close> when the read of the record succeeds. When the read
  fails, \<^verbatim>\<open>UnstakeValidator.Execute\<close> returns the text of the storage error (line 59) and
  \<^verbatim>\<open>WithdrawValidatorStake.Execute\<close>, which keeps only \<^verbatim>\<open>exists\<close> of its read (line 66),
  returns the payload of line 68. In all of these cases the ledger and the engine are
  returned unchanged.
\<close>

theorem non_owner_and_node_mismatch_rejected:
  "(stakes mu (uv_Stake u) = Some st \<and> st_owner st \<noteq> actor \<longrightarrow>
      UnstakeValidator_Execute u actor (mu, em) =
        (returnFalse UnstakeValidatorComputeUnits
           (if readFails mu (StakeKey (uv_Stake u)) then ErrBytes ErrStorage
            else OutputUnauthorized), mu, em)) \<and>
   (validatorStakes mu (wv_NodeID w) = Some v \<and> vs_ownerAddress v \<noteq> actor \<longrightarrow>
      WithdrawValidatorStake_Execute now w actor (mu, em) =
        (returnFalse WithdrawValidatorStakeComputeUnits
           (if length (wv_NodeID w) \<noteq> NodeIDLen then OutputInvalidNodeID
            else if readFails mu (RegisterValidatorStakeKey (wv_NodeID w))
              then OutputValidatorAlreadyRegistered
            else OutputUnauthorized), mu, em)) \<and>
   (stakes mu (uv_Stake u) = Some st \<and> st_owner st = actor \<and>
      st_nodeID st \<noteq> uv_NodeID u \<longrightarrow>
      UnstakeValidator_Execute u actor (mu, em) =
        (returnFalse UnstakeValidatorComputeUnits
           (if readFails mu (StakeKey (uv_Stake u)) then ErrBytes ErrStorage
            else OutputDifferentNodeIDThanStaked), mu, em))"
proof (intro conjI impI)
  assume "stakes mu (uv_Stake u) = Some st \<and> st_owner st \<noteq> actor"
  then show "UnstakeValidator_Execute u actor (mu, em) =
      (returnFalse UnstakeValidatorComputeUnits
         (if readFails mu (StakeKey (uv_Stake u)) then ErrBytes ErrStorage
          else OutputUnauthorized), mu, em)"
    by (simp add: UnstakeValidator_Execute_existing)
next
  assume "validatorStakes mu (wv_NodeID w) = Some v \<and> vs_ownerAddress v \<noteq> actor"
  then show "WithdrawValidatorStake_Execute now w actor (mu, em) =
      (returnFalse WithdrawValidatorStakeComputeUnits
         (if length (wv_NodeID w) \<noteq> NodeIDLen then OutputInvalidNodeID
          else if readFails mu (RegisterValidatorStakeKey (wv_NodeID w))
            then OutputValidatorAlreadyRegistered
          else OutputUnauthorized), mu, em)"
    by (simp add: WithdrawValidatorStake_unauthorized)
next
  assume "stakes mu (uv_Stake u) = Some st \<and> st_owner st = actor \<and>
      st_nodeID st \<noteq> uv_NodeID u"
  then show "UnstakeValidator_Execute u actor (mu, em) =
      (returnFalse UnstakeValidatorComputeUnits
         (if readFails mu (StakeKey (uv_Stake u)) then ErrBytes ErrStorage
          else OutputDifferentNodeIDThanStaked), mu, em)"
    by (simp add: UnstakeValidator_Execute_existing)
qed

theorem non_owner_and_node_mismatch_rejected_witness:
  "UnstakeValidator_Execute unstake1 (addr_of 9) (ledger_with_stake, empty_engine) =
     (returnFalse UnstakeValidatorComputeUnits OutputUnauthorized,
      ledger_with_stake, empty_engine) \<and>
   WithdrawValidatorStake_Execute (time_Unix 400) withdraw7 (addr_of 9)
      (ledger_with_validator, engine_with_validator) =
     (returnFalse WithdrawValidatorStakeComputeUnits OutputUnauthorized,
      ledger_with_validator, engine_with_validator) \<and>
   UnstakeValidator_Execute \<lparr>uv_Stake = id_of 1, uv_NodeID = node_of 8\<rparr> (addr_of 2)
      (ledger_with_stake, empty_engine) =
     (returnFalse UnstakeValidatorComputeUnits OutputDifferentNodeIDThanStaked,
      ledger_with_stake, empty_engine)"
proof -
  have st: "stakes ledger_with_stake (id_of 1) = Some stake1"
    "\<not> readFails ledger_with_stake (StakeKey (id_of 1))"
    by (simp_all add: ledger_with_stake_def empty_ledger_def)
  have vs: "validatorStakes ledger_with_validator (node_of 7) = Some validator7"
    "\<not> readFails ledger_with_validator (RegisterValidatorStakeKey (node_of 7))"
    by (simp_all add: ledger_with_validator_def empty_ledger_def)
  from non_owner_and_node_mismatch_rejected
    [where mu = ledger_with_stake and u = unstake1 and st = stake1 and actor = "addr_of 9"
       and em = empty_engine] st
  have c1: "UnstakeValidator_Execute unstake1 (addr_of 9) (ledger_with_stake, empty_engine) =
     (returnFalse UnstakeValidatorComputeUnits OutputUnauthorized,
      ledger_with_stake, empty_engine)"
    by (simp add: unstake1_def stake1_def)
  from non_owner_and_node_mismatch_rejected
    [where mu = ledger_with_validator and w = withdraw7 and v = validator7
       and actor = "addr_of 9" and em = engine_with_validator and now = "time_Unix 400"] vs
  have c2: "WithdrawValidatorStake_Execute (time_Unix 400) withdraw7 (addr_of 9)
      (ledger_with_validator, engine_with_validator) =
     (returnFalse WithdrawValidatorStakeComputeUnits OutputUnauthorized,
      ledger_with_validator, engine_with_validator)"
    by (simp add: withdraw7_def validator7_def)
  from non_owner_and_node_mismatch_rejected
    [where mu = ledger_with_stake and u = "\<lparr>uv_Stake = id_of 1, uv_NodeID = node_of 8\<rparr>"
       and st = stake1 and actor = "addr_of 2" and em = empty_engine] st
  have c3: "UnstakeValidator_Execute \<lparr>uv_Stake = id_of 1, uv_NodeID = node_of 8\<rparr> (addr_of 2)
      (ledger_with_stake, empty_engine) =
     (returnFalse UnstakeValidatorComputeUnits OutputDifferentNodeIDThanStaked,
      ledger_with_stake, empty_engine)"
    by (simp add: stake1_def)
  from c1 c2 c3 show ?thesis by simp
qed

text \<open>
  The claim as stated fails at three inputs. A caller who is not the owner and supplies
  a node id other than the staked one gets \<^verbatim>\<open>OutputUnauthorized\<close>, not the payload of the
  node id mismatch: the owner check comes first (lines 64-69 of unstake_validator.go).
  And where the record is in the ledger but the read of it fails, a caller who is not
  the owner gets the text of the storage error from \<^verbatim>\<open>UnstakeValidator\<close> and
  \<^verbatim>\<open>OutputValidatorAlreadyRegistered\<close> from \<^verbatim>\<open>WithdrawValidatorStake\<close>, not the
  authorization rejection.
\<close>

theorem non_owner_rejection_counterexample:
  "stakes ledger_with_stake (id_of 1) = Some stake1 \<and>
   st_owner stake1 \<noteq> addr_of 9 \<and> st_nodeID stake1 \<noteq> node_of 8 \<and>
   outputBytes (fst (UnstakeValidator_Execute \<lparr>uv_Stake = id_of 1, uv_NodeID = node_of 8\<rparr>
      (addr_of 9) (ledger_with_stake, empty_engine))) = OutputUnauthorized \<and>
   OutputUnauthorized \<noteq> OutputDifferentNodeIDThanStaked \<and>
   stakes ledger_unreadable (id_of 1) = Some stake1 \<and>
   fst (UnstakeValidator_Execute unstake1 (addr_of 9) (ledger_unreadable, empty_engine)) =
     returnFalse UnstakeValidatorComputeUnits (ErrBytes ErrStorage) \<and>
   ErrBytes ErrStorage \<noteq> OutputUnauthorized \<and>
   validatorStakes ledger_validator_unreadable (node_of 7) = Some validator7 \<and>
   vs_ownerAddress validator7 \<noteq> addr_of 9 \<and>
   fst (WithdrawValidatorStake_Execute (time_Unix 400) withdraw7 (addr_of 9)
      (ledger_validator_unreadable, engine_with_validator)) =
     returnFalse WithdrawValidatorStakeComputeUnits OutputValidatorAlreadyRegistered \<and>
   OutputValidatorAlreadyRegistered \<noteq> OutputUnauthorized"
  by (simp add: UnstakeValidator_Execute_def WithdrawValidatorStake_Execute_def ToNodeID_def
      GetStake_def GetRegisterValidatorStake_def returnFalse_def ledger_with_stake_def
      ledger_unreadable_def ledger_validator_unreadable_def ledger_with_validator_def
      empty_ledger_def stake1_def validator7_def unstake1_def withdraw7_def)

text \<open>
  Claim C10, as the code has it. In every state that holds the stake record, with the
  record's owner as caller and the staked node id supplied, \<^verbatim>\<open>UnstakeValidator.Execute\<close>
  returns the ledger and the engine it was given: no balance is credited, the stake
  record stays, the engine is not called. It returns \<^verbatim>\<open>success = true\<close> with a nil
  output when the read of the record succeeds, and \<^verbatim>\<open>success = false\<close> with the text of
  the storage error when that read fails (line 59).
\<close>

theorem UnstakeValidator_success_writes_nothing:
  assumes "stakes mu (uv_Stake u) = Some st"
    and "st_owner st = actor"
    and "st_nodeID st = uv_NodeID u"
  shows "UnstakeValidator_Execute u actor (mu, em) =
           (if readFails mu (StakeKey (uv_Stake u))
              then returnFalse UnstakeValidatorComputeUnits (ErrBytes ErrStorage)
            else returnTrue UnstakeValidatorComputeUnits OutputNil, mu, em)"
  using assms by (simp add: UnstakeValidator_Execute_existing)

theorem UnstakeValidator_success_writes_nothing_witness:
  "UnstakeValidator_Execute unstake1 (addr_of 2) (ledger_with_stake, empty_engine) =
   (returnTrue UnstakeValidatorComputeUnits OutputNil, ledger_with_stake, empty_engine)"
  using UnstakeValidator_success_writes_nothing
    [of ledger_with_stake unstake1 stake1 "addr_of 2" empty_engine]
  by (simp add: unstake1_def stake1_def ledger_with_stake_def empty_ledger_def)

text \<open>
  The claim as stated fails where the ledger holds the stake record but the read of it
  fails: the owner, with the staked node id, gets \<^verbatim>\<open>success = false\<close>.
\<close>

theorem UnstakeValidator_unreadable_record_counterexample:
  "stakes ledger_unreadable (uv_Stake unstake1) = Some stake1 \<and>
   st_owner stake1 = addr_of 2 \<and> st_nodeID stake1 = uv_NodeID unstake1 \<and>
   success (fst (UnstakeValidator_Execute unstake1 (addr_of 2)
      (ledger_unreadable, empty_engine))) = False"
  by (simp add: UnstakeValidator_Execute_def GetStake_def returnFalse_def ledger_unreadable_def
      ledger_with_stake_def empty_ledger_def stake1_def unstake1_def)

section \<open>WithdrawValidatorStake: the successful run and the wall clock\<close>

lemma WithdrawValidatorStake_success_steps:
  assumes rec: "validatorStakes mu (wv_NodeID u) = Some v"
    and ex: "WithdrawValidatorStake_Execute now u actor (mu, em) = (r, mu', em')"
    and ok: "success r"
  shows "\<exists>reward mu1 mu2.
           length (wv_NodeID u) = NodeIDLen \<and>
           \<not> readFails mu (RegisterValidatorStakeKey (wv_NodeID u)) \<and>
           vs_ownerAddress v = actor \<and>
           \<not> now < time_Unix (int64 (vs_stakeEndBlock v)) \<and>
           \<not> GetLastAcceptedBlockTimestamp em < time_Unix (int64 (vs_stakeEndBlock v)) \<and>
           Emission_WithdrawValidatorStake em (wv_NodeID u) = Inr (reward, em') \<and>
           AddBalance mu (vs_rewardAddress v) ids_Empty reward = Inr mu1 \<and>
           DeleteRegisterValidatorStake mu1 (wv_NodeID u) = Inr mu2 \<and>
           AddBalance mu2 actor ids_Empty (vs_stakedAmount v) = Inr mu' \<and>
           r = returnTrue WithdrawValidatorStakeComputeUnits
                 (OutputBytes (be_bytes Uint64Len (unat (vs_stakedAmount v))))"
  using assms
  by (auto simp add: WithdrawValidatorStake_Execute_def ToNodeID_def
      GetRegisterValidatorStake_def RegisterStakeResult_Marshal_eq Let_def returnFalse_def
      split: if_splits sum.splits prod.splits)

text \<open>
  Claim C2. In every state that holds a validator stake record \<open>v\<close> under the action's
  node id, where \<^verbatim>\<open>WithdrawValidatorStake.Execute\<close> succeeds: the node id has 20 bytes
  and the read of the record did not fail; the caller is the record's owner; both time
  gates are passed; the engine's \<^verbatim>\<open>WithdrawValidatorStake\<close> returned a reward; and
  \<^verbatim>\<open>AddBalance\<close> of the reward to the reward address, \<^verbatim>\<open>DeleteRegisterValidatorStake\<close>
  and \<^verbatim>\<open>AddBalance\<close> of the staked amount to the caller ran in this order without
  error (lines 89-102). In the ledger that is returned the owner's native balance has
  grown by exactly the staked amount (and by the reward too when the owner is the reward
  address), the reward address's native balance has grown by exactly the reward, no
  other balance has changed, and the validator stake record is gone. The additions are
  those of natural numbers: a sum that overflows \<^verbatim>\<open>uint64\<close> makes \<^verbatim>\<open>AddBalance\<close> fail.
\<close>

theorem WithdrawValidatorStake_success_effects:
  assumes rec: "validatorStakes mu (wv_NodeID u) = Some v"
    and ex: "WithdrawValidatorStake_Execute now u actor (mu, em) = (r, mu', em')"
    and ok: "success r"
  shows "length (wv_NodeID u) = NodeIDLen \<and>
         \<not> readFails mu (RegisterValidatorStakeKey (wv_NodeID u)) \<and>
         actor = vs_ownerAddress v \<and>
         \<not> now < time_Unix (int64 (vs_stakeEndBlock v)) \<and>
         \<not> GetLastAcceptedBlockTimestamp em < time_Unix (int64 (vs_stakeEndBlock v)) \<and>
         (\<exists>reward mu1 mu2.
            Emission_WithdrawValidatorStake em (wv_NodeID u) = Inr (reward, em') \<and>
            AddBalance mu (vs_rewardAddress v) ids_Empty reward = Inr mu1 \<and>
            DeleteRegisterValidatorStake mu1 (wv_NodeID u) = Inr mu2 \<and>
            AddBalance mu2 actor ids_Empty (vs_stakedAmount v) = Inr mu' \<and>
            unat (balances mu' (actor, ids_Empty)) =
              unat (balances mu (actor, ids_Empty)) + unat (vs_stakedAmount v) +
              (if vs_rewardAddress v = actor then unat reward else 0) \<and>
            (vs_rewardAddress v \<noteq> actor \<longrightarrow>
               unat (balances mu' (vs_rewardAddress v, ids_Empty)) =
                 unat (balances mu (vs_rewardAddress v, ids_Empty)) + unat reward) \<and>
            (\<forall>k. k \<noteq> (actor, ids_Empty) \<and> k \<noteq> (vs_rewardAddress v, ids_Empty) \<longrightarrow>
               balances mu' k = balances mu k)) \<and>
         validatorStakes mu' = (validatorStakes mu)(wv_NodeID u := None) \<and>
         validatorStakes mu' (wv_NodeID u) = None \<and>
         stakes mu' = stakes mu \<and> delegatorStakes mu' = delegatorStakes mu \<and>
         assets mu' = assets mu \<and>
         r = returnTrue WithdrawValidatorStakeComputeUnits
               (OutputBytes (be_bytes Uint64Len (unat (vs_stakedAmount v))))"
proof -
  from WithdrawValidatorStake_success_steps [OF assms]
  obtain reward mu1 mu2 where
    len: "length (wv_NodeID u) = NodeIDLen"
    and rd: "\<not> readFails mu (RegisterValidatorStakeKey (wv_NodeID u))"
    and owner: "vs_ownerAddress v = actor"
    and gate1: "\<not> now < time_Unix (int64 (vs_stakeEndBlock v))"
    and gate2: "\<not> GetLastAcceptedBlockTimestamp em < time_Unix (int64 (vs_stakeEndBlock v))"
    and eng: "Emission_WithdrawValidatorStake em (wv_NodeID u) = Inr (reward, em')"
    and a1: "AddBalance mu (vs_rewardAddress v) ids_Empty reward = Inr mu1"
    and del: "DeleteRegisterValidatorStake mu1 (wv_NodeID u) = Inr mu2"
    and a2: "AddBalance mu2 actor ids_Empty (vs_stakedAmount v) = Inr mu'"
    and res: "r = returnTrue WithdrawValidatorStakeComputeUnits
                 (OutputBytes (be_bytes Uint64Len (unat (vs_stakedAmount v))))"
    by blast
  note m1 = AddBalance_Inr [OF a1]
  note m2 = DeleteRegisterValidatorStake_Inr [OF del]
  note m3 = AddBalance_Inr [OF a2]
  have b2: "balances mu2 = balances mu1" using m2 by simp
  have owner_bal: "unat (balances mu' (actor, ids_Empty)) =
      unat (balances mu (actor, ids_Empty)) + unat (vs_stakedAmount v) +
      (if vs_rewardAddress v = actor then unat reward else 0)"
  proof (cases "vs_rewardAddress v = actor")
    case True
    have "unat (balances mu1 (actor, ids_Empty)) = unat (balances mu (actor, ids_Empty)) + unat reward"
      using m1 True by (simp add: unat_add_no_overflow)
    moreover have "unat (balances mu' (actor, ids_Empty)) =
        unat (balances mu2 (actor, ids_Empty)) + unat (vs_stakedAmount v)"
      using m3 by (simp add: unat_add_no_overflow)
    ultimately show ?thesis using True b2 by simp
  next
    case False
    have "balances mu1 (actor, ids_Empty) = balances mu (actor, ids_Empty)"
      using m1(1) False by auto
    moreover have "unat (balances mu' (actor, ids_Empty)) =
        unat (balances mu2 (actor, ids_Empty)) + unat (vs_stakedAmount v)"
      using m3 by (simp add: unat_add_no_overflow)
    ultimately show ?thesis using False b2 by simp
  qed
  have reward_bal: "vs_rewardAddress v \<noteq> actor \<longrightarrow>
      unat (balances mu' (vs_rewardAddress v, ids_Empty)) =
        unat (balances mu (vs_rewardAddress v, ids_Empty)) + unat reward"
  proof
    assume ne: "vs_rewardAddress v \<noteq> actor"
    have "balances mu' (vs_rewardAddress v, ids_Empty) = balances mu1 (vs_rewardAddress v, ids_Empty)"
      using m3(1) b2 ne by auto
    moreover have "unat (balances mu1 (vs_rewardAddress v, ids_Empty)) =
        unat (balances mu (vs_rewardAddress v, ids_Empty)) + unat reward"
      using m1 by (simp add: unat_add_no_overflow)
    ultimately show "unat (balances mu' (vs_rewardAddress v, ids_Empty)) =
        unat (balances mu (vs_rewardAddress v, ids_Empty)) + unat reward" by simp
  qed
  have others: "\<forall>k. k \<noteq> (actor, ids_Empty) \<and> k \<noteq> (vs_rewardAddress v, ids_Empty) \<longrightarrow>
      balances mu' k = balances mu k"
    using m1(1) m2 m3(1) by auto
  have vst: "validatorStakes mu' = (validatorStakes mu)(wv_NodeID u := None)"
    using m1(1) m2 m3(1) by simp
  have rest: "stakes mu' = stakes mu \<and> delegatorStakes mu' = delegatorStakes mu \<and>
      assets mu' = assets mu"
    using m1(1) m2 m3(1) by simp
  have "\<exists>reward mu1 mu2.
            Emission_WithdrawValidatorStake em (wv_NodeID u) = Inr (reward, em') \<and>
            AddBalance mu (vs_rewardAddress v) ids_Empty reward = Inr mu1 \<and>
            DeleteRegisterValidatorStake mu1 (wv_NodeID u) = Inr mu2 \<and>
            AddBalance mu2 actor ids_Empty (vs_stakedAmount v) = Inr mu' \<and>
            unat (balances mu' (actor, ids_Empty)) =
              unat (balances mu (actor, ids_Empty)) + unat (vs_stakedAmount v) +
              (if vs_rewardAddress v = actor then unat reward else 0) \<and>
            (vs_rewardAddress v \<noteq> actor \<longrightarrow>
               unat (balances mu' (vs_rewardAddress v, ids_Empty)) =
                 unat (balances mu (vs_rewardAddress v, ids_Empty)) + unat reward) \<and>
            (\<forall>k. k \<noteq> (actor, ids_Empty) \<and> k \<noteq> (vs_rewardAddress v, ids_Empty) \<longrightarrow>
               balances mu' k = balances mu k)"
    using eng a1 del a2 owner_bal reward_bal others by blast
  then show ?thesis
    using len rd owner gate1 gate2 vst rest res by simp
qed

theorem WithdrawValidatorStake_success_effects_witness:
  "success (fst (WithdrawValidatorStake_Execute (time_Unix 400) withdraw7
      (addr_of 2) (ledger_with_validator, engine_with_validator))) \<and>
   unat (balances (fst (snd (WithdrawValidatorStake_Execute (time_Unix 400)
      withdraw7 (addr_of 2) (ledger_with_validator, engine_with_validator))))
      (addr_of 2, ids_Empty)) = 5000 \<and>
   unat (balances (fst (snd (WithdrawValidatorStake_Execute (time_Unix 400)
      withdraw7 (addr_of 2) (ledger_with_validator, engine_with_validator))))
      (addr_of 4, ids_Empty)) = 30 \<and>
   validatorStakes (fst (snd (WithdrawValidatorStake_Execute (time_Unix 400)
      withdraw7 (addr_of 2) (ledger_with_validator, engine_with_validator))))
      (node_of 7) = None"
proof -
  let ?x = "WithdrawValidatorStake_Execute (time_Unix 400) withdraw7
      (addr_of 2) (ledger_with_validator, engine_with_validator)"
  have rec: "validatorStakes ledger_with_validator (wv_NodeID withdraw7) = Some validator7"
    by (simp add: withdraw7_def ledger_with_validator_def empty_ledger_def)
  have ex: "?x = (fst ?x, fst (snd ?x), snd (snd ?x))"
    by simp
  have ok: "success (fst ?x)"
    by (simp add: WithdrawValidatorStake_Execute_def example_defs storage_defs engine_defs
        RegisterStakeResult_Marshal_eq time_defs returnFalse_def returnTrue_def
        Let_def)
  have eng: "Emission_WithdrawValidatorStake engine_with_validator (node_of 7) =
      Inr (30, engine_with_validator\<lparr>em_validators := Map.empty\<rparr>)"
    by (simp add: Emission_WithdrawValidatorStake_def engine_with_validator_def empty_engine_def)
  have bal: "balances ledger_with_validator (addr_of 2, ids_Empty) = 0"
    "balances ledger_with_validator (addr_of 4, ids_Empty) = 0"
    by (simp_all add: ledger_with_validator_def empty_ledger_def)
  from WithdrawValidatorStake_success_effects [OF rec ex ok] eng bal ok
  show ?thesis
    by (auto simp add: validator7_def withdraw7_def)
qed

text \<open>
  Claim C6, as the code has it. \<^verbatim>\<open>WithdrawValidatorStake.Execute\<close> reads the wall clock
  (\<^verbatim>\<open>time.Now()\<close>, line 78) and rejects while the clock is before the stake's end time
  (line 84). With everything else equal, two clock readings that are on different sides
  of the end time give different results; two readings on the same side of the end time
  of the record that the read at line 66 returns give the same result, ledger and
  engine, and so do any two readings when that read returns no record.
\<close>

theorem WithdrawValidatorStake_clock_only_through_gate:
  assumes rec: "GetRegisterValidatorStake mu (wv_NodeID u) = (found, v, e)"
    and side: "found \<Longrightarrow> (now1 < time_Unix (int64 (vs_stakeEndBlock v))) =
                 (now2 < time_Unix (int64 (vs_stakeEndBlock v)))"
  shows "WithdrawValidatorStake_Execute now1 u actor (mu, em) =
         WithdrawValidatorStake_Execute now2 u actor (mu, em)"
proof (cases "ToNodeID (wv_NodeID u)")
  case (Inl err)
  then show ?thesis by (simp add: WithdrawValidatorStake_Execute_def)
next
  case (Inr n)
  then have n: "n = wv_NodeID u" by (auto simp add: ToNodeID_def split: if_splits)
  show ?thesis
  proof (cases found)
    case False
    with Inr rec n show ?thesis by (simp add: WithdrawValidatorStake_Execute_def)
  next
    case True
    with side have "(now1 < time_Unix (int64 (vs_stakeEndBlock v))) =
                 (now2 < time_Unix (int64 (vs_stakeEndBlock v)))" by simp
    with Inr rec n True show ?thesis
      by (simp add: WithdrawValidatorStake_Execute_def Let_def)
  qed
qed

theorem WithdrawValidatorStake_clock_only_through_gate_witness:
  "WithdrawValidatorStake_Execute (time_Unix 300) withdraw7 (addr_of 2)
     (ledger_with_validator, engine_with_validator) =
   WithdrawValidatorStake_Execute (time_Unix 400) withdraw7 (addr_of 2)
     (ledger_with_validator, engine_with_validator)"
proof -
  have rec: "GetRegisterValidatorStake ledger_with_validator (wv_NodeID withdraw7) =
      (True, validator7, None)"
    by (simp add: withdraw7_def)
  have side: "(time_Unix 300 < time_Unix (int64 (vs_stakeEndBlock validator7))) =
      (time_Unix 400 < time_Unix (int64 (vs_stakeEndBlock validator7)))"
    by (simp add: validator7_def time_defs)
  show ?thesis
    by (rule WithdrawValidatorStake_clock_only_through_gate [OF rec side])
qed

text \<open>
  The claim as stated fails here: the same ledger, engine, actor and action, with the
  clock 100 seconds after the epoch (before the stake's end time, 200) and then 300
  seconds after it.
\<close>

theorem WithdrawValidatorStake_wall_clock_counterexample:
  "success (fst (WithdrawValidatorStake_Execute (time_Unix 100) withdraw7
      (addr_of 2) (ledger_with_validator, engine_with_validator))) = False \<and>
   success (fst (WithdrawValidatorStake_Execute (time_Unix 300) withdraw7
      (addr_of 2) (ledger_with_validator, engine_with_validator))) = True"
  by (simp add: WithdrawValidatorStake_Execute_def example_defs storage_defs engine_defs
      RegisterStakeResult_Marshal_eq time_defs returnFalse_def returnTrue_def
      Let_def)

section \<open>DelegateUserStake\<close>

text \<open>
  Claim C1 at a concrete input. The validator of node 7 is registered, the actor has no
  delegation to it, the amount 5000 is over the minimum 100, the blocks 100 and 200 are
  in order and not before height 50, but the actor's balance is 1000. The engine's
  \<^verbatim>\<open>DelegateUserStake\<close> (line 100) records the delegation, then \<^verbatim>\<open>storage.SubBalance\<close>
  (line 105) fails: \<^verbatim>\<open>Execute\<close> returns \<^verbatim>\<open>success = false\<close> with the error's bytes, the
  ledger as it was, and an engine that holds a delegation it did not hold before.
\<close>

theorem DelegateUserStake_rejection_after_engine_write:
  "DelegateUserStake_Execute config100 delegate5000 (addr_of 3)
     (ledger_with_validator, engine_with_validator) =
   (returnFalse DelegateUserStakeComputeUnits (ErrBytes ErrInvalidBalance),
    ledger_with_validator,
    engine_with_validator\<lparr>em_delegators := [(addr_of 3, node_of 7) \<mapsto>
      \<lparr>ed_stakeStartBlock = 100, ed_stakeEndBlock = 200, ed_stakedAmount = 5000\<rparr>]\<rparr>) \<and>
   em_delegators engine_with_validator (addr_of 3, node_of 7) = None \<and>
   balances ledger_with_validator (addr_of 3, ids_Empty) = 1000"
  by (simp add: DelegateUserStake_Execute_def example_defs storage_defs engine_defs)

lemma DelegateUserStake_success_steps:
  assumes ex: "DelegateUserStake_Execute cfg s actor (mu, em) = (r, mu', em')"
    and ok: "success r"
  shows "\<exists>mu1.
           length (du_NodeID s) = NodeIDLen \<and>
           fst (GetRegisterValidatorStake mu (du_NodeID s)) \<and>
           \<not> fst (GetDelegateUserStake mu actor (du_NodeID s)) \<and>
           \<not> du_StakedAmount s < MinDelegatorStake cfg \<and>
           \<not> du_StakeEndBlock s \<le> du_StakeStartBlock s \<and>
           \<not> du_StakeStartBlock s < GetLastAcceptedBlockHeight em \<and>
           Emission_DelegateUserStake em (du_NodeID s) actor (du_StakeStartBlock s)
             (du_StakeEndBlock s) (du_StakedAmount s) = Inr em' \<and>
           SubBalance mu actor ids_Empty (du_StakedAmount s) = Inr mu1 \<and>
           SetDelegateUserStake mu1 actor (du_NodeID s) (du_StakeStartBlock s)
             (du_StakeEndBlock s) (du_StakedAmount s) (du_RewardAddress s) = Inr mu' \<and>
           r = returnTrue DelegateUserStakeComputeUnits OutputNil"
  using assms
  by (auto simp add: DelegateUserStake_Execute_def ToNodeID_def returnFalse_def
      split: if_splits sum.splits)

lemma DelegateUserStake_success_effects:
  assumes ex: "DelegateUserStake_Execute cfg s actor (mu, em) = (r, mu', em')"
    and ok: "success r"
  shows "du_StakedAmount s \<le> balances mu (actor, ids_Empty) \<and>
         unat (balances mu' (actor, ids_Empty)) + unat (du_StakedAmount s) =
           unat (balances mu (actor, ids_Empty)) \<and>
         (\<forall>k. k \<noteq> (actor, ids_Empty) \<longrightarrow> balances mu' k = balances mu k) \<and>
         delegatorStakes mu' = (delegatorStakes mu)((actor, du_NodeID s) \<mapsto>
           \<lparr>ds_stakeStartBlock = du_StakeStartBlock s, ds_stakeEndBlock = du_StakeEndBlock s,
            ds_stakedAmount = du_StakedAmount s, ds_rewardAddress = du_RewardAddress s\<rparr>) \<and>
         em_delegators em (actor, du_NodeID s) = None \<and>
         em_delegators em' = (em_delegators em)((actor, du_NodeID s) \<mapsto>
           \<lparr>ed_stakeStartBlock = du_StakeStartBlock s, ed_stakeEndBlock = du_StakeEndBlock s,
            ed_stakedAmount = du_StakedAmount s\<rparr>) \<and>
         validatorStakes mu' = validatorStakes mu \<and>
         em_validators em' = em_validators em \<and>
         r = returnTrue DelegateUserStakeComputeUnits OutputNil"
proof -
  from DelegateUserStake_success_steps [OF assms]
  obtain mu1 where
    eng: "Emission_DelegateUserStake em (du_NodeID s) actor (du_StakeStartBlock s)
             (du_StakeEndBlock s) (du_StakedAmount s) = Inr em'"
    and sub: "SubBalance mu actor ids_Empty (du_StakedAmount s) = Inr mu1"
    and set: "SetDelegateUserStake mu1 actor (du_NodeID s) (du_StakeStartBlock s)
             (du_StakeEndBlock s) (du_StakedAmount s) (du_RewardAddress s) = Inr mu'"
    and res: "r = returnTrue DelegateUserStakeComputeUnits OutputNil"
    by blast
  note e = Emission_DelegateUserStake_Inr [OF eng]
  note b = SubBalance_Inr [OF sub]
  note d = SetDelegateUserStake_Inr [OF set]
  have bal: "balances mu' = (balances mu)((actor, ids_Empty) :=
      balances mu (actor, ids_Empty) - du_StakedAmount s)"
    using b(1) d by simp
  have nat_bal: "unat (balances mu' (actor, ids_Empty)) + unat (du_StakedAmount s) =
      unat (balances mu (actor, ids_Empty))"
    using bal unat_sub_no_underflow [OF b(2)] by simp
  show ?thesis
    using b(2) nat_bal bal e d b(1) res by simp
qed

lemma DelegateUserStake_rejections:
  assumes nid: "length (du_NodeID s) = NodeIDLen"
  shows "\<not> fst (GetRegisterValidatorStake mu (du_NodeID s)) \<Longrightarrow>
           DelegateUserStake_Execute cfg s actor (mu, em) =
             (returnFalse RegisterValidatorStakeComputeUnits OutputValidatorNotYetRegistered,
              mu, em)"
    and "fst (GetRegisterValidatorStake mu (du_NodeID s)) \<Longrightarrow>
         fst (GetDelegateUserStake mu actor (du_NodeID s)) \<Longrightarrow>
           DelegateUserStake_Execute cfg s actor (mu, em) =
             (returnFalse DelegateUserStakeComputeUnits OutputUserAlreadyStaked, mu, em)"
    and "fst (GetRegisterValidatorStake mu (du_NodeID s)) \<Longrightarrow>
         \<not> fst (GetDelegateUserStake mu actor (du_NodeID s)) \<Longrightarrow>
         du_StakedAmount s < MinDelegatorStake cfg \<Longrightarrow>
           DelegateUserStake_Execute cfg s actor (mu, em) =
             (returnFalse DelegateUserStakeComputeUnits OutputDelegateStakedAmountInvalid,
              mu, em)"
    and "fst (GetRegisterValidatorStake mu (du_NodeID s)) \<Longrightarrow>
         \<not> fst (GetDelegateUserStake mu actor (du_NodeID s)) \<Longrightarrow>
         MinDelegatorStake cfg \<le> du_StakedAmount s \<Longrightarrow>
         du_StakeEndBlock s \<le> du_StakeStartBlock s \<Longrightarrow>
           DelegateUserStake_Execute cfg s actor (mu, em) =
             (returnFalse DelegateUserStakeComputeUnits OutputInvalidStakeEndBlock, mu, em)"
    and "fst (GetRegisterValidatorStake mu (du_NodeID s)) \<Longrightarrow>
         \<not> fst (GetDelegateUserStake mu actor (du_NodeID s)) \<Longrightarrow>
         MinDelegatorStake cfg \<le> du_StakedAmount s \<Longrightarrow>
         du_StakeStartBlock s < du_StakeEndBlock s \<Longrightarrow>
         du_StakeStartBlock s < GetLastAcceptedBlockHeight em \<Longrightarrow>
           DelegateUserStake_Execute cfg s actor (mu, em) =
             (returnFalse DelegateUserStakeComputeUnits OutputInvalidStakeStartBlock, mu, em)"
  using nid
  by (auto simp add: DelegateUserStake_Execute_def ToNodeID_def)

lemma GetRegisterValidatorStake_exists:
  "fst (GetRegisterValidatorStake mu n) \<longleftrightarrow>
     \<not> readFails mu (RegisterValidatorStakeKey n) \<and> validatorStakes mu n \<noteq> None"
  by (simp add: GetRegisterValidatorStake_def split: option.splits)

lemma GetDelegateUserStake_exists:
  "fst (GetDelegateUserStake mu a n) \<longleftrightarrow>
     \<not> readFails mu (DelegateUserStakeKey a n) \<and> delegatorStakes mu (a, n) \<noteq> None"
  by (simp add: GetDelegateUserStake_def split: option.splits)

lemma DelegateUserStake_invalid_node_id:
  assumes "length (du_NodeID s) \<noteq> NodeIDLen"
  shows "DelegateUserStake_Execute cfg s actor (mu, em) =
           (returnFalse DelegateUserStakeComputeUnits OutputInvalidNodeID, mu, em)"
  using assms by (simp add: DelegateUserStake_Execute_def ToNodeID_def)

text \<open>
  Claim C4, as the code has it. \<^verbatim>\<open>DelegateUserStake.Execute\<close> rejects a node id that is
  not 20 bytes long with \<^verbatim>\<open>OutputInvalidNodeID\<close> (line 64). It succeeds only when the
  node id has 20 bytes, the ledger holds a stake record of the validator and the read
  of it did not fail, the ledger holds no delegation record of the actor for the
  validator (this where the read of that record did not fail), the amount is at least
  \<^verbatim>\<open>MinDelegatorStake\<close>, the end block is after the start block and the start block is
  not before the last accepted height. On success the engine's \<^verbatim>\<open>DelegateUserStake\<close>,
  \<^verbatim>\<open>SubBalance\<close> and \<^verbatim>\<open>SetDelegateUserStake\<close> ran in this order without error (lines
  100-110): the actor's native balance is smaller by exactly the amount, no other
  balance has changed, and the delegation is recorded under (actor, node id) in the
  ledger and in the engine. For a node id of 20 bytes and where the reads of the two
  records succeed, each of the five checks that fails, the ones before it passing, gives
  \<^verbatim>\<open>success = false\<close> with its own payload and leaves ledger and engine as they were.
\<close>

theorem DelegateUserStake_checks_and_effects:
  assumes ex: "DelegateUserStake_Execute cfg s actor (mu, em) = (r, mu', em')"
  shows
    "(success r \<longrightarrow>
        length (du_NodeID s) = NodeIDLen \<and>
        validatorStakes mu (du_NodeID s) \<noteq> None \<and>
        \<not> readFails mu (RegisterValidatorStakeKey (du_NodeID s)) \<and>
        (\<not> readFails mu (DelegateUserStakeKey actor (du_NodeID s)) \<longrightarrow>
           delegatorStakes mu (actor, du_NodeID s) = None) \<and>
        MinDelegatorStake cfg \<le> du_StakedAmount s \<and>
        du_StakeStartBlock s < du_StakeEndBlock s \<and>
        GetLastAcceptedBlockHeight em \<le> du_StakeStartBlock s \<and>
        (\<exists>mu1.
           Emission_DelegateUserStake em (du_NodeID s) actor (du_StakeStartBlock s)
             (du_StakeEndBlock s) (du_StakedAmount s) = Inr em' \<and>
           SubBalance mu actor ids_Empty (du_StakedAmount s) = Inr mu1 \<and>
           SetDelegateUserStake mu1 actor (du_NodeID s) (du_StakeStartBlock s)
             (du_StakeEndBlock s) (du_StakedAmount s) (du_RewardAddress s) = Inr mu') \<and>
        du_StakedAmount s \<le> balances mu (actor, ids_Empty) \<and>
        unat (balances mu' (actor, ids_Empty)) + unat (du_StakedAmount s) =
          unat (balances mu (actor, ids_Empty)) \<and>
        (\<forall>k. k \<noteq> (actor, ids_Empty) \<longrightarrow> balances mu' k = balances mu k) \<and>
        delegatorStakes mu' = (delegatorStakes mu)((actor, du_NodeID s) \<mapsto>
          \<lparr>ds_stakeStartBlock = du_StakeStartBlock s, ds_stakeEndBlock = du_StakeEndBlock s,
           ds_stakedAmount = du_StakedAmount s, ds_rewardAddress = du_RewardAddress s\<rparr>) \<and>
        em_delegators em (actor, du_NodeID s) = None \<and>
        em_delegators em' = (em_delegators em)((actor, du_NodeID s) \<mapsto>
          \<lparr>ed_stakeStartBlock = du_StakeStartBlock s, ed_stakeEndBlock = du_StakeEndBlock s,
           ed_stakedAmount = du_StakedAmount s\<rparr>) \<and>
        r = returnTrue DelegateUserStakeComputeUnits OutputNil) \<and>
     (length (du_NodeID s) \<noteq> NodeIDLen \<longrightarrow>
        r = returnFalse DelegateUserStakeComputeUnits OutputInvalidNodeID \<and>
        mu' = mu \<and> em' = em) \<and>
     (length (du_NodeID s) = NodeIDLen \<and> validatorStakes mu (du_NodeID s) = None \<longrightarrow>
        r = returnFalse RegisterValidatorStakeComputeUnits OutputValidatorNotYetRegistered \<and>
        mu' = mu \<and> em' = em) \<and>
     (length (du_NodeID s) = NodeIDLen \<and> validatorStakes mu (du_NodeID s) \<noteq> None \<and>
      \<not> readFails mu (RegisterValidatorStakeKey (du_NodeID s)) \<and>
      delegatorStakes mu (actor, du_NodeID s) \<noteq> None \<and>
      \<not> readFails mu (DelegateUserStakeKey actor (du_NodeID s)) \<longrightarrow>
        r = returnFalse DelegateUserStakeComputeUnits OutputUserAlreadyStaked \<and>
        mu' = mu \<and> em' = em) \<and>
     (length (du_NodeID s) = NodeIDLen \<and> validatorStakes mu (du_NodeID s) \<noteq> None \<and>
      \<not> readFails mu (RegisterValidatorStakeKey (du_NodeID s)) \<and>
      delegatorStakes mu (actor, du_NodeID s) = None \<and>
      du_StakedAmount s < MinDelegatorStake cfg \<longrightarrow>
        r = returnFalse DelegateUserStakeComputeUnits OutputDelegateStakedAmountInvalid \<and>
        mu' = mu \<and> em' = em) \<and>
     (length (du_NodeID s) = NodeIDLen \<and> validatorStakes mu (du_NodeID s) \<noteq> None \<and>
      \<not> readFails mu (RegisterValidatorStakeKey (du_NodeID s)) \<and>
      delegatorStakes mu (actor, du_NodeID s) = None \<and>
      MinDelegatorStake cfg \<le> du_StakedAmount s \<and>
      du_StakeEndBlock s \<le> du_StakeStartBlock s \<longrightarrow>
        r = returnFalse DelegateUserStakeComputeUnits OutputInvalidStakeEndBlock \<and>
        mu' = mu \<and> em' = em) \<and>
     (length (du_NodeID s) = NodeIDLen \<and> validatorStakes mu (du_NodeID s) \<noteq> None \<and>
      \<not> readFails mu (RegisterValidatorStakeKey (du_NodeID s)) \<and>
      delegatorStakes mu (actor, du_NodeID s) = None \<and>
      MinDelegatorStake cfg \<le> du_StakedAmount s \<and>
      du_StakeStartBlock s < du_StakeEndBlock s \<and>
      du_StakeStartBlock s < GetLastAcceptedBlockHeight em \<longrightarrow>
        r = returnFalse DelegateUserStakeComputeUnits OutputInvalidStakeStartBlock \<and>
        mu' = mu \<and> em' = em)"
proof (intro conjI impI)
  assume ok: "success r"
  from DelegateUserStake_success_steps [OF ex ok]
  obtain mu1 where
    c0: "length (du_NodeID s) = NodeIDLen"
    and c1: "fst (GetRegisterValidatorStake mu (du_NodeID s))"
    and c2: "\<not> fst (GetDelegateUserStake mu actor (du_NodeID s))"
    and c3: "\<not> du_StakedAmount s < MinDelegatorStake cfg"
    and c4: "\<not> du_StakeEndBlock s \<le> du_StakeStartBlock s"
    and c5: "\<not> du_StakeStartBlock s < GetLastAcceptedBlockHeight em"
    and c6: "Emission_DelegateUserStake em (du_NodeID s) actor (du_StakeStartBlock s)
             (du_StakeEndBlock s) (du_StakedAmount s) = Inr em'"
    and c7: "SubBalance mu actor ids_Empty (du_StakedAmount s) = Inr mu1"
    and c8: "SetDelegateUserStake mu1 actor (du_NodeID s) (du_StakeStartBlock s)
             (du_StakeEndBlock s) (du_StakedAmount s) (du_RewardAddress s) = Inr mu'"
    by blast
  note e = DelegateUserStake_success_effects [OF ex ok]
  show "length (du_NodeID s) = NodeIDLen" by (rule c0)
  show "validatorStakes mu (du_NodeID s) \<noteq> None"
    using c1 by (simp add: GetRegisterValidatorStake_exists)
  show "\<not> readFails mu (RegisterValidatorStakeKey (du_NodeID s))"
    using c1 by (simp add: GetRegisterValidatorStake_exists)
  show "delegatorStakes mu (actor, du_NodeID s) = None"
    if "\<not> readFails mu (DelegateUserStakeKey actor (du_NodeID s))"
    using c2 that by (simp add: GetDelegateUserStake_exists)
  show "MinDelegatorStake cfg \<le> du_StakedAmount s" using c3 by simp
  show "du_StakeStartBlock s < du_StakeEndBlock s" using c4 by simp
  show "GetLastAcceptedBlockHeight em \<le> du_StakeStartBlock s" using c5 by simp
  show "\<exists>mu1.
           Emission_DelegateUserStake em (du_NodeID s) actor (du_StakeStartBlock s)
             (du_StakeEndBlock s) (du_StakedAmount s) = Inr em' \<and>
           SubBalance mu actor ids_Empty (du_StakedAmount s) = Inr mu1 \<and>
           SetDelegateUserStake mu1 actor (du_NodeID s) (du_StakeStartBlock s)
             (du_StakeEndBlock s) (du_StakedAmount s) (du_RewardAddress s) = Inr mu'"
    using c6 c7 c8 by (intro exI [of _ mu1] conjI)
  show "du_StakedAmount s \<le> balances mu (actor, ids_Empty)" using e by simp
  show "unat (balances mu' (actor, ids_Empty)) + unat (du_StakedAmount s) =
      unat (balances mu (actor, ids_Empty))" using e by simp
  show "\<forall>k. k \<noteq> (actor, ids_Empty) \<longrightarrow> balances mu' k = balances mu k" using e by simp
  show "delegatorStakes mu' = (delegatorStakes mu)((actor, du_NodeID s) \<mapsto>
      \<lparr>ds_stakeStartBlock = du_StakeStartBlock s, ds_stakeEndBlock = du_StakeEndBlock s,
       ds_stakedAmount = du_StakedAmount s, ds_rewardAddress = du_RewardAddress s\<rparr>)"
    using e by simp
  show "em_delegators em (actor, du_NodeID s) = None" using e by simp
  show "em_delegators em' = (em_delegators em)((actor, du_NodeID s) \<mapsto>
      \<lparr>ed_stakeStartBlock = du_StakeStartBlock s, ed_stakeEndBlock = du_StakeEndBlock s,
       ed_stakedAmount = du_StakedAmount s\<rparr>)"
    using e by simp
  show "r = returnTrue DelegateUserStakeComputeUnits OutputNil" using e by simp
next
  assume "length (du_NodeID s) \<noteq> NodeIDLen"
  with DelegateUserStake_invalid_node_id [of s cfg actor mu em] ex
  have "(r, mu', em') =
      (returnFalse DelegateUserStakeComputeUnits OutputInvalidNodeID, mu, em)"
    by simp
  then show "r = returnFalse DelegateUserStakeComputeUnits OutputInvalidNodeID"
    and "mu' = mu" and "em' = em" by simp_all
next
  assume a: "length (du_NodeID s) = NodeIDLen \<and> validatorStakes mu (du_NodeID s) = None"
  then have nid: "length (du_NodeID s) = NodeIDLen"
    and "\<not> fst (GetRegisterValidatorStake mu (du_NodeID s))"
    by (simp_all add: GetRegisterValidatorStake_exists)
  with DelegateUserStake_rejections(1) [OF nid, of mu cfg actor em] ex
  have "(r, mu', em') =
      (returnFalse RegisterValidatorStakeComputeUnits OutputValidatorNotYetRegistered, mu, em)"
    by simp
  then show "r = returnFalse RegisterValidatorStakeComputeUnits OutputValidatorNotYetRegistered"
    and "mu' = mu" and "em' = em" by simp_all
next
  assume a: "length (du_NodeID s) = NodeIDLen \<and> validatorStakes mu (du_NodeID s) \<noteq> None \<and>
      \<not> readFails mu (RegisterValidatorStakeKey (du_NodeID s)) \<and>
      delegatorStakes mu (actor, du_NodeID s) \<noteq> None \<and>
      \<not> readFails mu (DelegateUserStakeKey actor (du_NodeID s))"
  then have nid: "length (du_NodeID s) = NodeIDLen"
    and "fst (GetRegisterValidatorStake mu (du_NodeID s))"
    and "fst (GetDelegateUserStake mu actor (du_NodeID s))"
    by (simp_all add: GetRegisterValidatorStake_exists GetDelegateUserStake_exists)
  with DelegateUserStake_rejections(2) [OF nid, of mu actor cfg em] ex
  have "(r, mu', em') =
      (returnFalse DelegateUserStakeComputeUnits OutputUserAlreadyStaked, mu, em)"
    by simp
  then show "r = returnFalse DelegateUserStakeComputeUnits OutputUserAlreadyStaked"
    and "mu' = mu" and "em' = em" by simp_all
next
  assume a: "length (du_NodeID s) = NodeIDLen \<and> validatorStakes mu (du_NodeID s) \<noteq> None \<and>
      \<not> readFails mu (RegisterValidatorStakeKey (du_NodeID s)) \<and>
      delegatorStakes mu (actor, du_NodeID s) = None \<and>
      du_StakedAmount s < MinDelegatorStake cfg"
  then have nid: "length (du_NodeID s) = NodeIDLen"
    and "fst (GetRegisterValidatorStake mu (du_NodeID s))"
    and "\<not> fst (GetDelegateUserStake mu actor (du_NodeID s))"
    and "du_StakedAmount s < MinDelegatorStake cfg"
    by (simp_all add: GetRegisterValidatorStake_exists GetDelegateUserStake_exists)
  with DelegateUserStake_rejections(3) [OF nid, of mu actor cfg em] ex
  have "(r, mu', em') =
      (returnFalse DelegateUserStakeComputeUnits OutputDelegateStakedAmountInvalid, mu, em)"
    by simp
  then show "r = returnFalse DelegateUserStakeComputeUnits OutputDelegateStakedAmountInvalid"
    and "mu' = mu" and "em' = em" by simp_all
next
  assume a: "length (du_NodeID s) = NodeIDLen \<and> validatorStakes mu (du_NodeID s) \<noteq> None \<and>
      \<not> readFails mu (RegisterValidatorStakeKey (du_NodeID s)) \<and>
      delegatorStakes mu (actor, du_NodeID s) = None \<and>
      MinDelegatorStake cfg \<le> du_StakedAmount s \<and>
      du_StakeEndBlock s \<le> du_StakeStartBlock s"
  then have nid: "length (du_NodeID s) = NodeIDLen"
    and "fst (GetRegisterValidatorStake mu (du_NodeID s))"
    and "\<not> fst (GetDelegateUserStake mu actor (du_NodeID s))"
    and "MinDelegatorStake cfg \<le> du_StakedAmount s"
    and "du_StakeEndBlock s \<le> du_StakeStartBlock s"
    by (simp_all add: GetRegisterValidatorStake_exists GetDelegateUserStake_exists)
  with DelegateUserStake_rejections(4) [OF nid, of mu actor cfg em] ex
  have "(r, mu', em') =
      (returnFalse DelegateUserStakeComputeUnits OutputInvalidStakeEndBlock, mu, em)"
    by simp
  then show "r = returnFalse DelegateUserStakeComputeUnits OutputInvalidStakeEndBlock"
    and "mu' = mu" and "em' = em" by simp_all
next
  assume a: "length (du_NodeID s) = NodeIDLen \<and> validatorStakes mu (du_NodeID s) \<noteq> None \<and>
      \<not> readFails mu (RegisterValidatorStakeKey (du_NodeID s)) \<and>
      delegatorStakes mu (actor, du_NodeID s) = None \<and>
      MinDelegatorStake cfg \<le> du_StakedAmount s \<and>
      du_StakeStartBlock s < du_StakeEndBlock s \<and>
      du_StakeStartBlock s < GetLastAcceptedBlockHeight em"
  then have nid: "length (du_NodeID s) = NodeIDLen"
    and "fst (GetRegisterValidatorStake mu (du_NodeID s))"
    and "\<not> fst (GetDelegateUserStake mu actor (du_NodeID s))"
    and "MinDelegatorStake cfg \<le> du_StakedAmount s"
    and "du_StakeStartBlock s < du_StakeEndBlock s"
    and "du_StakeStartBlock s < GetLastAcceptedBlockHeight em"
    by (simp_all add: GetRegisterValidatorStake_exists GetDelegateUserStake_exists)
  with DelegateUserStake_rejections(5) [OF nid, of mu actor cfg em] ex
  have "(r, mu', em') =
      (returnFalse DelegateUserStakeComputeUnits OutputInvalidStakeStartBlock, mu, em)"
    by simp
  then show "r = returnFalse DelegateUserStakeComputeUnits OutputInvalidStakeStartBlock"
    and "mu' = mu" and "em' = em" by simp_all
qed

theorem DelegateUserStake_checks_and_effects_witness:
  "success (fst (DelegateUserStake_Execute config100 (delegate_with 100 200 500) (addr_of 3)
      (ledger_with_validator, engine_with_validator))) \<and>
   unat (balances (fst (snd (DelegateUserStake_Execute config100 (delegate_with 100 200 500)
      (addr_of 3) (ledger_with_validator, engine_with_validator)))) (addr_of 3, ids_Empty)) = 500 \<and>
   delegatorStakes (fst (snd (DelegateUserStake_Execute config100 (delegate_with 100 200 500)
      (addr_of 3) (ledger_with_validator, engine_with_validator)))) (addr_of 3, node_of 7) =
     Some \<lparr>ds_stakeStartBlock = 100, ds_stakeEndBlock = 200, ds_stakedAmount = 500,
       ds_rewardAddress = addr_of 5\<rparr> \<and>
   em_delegators (snd (snd (DelegateUserStake_Execute config100 (delegate_with 100 200 500)
      (addr_of 3) (ledger_with_validator, engine_with_validator)))) (addr_of 3, node_of 7) =
     Some \<lparr>ed_stakeStartBlock = 100, ed_stakeEndBlock = 200, ed_stakedAmount = 500\<rparr> \<and>
   fst (DelegateUserStake_Execute config100 delegate_long (addr_of 3)
      (ledger_with_validator, engine_with_validator)) =
     returnFalse DelegateUserStakeComputeUnits OutputInvalidNodeID \<and>
   fst (DelegateUserStake_Execute config100 (delegate_with 100 200 500) (addr_of 3)
      (empty_ledger, empty_engine)) =
     returnFalse RegisterValidatorStakeComputeUnits OutputValidatorNotYetRegistered \<and>
   fst (DelegateUserStake_Execute config100 (delegate_with 100 200 500) (addr_of 3)
      (ledger_with_delegation, engine_with_validator)) =
     returnFalse DelegateUserStakeComputeUnits OutputUserAlreadyStaked \<and>
   fst (DelegateUserStake_Execute config100 (delegate_with 100 200 50) (addr_of 3)
      (ledger_with_validator, engine_with_validator)) =
     returnFalse DelegateUserStakeComputeUnits OutputDelegateStakedAmountInvalid \<and>
   fst (DelegateUserStake_Execute config100 (delegate_with 200 200 500) (addr_of 3)
      (ledger_with_validator, engine_with_validator)) =
     returnFalse DelegateUserStakeComputeUnits OutputInvalidStakeEndBlock \<and>
   fst (DelegateUserStake_Execute config100 (delegate_with 10 200 500) (addr_of 3)
      (ledger_with_validator, engine_with_validator)) =
     returnFalse DelegateUserStakeComputeUnits OutputInvalidStakeStartBlock"
proof -
  have nid: "length (du_NodeID (delegate_with a b c)) = NodeIDLen" for a b c
    by (simp add: delegate_with_def)
  have split: "x = (fst x, fst (snd x), snd (snd x))" for x :: "result \<times> mutable \<times> emission"
    by simp
  have reg: "validatorStakes ledger_with_validator (du_NodeID (delegate_with a b c)) \<noteq> None"
    "\<not> readFails ledger_with_validator
        (RegisterValidatorStakeKey (du_NodeID (delegate_with a b c)))"
    "validatorStakes ledger_with_delegation (du_NodeID (delegate_with a b c)) \<noteq> None"
    "\<not> readFails ledger_with_delegation
        (RegisterValidatorStakeKey (du_NodeID (delegate_with a b c)))"
    for a b c
    by (simp_all add: example_defs)
  have nodel: "delegatorStakes ledger_with_validator
      (addr_of 3, du_NodeID (delegate_with a b c)) = None" for a b c
    by (simp add: example_defs)
  let ?ok = "DelegateUserStake_Execute config100 (delegate_with 100 200 500) (addr_of 3)
      (ledger_with_validator, engine_with_validator)"
  have ok: "success (fst ?ok)"
    by (simp add: DelegateUserStake_Execute_def example_defs storage_defs engine_defs
        returnTrue_def)
  have bal: "balances ledger_with_validator (addr_of 3, ids_Empty) = 1000"
    by (simp add: example_defs)
  note eff = DelegateUserStake_checks_and_effects
      [OF split [of ?ok], THEN conjunct1, THEN mp, OF ok]
  from eff have e1: "unat (balances (fst (snd ?ok)) (addr_of 3, ids_Empty)) +
      unat (du_StakedAmount (delegate_with 100 200 500)) =
      unat (balances ledger_with_validator (addr_of 3, ids_Empty))"
    by (elim conjE)
  from eff have e2: "delegatorStakes (fst (snd ?ok)) =
      (delegatorStakes ledger_with_validator)
        ((addr_of 3, du_NodeID (delegate_with 100 200 500)) \<mapsto>
          \<lparr>ds_stakeStartBlock = du_StakeStartBlock (delegate_with 100 200 500),
           ds_stakeEndBlock = du_StakeEndBlock (delegate_with 100 200 500),
           ds_stakedAmount = du_StakedAmount (delegate_with 100 200 500),
           ds_rewardAddress = du_RewardAddress (delegate_with 100 200 500)\<rparr>)"
    by (elim conjE)
  from eff have e3: "em_delegators (snd (snd ?ok)) =
      (em_delegators engine_with_validator)
        ((addr_of 3, du_NodeID (delegate_with 100 200 500)) \<mapsto>
          \<lparr>ed_stakeStartBlock = du_StakeStartBlock (delegate_with 100 200 500),
           ed_stakeEndBlock = du_StakeEndBlock (delegate_with 100 200 500),
           ed_stakedAmount = du_StakedAmount (delegate_with 100 200 500)\<rparr>)"
    by (elim conjE)
  have c1: "unat (balances (fst (snd ?ok)) (addr_of 3, ids_Empty)) = 500 \<and>
      delegatorStakes (fst (snd ?ok)) (addr_of 3, node_of 7) =
        Some \<lparr>ds_stakeStartBlock = 100, ds_stakeEndBlock = 200, ds_stakedAmount = 500,
          ds_rewardAddress = addr_of 5\<rparr> \<and>
      em_delegators (snd (snd ?ok)) (addr_of 3, node_of 7) =
        Some \<lparr>ed_stakeStartBlock = 100, ed_stakeEndBlock = 200, ed_stakedAmount = 500\<rparr>"
    using e1 bal unfolding e2 e3 by (simp add: delegate_with_def)
  let ?l = "DelegateUserStake_Execute config100 delegate_long (addr_of 3)
      (ledger_with_validator, engine_with_validator)"
  have long: "length (du_NodeID delegate_long) \<noteq> NodeIDLen"
    by (simp add: delegate_long_def NodeIDLen_def)
  note rej = DelegateUserStake_checks_and_effects [THEN conjunct2]
  from rej [OF split [of ?l], THEN conjunct1] long
  have c0: "fst ?l = returnFalse DelegateUserStakeComputeUnits OutputInvalidNodeID"
    by simp
  let ?a = "DelegateUserStake_Execute config100 (delegate_with 100 200 500) (addr_of 3)
      (empty_ledger, empty_engine)"
  have noreg: "validatorStakes empty_ledger (du_NodeID (delegate_with 100 200 500)) = None"
    by (simp add: example_defs)
  from rej [OF split [of ?a], THEN conjunct2, THEN conjunct1] nid noreg
  have c2: "fst ?a =
      returnFalse RegisterValidatorStakeComputeUnits OutputValidatorNotYetRegistered"
    by simp
  let ?b = "DelegateUserStake_Execute config100 (delegate_with 100 200 500) (addr_of 3)
      (ledger_with_delegation, engine_with_validator)"
  have del: "delegatorStakes ledger_with_delegation
      (addr_of 3, du_NodeID (delegate_with 100 200 500)) \<noteq> None"
    "\<not> readFails ledger_with_delegation
      (DelegateUserStakeKey (addr_of 3) (du_NodeID (delegate_with 100 200 500)))"
    by (simp_all add: example_defs)
  from rej [OF split [of ?b], THEN conjunct2, THEN conjunct2, THEN conjunct1] nid reg del
  have c3: "fst ?b = returnFalse DelegateUserStakeComputeUnits OutputUserAlreadyStaked"
    by simp
  let ?c = "DelegateUserStake_Execute config100 (delegate_with 100 200 50) (addr_of 3)
      (ledger_with_validator, engine_with_validator)"
  from rej [OF split [of ?c], THEN conjunct2, THEN conjunct2, THEN conjunct2, THEN conjunct1]
    nid reg nodel
  have c4: "fst ?c =
      returnFalse DelegateUserStakeComputeUnits OutputDelegateStakedAmountInvalid"
    by (simp add: delegate_with_def config100_def)
  let ?d = "DelegateUserStake_Execute config100 (delegate_with 200 200 500) (addr_of 3)
      (ledger_with_validator, engine_with_validator)"
  from rej [OF split [of ?d], THEN conjunct2, THEN conjunct2, THEN conjunct2, THEN conjunct2,
      THEN conjunct1] nid reg nodel
  have c5: "fst ?d = returnFalse DelegateUserStakeComputeUnits OutputInvalidStakeEndBlock"
    by (simp add: delegate_with_def config100_def)
  let ?e = "DelegateUserStake_Execute config100 (delegate_with 10 200 500) (addr_of 3)
      (ledger_with_validator, engine_with_validator)"
  from rej [OF split [of ?e], THEN conjunct2, THEN conjunct2, THEN conjunct2, THEN conjunct2,
      THEN conjunct2] nid reg nodel
  have c6: "fst ?e = returnFalse DelegateUserStakeComputeUnits OutputInvalidStakeStartBlock"
    by (simp add: delegate_with_def config100_def engine_defs engine_with_validator_def
        empty_engine_def)
  from ok c1 c0 c2 c3 c4 c5 c6 show ?thesis by simp
qed

text \<open>
  The claim as stated fails at two inputs. Where the ledger holds a delegation record
  of the actor for the validator and the read of it fails, \<^verbatim>\<open>Execute\<close>, which keeps only
  \<^verbatim>\<open>exists\<close> of that read (line 74), succeeds. And with a node id of 21 bytes and no
  validator registered under it, the payload is \<^verbatim>\<open>OutputInvalidNodeID\<close>, not the one of
  the validator check.
\<close>

theorem DelegateUserStake_existing_delegation_counterexample:
  "delegatorStakes ledger_delegation_unreadable (addr_of 3, node_of 7) =
     Some \<lparr>ds_stakeStartBlock = 100, ds_stakeEndBlock = 200, ds_stakedAmount = 500,
       ds_rewardAddress = addr_of 5\<rparr> \<and>
   success (fst (DelegateUserStake_Execute config100 (delegate_with 100 200 500) (addr_of 3)
      (ledger_delegation_unreadable, engine_with_validator))) \<and>
   validatorStakes empty_ledger (du_NodeID delegate_long) = None \<and>
   fst (DelegateUserStake_Execute config100 delegate_long (addr_of 3)
      (empty_ledger, empty_engine)) =
     returnFalse DelegateUserStakeComputeUnits OutputInvalidNodeID \<and>
   OutputInvalidNodeID \<noteq> OutputValidatorNotYetRegistered"
  by (simp add: DelegateUserStake_Execute_def ToNodeID_def NodeIDLen_def
      ledger_delegation_unreadable_def example_defs storage_defs engine_defs
      returnTrue_def returnFalse_def)

section \<open>Storage failures and the error position\<close>

lemma UnstakeValidator_error_nil:
  "fatalError (fst (UnstakeValidator_Execute u actor w)) = None"
  by (simp add: UnstakeValidator_Execute_def returnFalse_def returnTrue_def
      split: prod.splits option.splits)

lemma WithdrawValidatorStake_error_nil:
  "fatalError (fst (WithdrawValidatorStake_Execute now u actor w)) = None"
  by (simp add: WithdrawValidatorStake_Execute_def returnFalse_def returnTrue_def Let_def
      split: prod.splits option.splits sum.splits)

lemma DelegateUserStake_error_nil:
  "fatalError (fst (DelegateUserStake_Execute cfg s actor w)) = None"
  by (simp add: DelegateUserStake_Execute_def returnFalse_def returnTrue_def Let_def
      split: prod.splits option.splits sum.splits)

lemma UnstakeValidator_read_failure:
  assumes "GetStake mu (uv_Stake u) = (found, st, Some e)"
  shows "fst (UnstakeValidator_Execute u actor (mu, em)) =
           returnFalse UnstakeValidatorComputeUnits (ErrBytes e)"
  using assms by (simp add: UnstakeValidator_Execute_def)

lemma WithdrawValidatorStake_write_failures:
  assumes "ToNodeID (wv_NodeID wv) = Inr n"
    and "GetRegisterValidatorStake mu n = (True, v, d)"
    and "vs_ownerAddress v = actor"
    and "\<not> now < time_Unix (int64 (vs_stakeEndBlock v))"
    and "\<not> GetLastAcceptedBlockTimestamp em < time_Unix (int64 (vs_stakeEndBlock v))"
    and "Emission_WithdrawValidatorStake em n = Inr (reward, em1)"
  shows "AddBalance mu (vs_rewardAddress v) ids_Empty reward = Inl e \<Longrightarrow>
           fst (WithdrawValidatorStake_Execute now wv actor (mu, em)) =
             returnFalse WithdrawValidatorStakeComputeUnits (ErrBytes e)"
    and "AddBalance mu (vs_rewardAddress v) ids_Empty reward = Inr mu1 \<Longrightarrow>
         DeleteRegisterValidatorStake mu1 n = Inl e \<Longrightarrow>
           fst (WithdrawValidatorStake_Execute now wv actor (mu, em)) =
             returnFalse WithdrawValidatorStakeComputeUnits (ErrBytes e)"
    and "AddBalance mu (vs_rewardAddress v) ids_Empty reward = Inr mu1 \<Longrightarrow>
         DeleteRegisterValidatorStake mu1 n = Inr mu2 \<Longrightarrow>
         AddBalance mu2 actor ids_Empty (vs_stakedAmount v) = Inl e \<Longrightarrow>
           fst (WithdrawValidatorStake_Execute now wv actor (mu, em)) =
             returnFalse WithdrawValidatorStakeComputeUnits (ErrBytes e)"
  using assms by (simp_all add: WithdrawValidatorStake_Execute_def Let_def)

lemma DelegateUserStake_write_failures:
  assumes "ToNodeID (du_NodeID s) = Inr m"
    and "fst (GetRegisterValidatorStake mu m)"
    and "\<not> fst (GetDelegateUserStake mu actor m)"
    and "MinDelegatorStake cfg \<le> du_StakedAmount s"
    and "du_StakeStartBlock s < du_StakeEndBlock s"
    and "GetLastAcceptedBlockHeight em \<le> du_StakeStartBlock s"
    and "Emission_DelegateUserStake em m actor (du_StakeStartBlock s) (du_StakeEndBlock s)
           (du_StakedAmount s) = Inr em2"
  shows "SubBalance mu actor ids_Empty (du_StakedAmount s) = Inl e \<Longrightarrow>
           fst (DelegateUserStake_Execute cfg s actor (mu, em)) =
             returnFalse DelegateUserStakeComputeUnits (ErrBytes e)"
    and "SubBalance mu actor ids_Empty (du_StakedAmount s) = Inr mu3 \<Longrightarrow>
         SetDelegateUserStake mu3 actor m (du_StakeStartBlock s) (du_StakeEndBlock s)
           (du_StakedAmount s) (du_RewardAddress s) = Inl e \<Longrightarrow>
           fst (DelegateUserStake_Execute cfg s actor (mu, em)) =
             returnFalse DelegateUserStakeComputeUnits (ErrBytes e)"
  using assms by (simp_all add: DelegateUserStake_Execute_def)

text \<open>
  Claim C5, as the code has it. The error position of \<^verbatim>\<open>Execute\<close> is nil on every path of
  the three actions: no storage failure comes back as an error. Where \<^verbatim>\<open>Execute\<close> checks
  the error of a storage call, a failure of the call is returned as \<^verbatim>\<open>success = false\<close>
  with the error's text as output (\<^verbatim>\<open>utils.ErrBytes\<close>): the read of the stake record in
  \<^verbatim>\<open>UnstakeValidator.Execute\<close> (line 57), the three writes of
  \<^verbatim>\<open>WithdrawValidatorStake.Execute\<close> (lines 94-102) and the two writes of
  \<^verbatim>\<open>DelegateUserStake.Execute\<close> (lines 105-110), each on the path that reaches it.
\<close>

theorem storage_failure_returned_as_output:
  "fatalError (fst (UnstakeValidator_Execute u actor (mu, em))) = None \<and>
   fatalError (fst (WithdrawValidatorStake_Execute now wv actor (mu, em))) = None \<and>
   fatalError (fst (DelegateUserStake_Execute cfg s actor (mu, em))) = None \<and>
   (GetStake mu (uv_Stake u) = (found, st, Some e) \<longrightarrow>
      fst (UnstakeValidator_Execute u actor (mu, em)) =
        returnFalse UnstakeValidatorComputeUnits (ErrBytes e)) \<and>
   (ToNodeID (wv_NodeID wv) = Inr n \<and>
    GetRegisterValidatorStake mu n = (True, v, d) \<and>
    vs_ownerAddress v = actor \<and>
    \<not> now < time_Unix (int64 (vs_stakeEndBlock v)) \<and>
    \<not> GetLastAcceptedBlockTimestamp em < time_Unix (int64 (vs_stakeEndBlock v)) \<and>
    Emission_WithdrawValidatorStake em n = Inr (reward, em1) \<longrightarrow>
      (AddBalance mu (vs_rewardAddress v) ids_Empty reward = Inl e \<longrightarrow>
         fst (WithdrawValidatorStake_Execute now wv actor (mu, em)) =
           returnFalse WithdrawValidatorStakeComputeUnits (ErrBytes e)) \<and>
      (AddBalance mu (vs_rewardAddress v) ids_Empty reward = Inr mu1 \<and>
       DeleteRegisterValidatorStake mu1 n = Inl e \<longrightarrow>
         fst (WithdrawValidatorStake_Execute now wv actor (mu, em)) =
           returnFalse WithdrawValidatorStakeComputeUnits (ErrBytes e)) \<and>
      (AddBalance mu (vs_rewardAddress v) ids_Empty reward = Inr mu1 \<and>
       DeleteRegisterValidatorStake mu1 n = Inr mu2 \<and>
       AddBalance mu2 actor ids_Empty (vs_stakedAmount v) = Inl e \<longrightarrow>
         fst (WithdrawValidatorStake_Execute now wv actor (mu, em)) =
           returnFalse WithdrawValidatorStakeComputeUnits (ErrBytes e))) \<and>
   (ToNodeID (du_NodeID s) = Inr m \<and>
    fst (GetRegisterValidatorStake mu m) \<and>
    \<not> fst (GetDelegateUserStake mu actor m) \<and>
    MinDelegatorStake cfg \<le> du_StakedAmount s \<and>
    du_StakeStartBlock s < du_StakeEndBlock s \<and>
    GetLastAcceptedBlockHeight em \<le> du_StakeStartBlock s \<and>
    Emission_DelegateUserStake em m actor (du_StakeStartBlock s) (du_StakeEndBlock s)
      (du_StakedAmount s) = Inr em2 \<longrightarrow>
      (SubBalance mu actor ids_Empty (du_StakedAmount s) = Inl e \<longrightarrow>
         fst (DelegateUserStake_Execute cfg s actor (mu, em)) =
           returnFalse DelegateUserStakeComputeUnits (ErrBytes e)) \<and>
      (SubBalance mu actor ids_Empty (du_StakedAmount s) = Inr mu3 \<and>
       SetDelegateUserStake mu3 actor m (du_StakeStartBlock s) (du_StakeEndBlock s)
         (du_StakedAmount s) (du_RewardAddress s) = Inl e \<longrightarrow>
         fst (DelegateUserStake_Execute cfg s actor (mu, em)) =
           returnFalse DelegateUserStakeComputeUnits (ErrBytes e)))"
proof (intro conjI impI)
  show "fatalError (fst (UnstakeValidator_Execute u actor (mu, em))) = None"
    by (rule UnstakeValidator_error_nil)
  show "fatalError (fst (WithdrawValidatorStake_Execute now wv actor (mu, em))) = None"
    by (rule WithdrawValidatorStake_error_nil)
  show "fatalError (fst (DelegateUserStake_Execute cfg s actor (mu, em))) = None"
    by (rule DelegateUserStake_error_nil)
next
  assume "GetStake mu (uv_Stake u) = (found, st, Some e)"
  then show "fst (UnstakeValidator_Execute u actor (mu, em)) =
      returnFalse UnstakeValidatorComputeUnits (ErrBytes e)"
    by (rule UnstakeValidator_read_failure)
next
  assume p: "ToNodeID (wv_NodeID wv) = Inr n \<and>
    GetRegisterValidatorStake mu n = (True, v, d) \<and>
    vs_ownerAddress v = actor \<and>
    \<not> now < time_Unix (int64 (vs_stakeEndBlock v)) \<and>
    \<not> GetLastAcceptedBlockTimestamp em < time_Unix (int64 (vs_stakeEndBlock v)) \<and>
    Emission_WithdrawValidatorStake em n = Inr (reward, em1)"
    and f: "AddBalance mu (vs_rewardAddress v) ids_Empty reward = Inl e"
  from p have p1: "ToNodeID (wv_NodeID wv) = Inr n"
    and p2: "GetRegisterValidatorStake mu n = (True, v, d)"
    and p3: "vs_ownerAddress v = actor"
    and p4: "\<not> now < time_Unix (int64 (vs_stakeEndBlock v))"
    and p5: "\<not> GetLastAcceptedBlockTimestamp em < time_Unix (int64 (vs_stakeEndBlock v))"
    and p6: "Emission_WithdrawValidatorStake em n = Inr (reward, em1)"
    by simp_all
  show "fst (WithdrawValidatorStake_Execute now wv actor (mu, em)) =
      returnFalse WithdrawValidatorStakeComputeUnits (ErrBytes e)"
    by (rule WithdrawValidatorStake_write_failures(1) [OF p1 p2 p3 p4 p5 p6 f])
next
  assume p: "ToNodeID (wv_NodeID wv) = Inr n \<and>
    GetRegisterValidatorStake mu n = (True, v, d) \<and>
    vs_ownerAddress v = actor \<and>
    \<not> now < time_Unix (int64 (vs_stakeEndBlock v)) \<and>
    \<not> GetLastAcceptedBlockTimestamp em < time_Unix (int64 (vs_stakeEndBlock v)) \<and>
    Emission_WithdrawValidatorStake em n = Inr (reward, em1)"
    and f: "AddBalance mu (vs_rewardAddress v) ids_Empty reward = Inr mu1 \<and>
       DeleteRegisterValidatorStake mu1 n = Inl e"
  from p have p1: "ToNodeID (wv_NodeID wv) = Inr n"
    and p2: "GetRegisterValidatorStake mu n = (True, v, d)"
    and p3: "vs_ownerAddress v = actor"
    and p4: "\<not> now < time_Unix (int64 (vs_stakeEndBlock v))"
    and p5: "\<not> GetLastAcceptedBlockTimestamp em < time_Unix (int64 (vs_stakeEndBlock v))"
    and p6: "Emission_WithdrawValidatorStake em n = Inr (reward, em1)"
    by simp_all
  from f have f1: "AddBalance mu (vs_rewardAddress v) ids_Empty reward = Inr mu1"
    and f2: "DeleteRegisterValidatorStake mu1 n = Inl e"
    by simp_all
  show "fst (WithdrawValidatorStake_Execute now wv actor (mu, em)) =
      returnFalse WithdrawValidatorStakeComputeUnits (ErrBytes e)"
    by (rule WithdrawValidatorStake_write_failures(2) [OF p1 p2 p3 p4 p5 p6 f1 f2])
next
  assume p: "ToNodeID (wv_NodeID wv) = Inr n \<and>
    GetRegisterValidatorStake mu n = (True, v, d) \<and>
    vs_ownerAddress v = actor \<and>
    \<not> now < time_Unix (int64 (vs_stakeEndBlock v)) \<and>
    \<not> GetLastAcceptedBlockTimestamp em < time_Unix (int64 (vs_stakeEndBlock v)) \<and>
    Emission_WithdrawValidatorStake em n = Inr (reward, em1)"
    and f: "AddBalance mu (vs_rewardAddress v) ids_Empty reward = Inr mu1 \<and>
       DeleteRegisterValidatorStake mu1 n = Inr mu2 \<and>
       AddBalance mu2 actor ids_Empty (vs_stakedAmount v) = Inl e"
  from p have p1: "ToNodeID (wv_NodeID wv) = Inr n"
    and p2: "GetRegisterValidatorStake mu n = (True, v, d)"
    and p3: "vs_ownerAddress v = actor"
    and p4: "\<not> now < time_Unix (int64 (vs_stakeEndBlock v))"
    and p5: "\<not> GetLastAcceptedBlockTimestamp em < time_Unix (int64 (vs_stakeEndBlock v))"
    and p6: "Emission_WithdrawValidatorStake em n = Inr (reward, em1)"
    by simp_all
  from f have f1: "AddBalance mu (vs_rewardAddress v) ids_Empty reward = Inr mu1"
    and f2: "DeleteRegisterValidatorStake mu1 n = Inr mu2"
    and f3: "AddBalance mu2 actor ids_Empty (vs_stakedAmount v) = Inl e"
    by simp_all
  show "fst (WithdrawValidatorStake_Execute now wv actor (mu, em)) =
      returnFalse WithdrawValidatorStakeComputeUnits (ErrBytes e)"
    by (rule WithdrawValidatorStake_write_failures(3) [OF p1 p2 p3 p4 p5 p6 f1 f2 f3])
next
  assume p: "ToNodeID (du_NodeID s) = Inr m \<and>
    fst (GetRegisterValidatorStake mu m) \<and>
    \<not> fst (GetDelegateUserStake mu actor m) \<and>
    MinDelegatorStake cfg \<le> du_StakedAmount s \<and>
    du_StakeStartBlock s < du_StakeEndBlock s \<and>
    GetLastAcceptedBlockHeight em \<le> du_StakeStartBlock s \<and>
    Emission_DelegateUserStake em m actor (du_StakeStartBlock s) (du_StakeEndBlock s)
      (du_StakedAmount s) = Inr em2"
    and f: "SubBalance mu actor ids_Empty (du_StakedAmount s) = Inl e"
  from p have p1: "ToNodeID (du_NodeID s) = Inr m"
    and p2: "fst (GetRegisterValidatorStake mu m)"
    and p3: "\<not> fst (GetDelegateUserStake mu actor m)"
    and p4: "MinDelegatorStake cfg \<le> du_StakedAmount s"
    and p5: "du_StakeStartBlock s < du_StakeEndBlock s"
    and p6: "GetLastAcceptedBlockHeight em \<le> du_StakeStartBlock s"
    and p7: "Emission_DelegateUserStake em m actor (du_StakeStartBlock s) (du_StakeEndBlock s)
      (du_StakedAmount s) = Inr em2"
    by simp_all
  show "fst (DelegateUserStake_Execute cfg s actor (mu, em)) =
      returnFalse DelegateUserStakeComputeUnits (ErrBytes e)"
    by (rule DelegateUserStake_write_failures(1) [OF p1 p2 p3 p4 p5 p6 p7 f])
next
  assume p: "ToNodeID (du_NodeID s) = Inr m \<and>
    fst (GetRegisterValidatorStake mu m) \<and>
    \<not> fst (GetDelegateUserStake mu actor m) \<and>
    MinDelegatorStake cfg \<le> du_StakedAmount s \<and>
    du_StakeStartBlock s < du_StakeEndBlock s \<and>
    GetLastAcceptedBlockHeight em \<le> du_StakeStartBlock s \<and>
    Emission_DelegateUserStake em m actor (du_StakeStartBlock s) (du_StakeEndBlock s)
      (du_StakedAmount s) = Inr em2"
    and f: "SubBalance mu actor ids_Empty (du_StakedAmount s) = Inr mu3 \<and>
       SetDelegateUserStake mu3 actor m (du_StakeStartBlock s) (du_StakeEndBlock s)
         (du_StakedAmount s) (du_RewardAddress s) = Inl e"
  from p have p1: "ToNodeID (du_NodeID s) = Inr m"
    and p2: "fst (GetRegisterValidatorStake mu m)"
    and p3: "\<not> fst (GetDelegateUserStake mu actor m)"
    and p4: "MinDelegatorStake cfg \<le> du_StakedAmount s"
    and p5: "du_StakeStartBlock s < du_StakeEndBlock s"
    and p6: "GetLastAcceptedBlockHeight em \<le> du_StakeStartBlock s"
    and p7: "Emission_DelegateUserStake em m actor (du_StakeStartBlock s) (du_StakeEndBlock s)
      (du_StakedAmount s) = Inr em2"
    by simp_all
  from f have f1: "SubBalance mu actor ids_Empty (du_StakedAmount s) = Inr mu3"
    and f2: "SetDelegateUserStake mu3 actor m (du_StakeStartBlock s) (du_StakeEndBlock s)
         (du_StakedAmount s) (du_RewardAddress s) = Inl e"
    by simp_all
  show "fst (DelegateUserStake_Execute cfg s actor (mu, em)) =
      returnFalse DelegateUserStakeComputeUnits (ErrBytes e)"
    by (rule DelegateUserStake_write_failures(2) [OF p1 p2 p3 p4 p5 p6 p7 f1 f2])
qed

theorem storage_failure_returned_as_output_witness:
  "fst (UnstakeValidator_Execute unstake1 (addr_of 2) (ledger_unreadable, empty_engine)) =
     returnFalse UnstakeValidatorComputeUnits (ErrBytes ErrStorage) \<and>
   fst (WithdrawValidatorStake_Execute (time_Unix 400) withdraw7 (addr_of 2)
     (ledger_write_fails (BalanceKey (addr_of 4) ids_Empty), engine_with_validator)) =
     returnFalse WithdrawValidatorStakeComputeUnits (ErrBytes ErrStorage) \<and>
   fst (WithdrawValidatorStake_Execute (time_Unix 400) withdraw7 (addr_of 2)
     (ledger_write_fails (RegisterValidatorStakeKey (node_of 7)), engine_with_validator)) =
     returnFalse WithdrawValidatorStakeComputeUnits (ErrBytes ErrStorage) \<and>
   fst (WithdrawValidatorStake_Execute (time_Unix 400) withdraw7 (addr_of 2)
     (ledger_write_fails (BalanceKey (addr_of 2) ids_Empty), engine_with_validator)) =
     returnFalse WithdrawValidatorStakeComputeUnits (ErrBytes ErrStorage) \<and>
   fst (DelegateUserStake_Execute config100 (delegate_with 100 200 500) (addr_of 3)
     (ledger_write_fails (BalanceKey (addr_of 3) ids_Empty), engine_with_validator)) =
     returnFalse DelegateUserStakeComputeUnits (ErrBytes ErrStorage) \<and>
   fst (DelegateUserStake_Execute config100 (delegate_with 100 200 500) (addr_of 3)
     (ledger_write_fails (DelegateUserStakeKey (addr_of 3) (node_of 7)),
      engine_with_validator)) =
     returnFalse DelegateUserStakeComputeUnits (ErrBytes ErrStorage)"
proof -
  note t = storage_failure_returned_as_output
  note unstake = t [THEN conjunct2, THEN conjunct2, THEN conjunct2, THEN conjunct1, THEN mp]
  note withdraw = t [THEN conjunct2, THEN conjunct2, THEN conjunct2, THEN conjunct2,
      THEN conjunct1, THEN mp]
  note delegate = t [THEN conjunct2, THEN conjunct2, THEN conjunct2, THEN conjunct2,
      THEN conjunct2, THEN mp]
  have rd: "GetStake ledger_unreadable (uv_Stake unstake1) = (False, zero_stake, Some ErrStorage)"
    by (simp add: GetStake_def ledger_unreadable_def)
  have c1: "fst (UnstakeValidator_Execute unstake1 (addr_of 2) (ledger_unreadable, empty_engine)) =
     returnFalse UnstakeValidatorComputeUnits (ErrBytes ErrStorage)"
    by (rule unstake [OF rd])
  have path: "ToNodeID (wv_NodeID withdraw7) = Inr (node_of 7) \<and>
      GetRegisterValidatorStake (ledger_write_fails k) (node_of 7) = (True, validator7, None) \<and>
      vs_ownerAddress validator7 = addr_of 2 \<and>
      \<not> time_Unix 400 < time_Unix (int64 (vs_stakeEndBlock validator7)) \<and>
      \<not> GetLastAcceptedBlockTimestamp engine_with_validator
          < time_Unix (int64 (vs_stakeEndBlock validator7)) \<and>
      Emission_WithdrawValidatorStake engine_with_validator (node_of 7) =
        Inr (30, engine_after_withdraw)" for k
    by (simp add: withdraw7_def GetRegisterValidatorStake_def ledger_write_fails_def
        ledger_with_validator_def empty_ledger_def validator7_def time_defs engine_defs
        engine_after_withdraw_def engine_with_validator_def empty_engine_def)
  have w1: "AddBalance (ledger_write_fails (BalanceKey (addr_of 4) ids_Empty))
      (vs_rewardAddress validator7) ids_Empty 30 = Inl ErrStorage"
    by (simp add: storage_defs example_defs)
  have c2: "fst (WithdrawValidatorStake_Execute (time_Unix 400) withdraw7 (addr_of 2)
     (ledger_write_fails (BalanceKey (addr_of 4) ids_Empty), engine_with_validator)) =
     returnFalse WithdrawValidatorStakeComputeUnits (ErrBytes ErrStorage)"
    by (rule withdraw [OF path, THEN conjunct1, THEN mp, OF w1])
  obtain m1 where w2: "AddBalance (ledger_write_fails (RegisterValidatorStakeKey (node_of 7)))
      (vs_rewardAddress validator7) ids_Empty 30 = Inr m1 \<and>
      DeleteRegisterValidatorStake m1 (node_of 7) = Inl ErrStorage"
    by (simp add: storage_defs example_defs)
  have c3: "fst (WithdrawValidatorStake_Execute (time_Unix 400) withdraw7 (addr_of 2)
     (ledger_write_fails (RegisterValidatorStakeKey (node_of 7)), engine_with_validator)) =
     returnFalse WithdrawValidatorStakeComputeUnits (ErrBytes ErrStorage)"
    by (rule withdraw [OF path, THEN conjunct2, THEN conjunct1, THEN mp, OF w2])
  obtain k1 k2 where w3: "AddBalance (ledger_write_fails (BalanceKey (addr_of 2) ids_Empty))
      (vs_rewardAddress validator7) ids_Empty 30 = Inr k1 \<and>
      DeleteRegisterValidatorStake k1 (node_of 7) = Inr k2 \<and>
      AddBalance k2 (addr_of 2) ids_Empty (vs_stakedAmount validator7) = Inl ErrStorage"
    by (simp add: storage_defs example_defs)
  have c4: "fst (WithdrawValidatorStake_Execute (time_Unix 400) withdraw7 (addr_of 2)
     (ledger_write_fails (BalanceKey (addr_of 2) ids_Empty), engine_with_validator)) =
     returnFalse WithdrawValidatorStakeComputeUnits (ErrBytes ErrStorage)"
    by (rule withdraw [OF path, THEN conjunct2, THEN conjunct2, THEN mp, OF w3])
  let ?s = "delegate_with 100 200 500"
  have dpath: "ToNodeID (du_NodeID ?s) = Inr (node_of 7) \<and>
      fst (GetRegisterValidatorStake (ledger_write_fails k) (node_of 7)) \<and>
      \<not> fst (GetDelegateUserStake (ledger_write_fails k) (addr_of 3) (node_of 7)) \<and>
      MinDelegatorStake config100 \<le> du_StakedAmount ?s \<and>
      du_StakeStartBlock ?s < du_StakeEndBlock ?s \<and>
      GetLastAcceptedBlockHeight engine_with_validator \<le> du_StakeStartBlock ?s \<and>
      Emission_DelegateUserStake engine_with_validator (node_of 7) (addr_of 3)
        (du_StakeStartBlock ?s) (du_StakeEndBlock ?s) (du_StakedAmount ?s) =
        Inr (engine_with_validator\<lparr>em_delegators := [(addr_of 3, node_of 7) \<mapsto>
          \<lparr>ed_stakeStartBlock = 100, ed_stakeEndBlock = 200, ed_stakedAmount = 500\<rparr>]\<rparr>)" for k
    by (simp add: delegate_with_def GetRegisterValidatorStake_def GetDelegateUserStake_def
        ledger_write_fails_def ledger_with_validator_def empty_ledger_def config100_def
        engine_defs engine_with_validator_def empty_engine_def)
  have d1: "SubBalance (ledger_write_fails (BalanceKey (addr_of 3) ids_Empty)) (addr_of 3)
      ids_Empty (du_StakedAmount ?s) = Inl ErrStorage"
    by (simp add: storage_defs example_defs)
  have c5: "fst (DelegateUserStake_Execute config100 ?s (addr_of 3)
     (ledger_write_fails (BalanceKey (addr_of 3) ids_Empty), engine_with_validator)) =
     returnFalse DelegateUserStakeComputeUnits (ErrBytes ErrStorage)"
    by (rule delegate [OF dpath, THEN conjunct1, THEN mp, OF d1])
  obtain j1 where d2: "SubBalance (ledger_write_fails (DelegateUserStakeKey (addr_of 3) (node_of 7)))
      (addr_of 3) ids_Empty (du_StakedAmount ?s) = Inr j1 \<and>
      SetDelegateUserStake j1 (addr_of 3) (node_of 7) (du_StakeStartBlock ?s)
        (du_StakeEndBlock ?s) (du_StakedAmount ?s) (du_RewardAddress ?s) = Inl ErrStorage"
    by (simp add: storage_defs example_defs)
  have c6: "fst (DelegateUserStake_Execute config100 ?s (addr_of 3)
     (ledger_write_fails (DelegateUserStakeKey (addr_of 3) (node_of 7)),
      engine_with_validator)) =
     returnFalse DelegateUserStakeComputeUnits (ErrBytes ErrStorage)"
    by (rule delegate [OF dpath, THEN conjunct2, THEN mp, OF d2])
  from c1 c2 c3 c4 c5 c6 show ?thesis by (intro conjI)
qed

text \<open>
  The claim as stated fails where the read of the stake record fails: the failure is in
  the output bytes, with \<^verbatim>\<open>success = false\<close> and a nil error.
\<close>

theorem UnstakeValidator_read_failure_counterexample:
  "readFails ledger_unreadable (StakeKey (id_of 1)) \<and>
   fst (UnstakeValidator_Execute unstake1 (addr_of 2) (ledger_unreadable, empty_engine)) =
   \<lparr>success = False, computeUnits = UnstakeValidatorComputeUnits,
    outputBytes = ErrBytes ErrStorage, warpMessage = None, fatalError = None\<rparr>"
  by (simp add: UnstakeValidator_Execute_def GetStake_def returnFalse_def ledger_unreadable_def
      unstake1_def)

section \<open>Genesis.Load\<close>

lemma Add64_overflow_iff:
  "(- 1 - b < a) \<longleftrightarrow> 2 ^ 64 \<le> unat a + unat (b :: uint64)"
proof -
  have "unat (- 1 - b) = 2 ^ 64 - 1 - unat b"
    by (simp add: unat_sub unsigned_minus_1_eq_mask mask_eq_exp_minus_1)
  moreover have "unat b < 2 ^ 64"
    using unsigned_less [of b, where ?'a = nat] by simp
  ultimately show ?thesis
    by (simp add: word_less_nat_alt) arith
qed

lemma Add64_Inr_iff:
  "Add64 a b = Inr s \<longleftrightarrow> unat a + unat b < 2 ^ 64 \<and> s = a + b"
  by (auto simp add: Add64_def Add64_overflow_iff)

lemma Add64_Inl_iff:
  "(\<exists>e. Add64 a b = Inl e) \<longleftrightarrow> 2 ^ 64 \<le> unat a + unat b"
  by (auto simp add: Add64_def Add64_overflow_iff)

lemma SetBalance_Inr_iff:
  "SetBalance mu a k x = Inr mu' \<longleftrightarrow>
     \<not> writeFails mu (BalanceKey a k) \<and> mu' = mu\<lparr>balances := (balances mu)((a, k) := x)\<rparr>"
  by (auto simp add: SetBalance_def)

lemma loadAllocations_ok_iff:
  "fst (loadAllocations parse hrp allocs acc mu) = None \<longleftrightarrow>
     (\<forall>a \<in> set allocs. \<exists>addr. parse hrp (ca_Address a) = Inr addr \<and>
        \<not> writeFails mu (BalanceKey addr ids_Empty)) \<and>
     unat acc + total_allocated allocs < 2 ^ 64"
proof (induction allocs arbitrary: acc mu)
  case Nil
  show ?case using unsigned_less [of acc, where ?'a = nat] by (simp add: total_allocated_def)
next
  case (Cons a rest)
  show ?case
  proof (cases "parse hrp (ca_Address a)")
    case (Inl e)
    then show ?thesis by simp
  next
    case (Inr addr)
    show ?thesis
    proof (cases "unat acc + unat (ca_Balance a) < 2 ^ 64")
      case False
      then have "Add64 acc (ca_Balance a) = Inl ErrOverflow"
        by (simp add: Add64_def Add64_overflow_iff)
      with Inr False show ?thesis by (simp add: total_allocated_def)
    next
      case True
      then have add: "Add64 acc (ca_Balance a) = Inr (acc + ca_Balance a)"
        by (simp add: Add64_def Add64_overflow_iff)
      have u: "unat (acc + ca_Balance a) = unat acc + unat (ca_Balance a)"
        using True by (simp add: unat_word_ariths)
      show ?thesis
      proof (cases "writeFails mu (BalanceKey addr ids_Empty)")
        case True
        with Inr add show ?thesis by (auto simp add: SetBalance_def)
      next
        case False
        let ?mu1 = "mu\<lparr>balances := (balances mu)((addr, ids_Empty) := ca_Balance a)\<rparr>"
        have "fst (loadAllocations parse hrp (a # rest) acc mu) =
            fst (loadAllocations parse hrp rest (acc + ca_Balance a) ?mu1)"
          using Inr add False by (simp add: SetBalance_def)
        then show ?thesis
          using Cons.IH [of "acc + ca_Balance a" ?mu1] Inr False u
          by (auto simp add: total_allocated_def)
      qed
    qed
  qed
qed

lemma loadAllocations_result:
  assumes "loadAllocations parse hrp allocs acc mu = (None, acc', mu')"
  shows "unat acc' = unat acc + total_allocated allocs \<and>
         balances mu' = seeded_balances parse hrp allocs (balances mu) \<and>
         stakes mu' = stakes mu \<and> validatorStakes mu' = validatorStakes mu \<and>
         delegatorStakes mu' = delegatorStakes mu \<and> assets mu' = assets mu \<and>
         readFails mu' = readFails mu \<and> writeFails mu' = writeFails mu"
  using assms
proof (induction allocs arbitrary: acc mu)
  case Nil
  then show ?case by (simp add: total_allocated_def seeded_balances_def)
next
  case (Cons a rest)
  from Cons.prems obtain addr where p: "parse hrp (ca_Address a) = Inr addr"
    by (cases "parse hrp (ca_Address a)") auto
  from Cons.prems p have add: "Add64 acc (ca_Balance a) = Inr (acc + ca_Balance a)"
    and u: "unat acc + unat (ca_Balance a) < 2 ^ 64"
    by (auto simp add: Add64_def Add64_overflow_iff split: if_splits)
  define mu1 where "mu1 = mu\<lparr>balances := (balances mu)((addr, ids_Empty) := ca_Balance a)\<rparr>"
  from Cons.prems p add have w: "\<not> writeFails mu (BalanceKey addr ids_Empty)"
    and rest: "loadAllocations parse hrp rest (acc + ca_Balance a) mu1 = (None, acc', mu')"
    by (auto simp add: SetBalance_def mu1_def split: if_splits)
  have b1: "balances mu1 = (balances mu)((addr, ids_Empty) := ca_Balance a)"
    and o1: "stakes mu1 = stakes mu" "validatorStakes mu1 = validatorStakes mu"
      "delegatorStakes mu1 = delegatorStakes mu" "assets mu1 = assets mu"
      "readFails mu1 = readFails mu" "writeFails mu1 = writeFails mu"
    by (simp_all add: mu1_def)
  have s: "seeded_balances parse hrp (a # rest) (balances mu) =
      seeded_balances parse hrp rest ((balances mu)((addr, ids_Empty) := ca_Balance a))"
    using p by (simp add: seeded_balances_def)
  have t: "total_allocated (a # rest) = unat (ca_Balance a) + total_allocated rest"
    by (simp add: total_allocated_def)
  have ua: "unat (acc + ca_Balance a) = unat acc + unat (ca_Balance a)"
    using u by (simp add: unat_word_ariths)
  note ih = Cons.IH [OF rest]
  have "unat acc' = unat acc + total_allocated (a # rest)"
    using ih ua t by linarith
  moreover have "balances mu' = seeded_balances parse hrp (a # rest) (balances mu)"
    using ih by (simp only: s b1)
  moreover have "stakes mu' = stakes mu" "validatorStakes mu' = validatorStakes mu"
    "delegatorStakes mu' = delegatorStakes mu" "assets mu' = assets mu"
    "readFails mu' = readFails mu" "writeFails mu' = writeFails mu"
    using ih by (simp_all only: o1)
  ultimately show ?case by blast
qed

lemma seeded_balances_other:
  assumes "\<forall>a \<in> set allocs. parse hrp (ca_Address a) \<noteq> Inr addr"
  shows "seeded_balances parse hrp allocs b (addr, k) = b (addr, k)"
  using assms
  by (induction allocs arbitrary: b) (auto simp add: seeded_balances_def split: sum.splits)

lemma seeded_balances_asset:
  assumes "k \<noteq> ids_Empty"
  shows "seeded_balances parse hrp allocs b (addr, k) = b (addr, k)"
  using assms
  by (induction allocs arbitrary: b) (auto simp add: seeded_balances_def split: sum.splits)

lemma seeded_balances_last:
  assumes "i < length allocs"
    and "parse hrp (ca_Address (allocs ! i)) = Inr addr"
    and "\<forall>j. i < j \<and> j < length allocs \<longrightarrow> parse hrp (ca_Address (allocs ! j)) \<noteq> Inr addr"
  shows "seeded_balances parse hrp allocs b (addr, ids_Empty) = ca_Balance (allocs ! i)"
  using assms
proof (induction allocs arbitrary: b i)
  case Nil
  then show ?case by simp
next
  case (Cons a rest)
  have step: "seeded_balances parse hrp (a # rest) b =
      seeded_balances parse hrp rest
        (case parse hrp (ca_Address a) of Inl e \<Rightarrow> b
         | Inr addr' \<Rightarrow> b((addr', ids_Empty) := ca_Balance a))"
    by (simp add: seeded_balances_def)
  show ?case
  proof (cases i)
    case 0
    with Cons.prems have p: "parse hrp (ca_Address a) = Inr addr" by simp
    have "\<forall>x \<in> set rest. parse hrp (ca_Address x) \<noteq> Inr addr"
    proof
      fix x assume "x \<in> set rest"
      then obtain j where "j < length rest" "rest ! j = x"
        by (auto simp add: in_set_conv_nth)
      with Cons.prems(3) 0 show "parse hrp (ca_Address x) \<noteq> Inr addr"
        by (auto dest: spec [of _ "Suc j"])
    qed
    then have "seeded_balances parse hrp rest (b((addr, ids_Empty) := ca_Balance a))
        (addr, ids_Empty) = (b((addr, ids_Empty) := ca_Balance a)) (addr, ids_Empty)"
      by (rule seeded_balances_other)
    with step p 0 show ?thesis by simp
  next
    case (Suc i')
    with Cons.prems have a: "i' < length rest"
      and b: "parse hrp (ca_Address (rest ! i')) = Inr addr"
      by simp_all
    have c: "\<forall>j. i' < j \<and> j < length rest \<longrightarrow> parse hrp (ca_Address (rest ! j)) \<noteq> Inr addr"
    proof (intro allI impI)
      fix j assume "i' < j \<and> j < length rest"
      with Cons.prems(3) Suc show "parse hrp (ca_Address (rest ! j)) \<noteq> Inr addr"
        by (auto dest: spec [of _ "Suc j"])
    qed
    from Cons.IH [OF a b c] step Suc show ?thesis by simp
  qed
qed

lemma Genesis_Load_error_iff:
  "fst (Genesis_Load parse c g mu) \<noteq> None \<longleftrightarrow>
     BranchFactor_Valid (g_StateBranchFactor g) \<noteq> None \<or>
     (\<exists>a \<in> set (g_CustomAllocation g). isl (parse (HRP c) (ca_Address a))) \<or>
     2 ^ 64 \<le> total_allocated (g_CustomAllocation g) \<or>
     (\<exists>a \<in> set (g_CustomAllocation g). \<exists>addr.
        parse (HRP c) (ca_Address a) = Inr addr \<and> writeFails mu (BalanceKey addr ids_Empty)) \<or>
     writeFails mu (AssetKey ids_Empty)"
proof (cases "BranchFactor_Valid (g_StateBranchFactor g)")
  case (Some e)
  then show ?thesis by (simp add: Genesis_Load_def)
next
  case None
  obtain e1 acc mu1 where l: "loadAllocations parse (HRP c) (g_CustomAllocation g) 0 mu =
      (e1, acc, mu1)"
    by (metis prod_cases3)
  have ok: "e1 = None \<longleftrightarrow>
     (\<forall>a \<in> set (g_CustomAllocation g). \<exists>addr. parse (HRP c) (ca_Address a) = Inr addr \<and>
        \<not> writeFails mu (BalanceKey addr ids_Empty)) \<and>
     total_allocated (g_CustomAllocation g) < 2 ^ 64"
    using loadAllocations_ok_iff [of parse "HRP c" "g_CustomAllocation g" 0 mu] l by simp
  show ?thesis
  proof (cases e1)
    case (Some e)
    then have "fst (Genesis_Load parse c g mu) \<noteq> None"
      using None l by (simp add: Genesis_Load_def)
    moreover have "(\<exists>a \<in> set (g_CustomAllocation g). isl (parse (HRP c) (ca_Address a))) \<or>
        2 ^ 64 \<le> total_allocated (g_CustomAllocation g) \<or>
        (\<exists>a \<in> set (g_CustomAllocation g). \<exists>addr.
          parse (HRP c) (ca_Address a) = Inr addr \<and> writeFails mu (BalanceKey addr ids_Empty))"
    proof (rule ccontr)
      assume neg: "\<not> ?thesis"
      have "\<forall>a \<in> set (g_CustomAllocation g). \<exists>addr. parse (HRP c) (ca_Address a) = Inr addr \<and>
          \<not> writeFails mu (BalanceKey addr ids_Empty)"
      proof
        fix a assume a: "a \<in> set (g_CustomAllocation g)"
        with neg have "\<not> isl (parse (HRP c) (ca_Address a))" by blast
        then obtain addr where p: "parse (HRP c) (ca_Address a) = Inr addr"
          by (cases "parse (HRP c) (ca_Address a)") auto
        with neg a have "\<not> writeFails mu (BalanceKey addr ids_Empty)" by blast
        with p show "\<exists>addr. parse (HRP c) (ca_Address a) = Inr addr \<and>
            \<not> writeFails mu (BalanceKey addr ids_Empty)" by blast
      qed
      moreover from neg have "total_allocated (g_CustomAllocation g) < 2 ^ 64" by simp
      ultimately have "e1 = None" using ok by blast
      with Some show False by simp
    qed
    ultimately show ?thesis by blast
  next
    case e1: None
    from loadAllocations_result [of parse "HRP c" "g_CustomAllocation g" 0 mu acc mu1] l e1
    have wf: "writeFails mu1 = writeFails mu" by simp
    have "fst (Genesis_Load parse c g mu) \<noteq> None \<longleftrightarrow> writeFails mu (AssetKey ids_Empty)"
      using None l e1 wf by (simp add: Genesis_Load_def SetAsset_def)
    moreover from ok e1 have "\<not> (\<exists>a \<in> set (g_CustomAllocation g). isl (parse (HRP c) (ca_Address a)))"
      "\<not> 2 ^ 64 \<le> total_allocated (g_CustomAllocation g)"
      "\<not> (\<exists>a \<in> set (g_CustomAllocation g). \<exists>addr.
          parse (HRP c) (ca_Address a) = Inr addr \<and> writeFails mu (BalanceKey addr ids_Empty))"
      by (auto simp add: not_le)
    ultimately show ?thesis using None by blast
  qed
qed

lemma Genesis_Load_success:
  assumes "Genesis_Load parse c g mu = (None, mu')"
  shows "balances mu' = seeded_balances parse (HRP c) (g_CustomAllocation g) (balances mu) \<and>
         (\<exists>supply. unat supply = total_allocated (g_CustomAllocation g) \<and>
            assets mu' = (assets mu)(ids_Empty \<mapsto>
              \<lparr>as_symbol = Symbol c, as_decimals = Decimals c, as_metadata = Name c,
               as_supply = supply, as_owner = EmptyAddress, as_warp = False\<rparr>)) \<and>
         stakes mu' = stakes mu \<and> validatorStakes mu' = validatorStakes mu \<and>
         delegatorStakes mu' = delegatorStakes mu"
proof -
  obtain e1 acc mu1 where l: "loadAllocations parse (HRP c) (g_CustomAllocation g) 0 mu =
      (e1, acc, mu1)"
    by (metis prod_cases3)
  from assms l have bf: "BranchFactor_Valid (g_StateBranchFactor g) = None" and e1: "e1 = None"
    by (auto simp add: Genesis_Load_def split: option.splits sum.splits)
  from assms l bf e1 have set: "SetAsset mu1 ids_Empty (Symbol c) (Decimals c) (Name c) acc
      EmptyAddress False = Inr mu'"
    by (auto simp add: Genesis_Load_def split: option.splits sum.splits)
  then have mu': "mu' = mu1\<lparr>assets := (assets mu1)(ids_Empty \<mapsto>
      \<lparr>as_symbol = Symbol c, as_decimals = Decimals c, as_metadata = Name c,
       as_supply = acc, as_owner = EmptyAddress, as_warp = False\<rparr>)\<rparr>"
    by (auto simp add: SetAsset_def split: if_splits)
  note r = loadAllocations_result [of parse "HRP c" "g_CustomAllocation g" 0 mu acc mu1]
  from r l e1 have acc: "unat acc = total_allocated (g_CustomAllocation g)" by simp
  from r l e1 have f: "balances mu1 = seeded_balances parse (HRP c) (g_CustomAllocation g) (balances mu)"
    "stakes mu1 = stakes mu" "validatorStakes mu1 = validatorStakes mu"
    "delegatorStakes mu1 = delegatorStakes mu" "assets mu1 = assets mu"
    by simp_all
  have "balances mu' = balances mu1" "stakes mu' = stakes mu1"
    "validatorStakes mu' = validatorStakes mu1" "delegatorStakes mu' = delegatorStakes mu1"
    "assets mu' = (assets mu1)(ids_Empty \<mapsto>
      \<lparr>as_symbol = Symbol c, as_decimals = Decimals c, as_metadata = Name c,
       as_supply = acc, as_owner = EmptyAddress, as_warp = False\<rparr>)"
    by (simp_all add: mu')
  with f acc show ?thesis by auto
qed

text \<open>
  Claim C9, as the code has it. \<^verbatim>\<open>Genesis.Load\<close> returns an error exactly when the branch
  factor is invalid, an allocation address fails to parse, the sum of the listed
  balances overflows \<^verbatim>\<open>uint64\<close>, or a storage write fails (the \<^verbatim>\<open>SetBalance\<close> of an
  allocation, line 143, or the final \<^verbatim>\<open>SetAsset\<close>, line 148). Otherwise every listed
  address holds the balance of its last entry in the list, every other balance is
  untouched, and the native asset record, under the empty id, carries a total supply
  equal to the exact sum of all listed balances.
\<close>

theorem Genesis_Load_outcome:
  assumes "Genesis_Load parse c g mu = (e, mu')"
  shows
    "(e \<noteq> None \<longleftrightarrow>
        BranchFactor_Valid (g_StateBranchFactor g) \<noteq> None \<or>
        (\<exists>a \<in> set (g_CustomAllocation g). isl (parse (HRP c) (ca_Address a))) \<or>
        2 ^ 64 \<le> total_allocated (g_CustomAllocation g) \<or>
        (\<exists>a \<in> set (g_CustomAllocation g). \<exists>addr.
           parse (HRP c) (ca_Address a) = Inr addr \<and>
           writeFails mu (BalanceKey addr ids_Empty)) \<or>
        writeFails mu (AssetKey ids_Empty)) \<and>
     (e = None \<longrightarrow>
        (\<forall>i addr.
           i < length (g_CustomAllocation g) \<and>
           parse (HRP c) (ca_Address (g_CustomAllocation g ! i)) = Inr addr \<and>
           (\<forall>j. i < j \<and> j < length (g_CustomAllocation g) \<longrightarrow>
              parse (HRP c) (ca_Address (g_CustomAllocation g ! j)) \<noteq> Inr addr) \<longrightarrow>
           balances mu' (addr, ids_Empty) = ca_Balance (g_CustomAllocation g ! i)) \<and>
        (\<forall>addr k.
           k \<noteq> ids_Empty \<or>
           (\<forall>a \<in> set (g_CustomAllocation g). parse (HRP c) (ca_Address a) \<noteq> Inr addr) \<longrightarrow>
           balances mu' (addr, k) = balances mu (addr, k)) \<and>
        (\<exists>supply.
           unat supply = total_allocated (g_CustomAllocation g) \<and>
           assets mu' = (assets mu)(ids_Empty \<mapsto>
             \<lparr>as_symbol = Symbol c, as_decimals = Decimals c, as_metadata = Name c,
              as_supply = supply, as_owner = EmptyAddress, as_warp = False\<rparr>)) \<and>
        stakes mu' = stakes mu \<and> validatorStakes mu' = validatorStakes mu \<and>
        delegatorStakes mu' = delegatorStakes mu)"
proof (intro conjI impI)
  show "e \<noteq> None \<longleftrightarrow>
        BranchFactor_Valid (g_StateBranchFactor g) \<noteq> None \<or>
        (\<exists>a \<in> set (g_CustomAllocation g). isl (parse (HRP c) (ca_Address a))) \<or>
        2 ^ 64 \<le> total_allocated (g_CustomAllocation g) \<or>
        (\<exists>a \<in> set (g_CustomAllocation g). \<exists>addr.
           parse (HRP c) (ca_Address a) = Inr addr \<and>
           writeFails mu (BalanceKey addr ids_Empty)) \<or>
        writeFails mu (AssetKey ids_Empty)"
    using Genesis_Load_error_iff [of parse c g mu] assms by simp
next
  assume "e = None"
  with assms have ok: "Genesis_Load parse c g mu = (None, mu')" by simp
  note s = Genesis_Load_success [OF ok]
  then have b: "balances mu' =
      seeded_balances parse (HRP c) (g_CustomAllocation g) (balances mu)" by blast
  show "\<forall>i addr.
           i < length (g_CustomAllocation g) \<and>
           parse (HRP c) (ca_Address (g_CustomAllocation g ! i)) = Inr addr \<and>
           (\<forall>j. i < j \<and> j < length (g_CustomAllocation g) \<longrightarrow>
              parse (HRP c) (ca_Address (g_CustomAllocation g ! j)) \<noteq> Inr addr) \<longrightarrow>
           balances mu' (addr, ids_Empty) = ca_Balance (g_CustomAllocation g ! i)"
    unfolding b by (intro allI impI) (rule seeded_balances_last, blast+)
  show "\<forall>addr k.
           k \<noteq> ids_Empty \<or>
           (\<forall>a \<in> set (g_CustomAllocation g). parse (HRP c) (ca_Address a) \<noteq> Inr addr) \<longrightarrow>
           balances mu' (addr, k) = balances mu (addr, k)"
    unfolding b using seeded_balances_other seeded_balances_asset by blast
  show "\<exists>supply.
           unat supply = total_allocated (g_CustomAllocation g) \<and>
           assets mu' = (assets mu)(ids_Empty \<mapsto>
             \<lparr>as_symbol = Symbol c, as_decimals = Decimals c, as_metadata = Name c,
              as_supply = supply, as_owner = EmptyAddress, as_warp = False\<rparr>)"
    using s by blast
  show "stakes mu' = stakes mu" "validatorStakes mu' = validatorStakes mu"
    "delegatorStakes mu' = delegatorStakes mu"
    using s by blast+
qed

theorem Genesis_Load_outcome_witness:
  "fst (Genesis_Load example_parser example_consts
      (genesis_of [alloc ''a'' 5, alloc ''bb'' 7, alloc ''a'' 9]) empty_ledger) = None \<and>
   balances (snd (Genesis_Load example_parser example_consts
      (genesis_of [alloc ''a'' 5, alloc ''bb'' 7, alloc ''a'' 9]) empty_ledger))
      (addr_of 1, ids_Empty) = 9 \<and>
   balances (snd (Genesis_Load example_parser example_consts
      (genesis_of [alloc ''a'' 5, alloc ''bb'' 7, alloc ''a'' 9]) empty_ledger))
      (addr_of 2, ids_Empty) = 7 \<and>
   map_option as_supply (assets (snd (Genesis_Load example_parser example_consts
      (genesis_of [alloc ''a'' 5, alloc ''bb'' 7, alloc ''a'' 9]) empty_ledger)) ids_Empty) =
     Some 21"
proof -
  let ?g = "genesis_of [alloc ''a'' 5, alloc ''bb'' 7, alloc ''a'' 9]"
  let ?x = "Genesis_Load example_parser example_consts ?g empty_ledger"
  have ex: "?x = (fst ?x, snd ?x)" by simp
  note t = Genesis_Load_outcome [OF ex]
  have total: "total_allocated (g_CustomAllocation ?g) = 21"
    by (simp add: total_allocated_def genesis_of_def alloc_def)
  have len: "length (g_CustomAllocation ?g) = 3"
    by (simp add: genesis_of_def)
  have "\<not> (BranchFactor_Valid (g_StateBranchFactor ?g) \<noteq> None \<or>
        (\<exists>a \<in> set (g_CustomAllocation ?g).
           isl (example_parser (HRP example_consts) (ca_Address a))) \<or>
        2 ^ 64 \<le> total_allocated (g_CustomAllocation ?g) \<or>
        (\<exists>a \<in> set (g_CustomAllocation ?g). \<exists>addr.
           example_parser (HRP example_consts) (ca_Address a) = Inr addr \<and>
           writeFails empty_ledger (BalanceKey addr ids_Empty)) \<or>
        writeFails empty_ledger (AssetKey ids_Empty))"
    unfolding total
    by (simp add: BranchFactor_Valid_def genesis_of_def alloc_def example_parser_def
        empty_ledger_def)
  with t have none: "fst ?x = None" by blast
  from t none have last: "balances (snd ?x) (addr, ids_Empty) = ca_Balance (g_CustomAllocation ?g ! i)"
    if "i < length (g_CustomAllocation ?g)"
      and "example_parser (HRP example_consts) (ca_Address (g_CustomAllocation ?g ! i)) = Inr addr"
      and "\<forall>j. i < j \<and> j < length (g_CustomAllocation ?g) \<longrightarrow>
        example_parser (HRP example_consts) (ca_Address (g_CustomAllocation ?g ! j)) \<noteq> Inr addr"
    for i addr
    using that by blast
  have c: "example_parser (HRP example_consts) (ca_Address (g_CustomAllocation ?g ! 2)) =
      Inr (addr_of 1)"
    by (simp add: genesis_of_def alloc_def example_parser_def)
  have c': "\<forall>j. 2 < j \<and> j < length (g_CustomAllocation ?g) \<longrightarrow>
      example_parser (HRP example_consts) (ca_Address (g_CustomAllocation ?g ! j)) \<noteq>
        Inr (addr_of 1)"
  proof (intro allI impI)
    fix j assume "2 < j \<and> j < length (g_CustomAllocation ?g)"
    then have False unfolding len by arith
    then show "example_parser (HRP example_consts)
        (ca_Address (g_CustomAllocation ?g ! j)) \<noteq> Inr (addr_of 1)" ..
  qed
  have b1: "balances (snd ?x) (addr_of 1, ids_Empty) = ca_Balance (g_CustomAllocation ?g ! 2)"
    by (rule last [OF _ c c']) (simp add: len)
  have d: "example_parser (HRP example_consts) (ca_Address (g_CustomAllocation ?g ! 1)) =
      Inr (addr_of 2)"
    by (simp add: genesis_of_def alloc_def example_parser_def)
  have d': "\<forall>j. 1 < j \<and> j < length (g_CustomAllocation ?g) \<longrightarrow>
      example_parser (HRP example_consts) (ca_Address (g_CustomAllocation ?g ! j)) \<noteq>
        Inr (addr_of 2)"
  proof (intro allI impI)
    fix j assume "1 < j \<and> j < length (g_CustomAllocation ?g)"
    then have "j = 2" unfolding len by arith
    then show "example_parser (HRP example_consts)
        (ca_Address (g_CustomAllocation ?g ! j)) \<noteq> Inr (addr_of 2)"
      by (simp add: genesis_of_def alloc_def example_parser_def)
  qed
  have b2: "balances (snd ?x) (addr_of 2, ids_Empty) = ca_Balance (g_CustomAllocation ?g ! 1)"
    by (rule last [OF _ d d']) (simp add: len)
  from t none total obtain amount :: uint64 where su: "unat amount = 21"
    and "assets (snd ?x) ids_Empty = Some
      \<lparr>as_symbol = Symbol example_consts, as_decimals = Decimals example_consts,
       as_metadata = Name example_consts, as_supply = amount, as_owner = EmptyAddress,
       as_warp = False\<rparr>"
    by auto
  moreover from su have "amount = 21"
    by (simp add: word_unat_eq_iff)
  ultimately have b3: "map_option as_supply (assets (snd ?x) ids_Empty) = Some 21"
    by simp
  from none b1 b2 b3 show ?thesis
    by (simp add: genesis_of_def alloc_def)
qed

text \<open>
  The claim as stated fails at two inputs. With a valid branch factor, an address that
  parses and a sum that does not overflow, \<^verbatim>\<open>Load\<close> still returns an error when the write
  of the asset record fails. And where one address is listed twice, \<^verbatim>\<open>Load\<close> succeeds
  and leaves that address the balance of its second entry, 7, not the 5 of its first.
\<close>

theorem Genesis_Load_counterexample:
  "BranchFactor_Valid (g_StateBranchFactor (genesis_of [alloc ''a'' 5])) = None \<and>
   example_parser (HRP example_consts) ''a'' = Inr (addr_of 1) \<and>
   total_allocated [alloc ''a'' 5] = 5 \<and>
   fst (Genesis_Load example_parser example_consts (genesis_of [alloc ''a'' 5])
      ledger_asset_write_fails) = Some ErrStorage \<and>
   fst (Genesis_Load example_parser example_consts (genesis_of [alloc ''a'' 5, alloc ''a'' 7])
      empty_ledger) = None \<and>
   balances (snd (Genesis_Load example_parser example_consts
      (genesis_of [alloc ''a'' 5, alloc ''a'' 7]) empty_ledger)) (addr_of 1, ids_Empty) = 7"
  by (simp add: Genesis_Load_def BranchFactor_Valid_def Add64_def Add64_overflow_iff
      SetBalance_def SetAsset_def total_allocated_def example_defs)

section \<open>The packer and the encodings of the actions\<close>

lemma be_nat_acc_append:
  "be_nat_acc acc (xs @ ys) = be_nat_acc (be_nat_acc acc xs) ys"
  by (induction xs arbitrary: acc) auto

lemma be_nat_be_bytes: "be_nat (be_bytes n v) = v mod 256 ^ n"
proof (induction n arbitrary: v)
  case 0
  show ?case by (simp add: be_nat_def)
next
  case (Suc n)
  have "be_nat (be_bytes (Suc n) v) =
      be_nat (be_bytes n (v div 256)) * 256 + unat (of_nat (v mod 256) :: byte)"
    by (simp add: be_nat_def be_nat_acc_append)
  also have "unat (of_nat (v mod 256) :: byte) = v mod 256"
    by (simp add: unat_of_nat)
  also have "be_nat (be_bytes n (v div 256)) = v div 256 mod 256 ^ n"
    by (rule Suc.IH)
  finally show ?case
    by (simp add: mod_mult2_eq)
qed

lemma decode_uint64 [simp]:
  "(of_nat (be_nat (be_bytes Uint64Len (unat (x :: uint64)))) :: uint64) = x"
proof -
  have "unat x < 256 ^ 8"
    using unsigned_less [of x, where ?'a = nat] by simp
  then show ?thesis
    by (simp add: be_nat_be_bytes Uint64Len_def)
qed

lemma decode_uint32 [simp]:
  "(of_nat (be_nat (be_bytes IntLen (unat (x :: 32 word)))) :: 32 word) = x"
proof -
  have "unat x < 256 ^ 4"
    using unsigned_less [of x, where ?'a = nat] by simp
  then show ?thesis
    by (simp add: be_nat_be_bytes IntLen_def)
qed

text \<open>Reading from a packer without error whose unread bytes start with the field.\<close>

lemma UnpackFixedBytes_reads:
  assumes "p_Err p = None" and "drop (p_Offset p) (p_Bytes p) = b @ rest" and "length b = n"
    and "p_Offset p \<le> length (p_Bytes p)"
  shows "UnpackFixedBytes p n = (b, p\<lparr>p_Offset := p_Offset p + n\<rparr>)"
proof -
  have "length (drop (p_Offset p) (p_Bytes p)) = n + length rest"
    using assms by simp
  then have "p_Offset p + n \<le> length (p_Bytes p)" using assms(4) by simp
  then show ?thesis
    using assms by (simp add: UnpackFixedBytes_def checkSpace_def Errored_def Let_def)
qed

lemma drop_after_read:
  assumes "drop k bs = b @ rest" and "length b = n"
  shows "drop (k + n) bs = rest"
proof -
  have "drop (k + n) bs = drop n (drop k bs)" by (simp add: add.commute)
  then show ?thesis using assms by simp
qed

lemma UnpackInt_reads:
  assumes "p_Err p = None"
    and "drop (p_Offset p) (p_Bytes p) = be_bytes IntLen (unat v) @ rest"
  shows "UnpackInt p = (v, p\<lparr>p_Offset := p_Offset p + IntLen\<rparr>)"
proof -
  have "length (drop (p_Offset p) (p_Bytes p)) = IntLen + length rest"
    using assms by simp
  then have "p_Offset p + IntLen \<le> length (p_Bytes p)" by (simp add: IntLen_def)
  then show ?thesis
    using assms by (simp add: UnpackInt_def checkSpace_def Errored_def Let_def)
qed

lemma UnpackLong_reads:
  assumes "p_Err p = None"
    and "drop (p_Offset p) (p_Bytes p) = be_bytes Uint64Len (unat v) @ rest"
  shows "UnpackLong p = (v, p\<lparr>p_Offset := p_Offset p + Uint64Len\<rparr>)"
proof -
  have "length (drop (p_Offset p) (p_Bytes p)) = Uint64Len + length rest"
    using assms by simp
  then have "p_Offset p + Uint64Len \<le> length (p_Bytes p)" by (simp add: Uint64Len_def)
  then show ?thesis
    using assms by (simp add: UnpackLong_def checkSpace_def Errored_def Let_def)
qed

lemma UnpackUint64_reads:
  assumes "p_Err p = None"
    and "drop (p_Offset p) (p_Bytes p) = be_bytes Uint64Len (unat v) @ rest"
    and "required \<Longrightarrow> v \<noteq> 0"
  shows "UnpackUint64 p required = (v, p\<lparr>p_Offset := p_Offset p + Uint64Len\<rparr>)"
  using assms by (auto simp add: UnpackUint64_def UnpackLong_reads)

lemma UnpackBytes_reads:
  assumes "p_Err p = None"
    and "drop (p_Offset p) (p_Bytes p) =
           be_bytes IntLen (unat (of_nat (length b) :: 32 word)) @ b @ rest"
    and "length b \<le> limit" and "limit < 2 ^ 32"
    and "required \<Longrightarrow> b \<noteq> []"
    and "p_Offset p \<le> length (p_Bytes p)"
  shows "UnpackBytes p limit required = (b, p\<lparr>p_Offset := p_Offset p + IntLen + length b\<rparr>)"
proof -
  let ?p1 = "p\<lparr>p_Offset := p_Offset p + IntLen\<rparr>"
  have i: "UnpackInt p = (of_nat (length b), ?p1)"
    using assms(1,2) by (rule UnpackInt_reads)
  have len: "unat (of_nat (length b) :: 32 word) = length b"
    using assms(3,4) by (simp add: unat_of_nat)
  have le: "\<not> (of_nat limit :: 32 word) < of_nat (length b)"
    using assms(3,4) by (simp add: word_less_nat_alt unat_of_nat)
  have d: "drop (p_Offset ?p1) (p_Bytes ?p1) = b @ rest"
    using drop_after_read [OF assms(2)] by simp
  have f: "UnpackFixedBytes ?p1 (length b) = (b, ?p1\<lparr>p_Offset := p_Offset ?p1 + length b\<rparr>)"
  proof (rule UnpackFixedBytes_reads [OF _ d])
    have "length (drop (p_Offset p) (p_Bytes p)) = IntLen + length b + length rest"
      using assms(2) by simp
    then show "p_Offset ?p1 \<le> length (p_Bytes ?p1)" by (simp add: IntLen_def)
  qed (simp_all add: assms(1))
  show ?thesis
    using i le len f assms(5) by (auto simp add: UnpackBytes_def UnpackLimitedBytes_def)
qed

lemma offset_in_range:
  assumes "drop k bs = a @ rest" and "0 < length a"
  shows "k \<le> length (bs :: bytes)"
proof (rule ccontr)
  assume "\<not> k \<le> length bs"
  then have "drop k bs = []" by simp
  with assms show False by simp
qed

lemma UnpackAddress_reads:
  assumes "p_Err p = None" and "drop (p_Offset p) (p_Bytes p) = a @ rest"
    and "length a = AddressLen" and "a \<noteq> EmptyAddress"
  shows "UnpackAddress p = (a, p\<lparr>p_Offset := p_Offset p + AddressLen\<rparr>)"
proof -
  have "p_Offset p \<le> length (p_Bytes p)"
    using offset_in_range [OF assms(2)] assms(3) by (simp add: AddressLen_def)
  from UnpackFixedBytes_reads [OF assms(1,2,3) this] assms(3,4)
  show ?thesis by (simp add: UnpackAddress_def)
qed

lemma UnpackID_reads:
  assumes "p_Err p = None" and "drop (p_Offset p) (p_Bytes p) = a @ rest"
    and "length a = IDLen" and "required \<Longrightarrow> a \<noteq> ids_Empty"
  shows "UnpackID p required = (a, p\<lparr>p_Offset := p_Offset p + IDLen\<rparr>)"
proof -
  have "p_Offset p \<le> length (p_Bytes p)"
    using offset_in_range [OF assms(2)] assms(3) by (simp add: IDLen_def)
  from UnpackFixedBytes_reads [OF assms(1,2,3) this] assms(3,4)
  show ?thesis by (auto simp add: UnpackID_def)
qed


text \<open>Writing to a packer without error that is at its end and has room.\<close>

lemma PackBytes_append:
  assumes "p_Err p = None" and "p_Offset p = length (p_Bytes p)"
    and "length (p_Bytes p) + IntLen + length b \<le> p_MaxSize p"
  shows "PackBytes p b = p\<lparr>p_Bytes := p_Bytes p @ lengthPrefixed b,
           p_Offset := p_Offset p + IntLen + length b\<rparr>"
  using assms
  by (simp add: PackBytes_def PackInt_def PackFixedBytes_append lengthPrefixed_def)

lemma PackUint64_append:
  assumes "p_Err p = None" and "p_Offset p = length (p_Bytes p)"
    and "length (p_Bytes p) + Uint64Len \<le> p_MaxSize p"
  shows "PackUint64 p v = p\<lparr>p_Bytes := p_Bytes p @ be_bytes Uint64Len (unat v),
           p_Offset := p_Offset p + Uint64Len\<rparr>"
  using assms by (simp add: PackUint64_def PackLong_def PackFixedBytes_append)

lemma UnstakeValidator_bytes_eq:
  assumes "length (uv_Stake u) + IntLen + length (uv_NodeID u) \<le> limit"
  shows "UnstakeValidator_Marshal u (NewWriter n limit) =
          \<lparr>p_Bytes = uv_Stake u @ lengthPrefixed (uv_NodeID u),
           p_Offset = length (uv_Stake u) + IntLen + length (uv_NodeID u),
           p_MaxSize = limit, p_Err = None\<rparr>"
  using assms
  by (simp add: UnstakeValidator_Marshal_def NewWriter_def PackID_def
      PackFixedBytes_append PackBytes_append)

lemma WithdrawValidatorStake_bytes_eq:
  assumes "IntLen + length (wv_NodeID u) \<le> limit"
  shows "WithdrawValidatorStake_Marshal u (NewWriter n limit) =
          \<lparr>p_Bytes = lengthPrefixed (wv_NodeID u),
           p_Offset = IntLen + length (wv_NodeID u),
           p_MaxSize = limit, p_Err = None\<rparr>"
  using assms
  by (simp add: WithdrawValidatorStake_Marshal_def NewWriter_def PackBytes_append)

lemma length_lengthPrefixed [simp]: "length (lengthPrefixed b) = IntLen + length b"
  by (simp add: lengthPrefixed_def)

lemma DelegateUserStake_bytes_eq:
  assumes "IntLen + length (du_NodeID s) + 3 * Uint64Len + length (du_RewardAddress s) \<le> limit"
  shows "DelegateUserStake_Marshal s (NewWriter n limit) =
          \<lparr>p_Bytes = lengthPrefixed (du_NodeID s) @
             be_bytes Uint64Len (unat (du_StakeStartBlock s)) @
             be_bytes Uint64Len (unat (du_StakeEndBlock s)) @
             be_bytes Uint64Len (unat (du_StakedAmount s)) @ du_RewardAddress s,
           p_Offset = IntLen + length (du_NodeID s) + 3 * Uint64Len + length (du_RewardAddress s),
           p_MaxSize = limit, p_Err = None\<rparr>"
  using assms
  by (simp add: DelegateUserStake_Marshal_def NewWriter_def PackBytes_append PackUint64_append
      PackAddress_def PackFixedBytes_append Let_def)


lemma NodeIDLen_small: "NodeIDLen < 2 ^ 32"
  by (simp add: NodeIDLen_def)

lemma WithdrawValidatorStake_decodes:
  assumes pop: "WithdrawValidatorStake_populated u"
    and room: "IntLen + length (wv_NodeID u) \<le> limit"
  shows "UnmarshalWithdrawValidatorStake
           (NewReader (WithdrawValidatorStake_bytes limit u @ extra) limit') = (u, None)"
proof -
  let ?p = "NewReader (WithdrawValidatorStake_bytes limit u @ extra) limit'"
  have b: "WithdrawValidatorStake_bytes limit u = lengthPrefixed (wv_NodeID u)"
    using room by (simp add: WithdrawValidatorStake_bytes_def WithdrawValidatorStake_bytes_eq)
  have "UnpackBytes ?p NodeIDLen True =
      (wv_NodeID u, ?p\<lparr>p_Offset := p_Offset ?p + IntLen + length (wv_NodeID u)\<rparr>)"
  proof (rule UnpackBytes_reads [where rest = extra])
    show "drop (p_Offset ?p) (p_Bytes ?p) =
        be_bytes IntLen (unat (of_nat (length (wv_NodeID u)) :: 32 word)) @ wv_NodeID u @ extra"
      by (simp add: NewReader_def b lengthPrefixed_def)
  qed (use pop in \<open>simp_all add: NewReader_def WithdrawValidatorStake_populated_def
         NodeIDLen_def\<close>)
  then show ?thesis
    by (simp add: UnmarshalWithdrawValidatorStake_def NewReader_def)
qed

lemma UnstakeValidator_decodes:
  assumes pop: "UnstakeValidator_populated u"
    and room: "IDLen + IntLen + length (uv_NodeID u) \<le> limit"
  shows "UnmarshalUnstakeValidator
           (NewReader (UnstakeValidator_bytes limit u @ extra) limit') = (u, None)"
proof -
  let ?p = "NewReader (UnstakeValidator_bytes limit u @ extra) limit'"
  let ?p1 = "?p\<lparr>p_Offset := p_Offset ?p + IDLen\<rparr>"
  have len: "length (uv_Stake u) = IDLen" and ne: "uv_Stake u \<noteq> ids_Empty"
    and nl: "length (uv_NodeID u) \<le> NodeIDLen"
    using pop by (simp_all add: UnstakeValidator_populated_def)
  have b: "UnstakeValidator_bytes limit u = uv_Stake u @ lengthPrefixed (uv_NodeID u)"
    using room len by (simp add: UnstakeValidator_bytes_def UnstakeValidator_bytes_eq)
  have r1: "UnpackID ?p True = (uv_Stake u, ?p1)"
  proof (rule UnpackID_reads [where rest = "lengthPrefixed (uv_NodeID u) @ extra"])
    show "drop (p_Offset ?p) (p_Bytes ?p) = uv_Stake u @ lengthPrefixed (uv_NodeID u) @ extra"
      by (simp add: NewReader_def b)
  qed (use len ne in \<open>simp_all add: NewReader_def\<close>)
  have r2: "UnpackBytes ?p1 NodeIDLen False =
      (uv_NodeID u, ?p1\<lparr>p_Offset := p_Offset ?p1 + IntLen + length (uv_NodeID u)\<rparr>)"
  proof (rule UnpackBytes_reads [where rest = extra])
    show "drop (p_Offset ?p1) (p_Bytes ?p1) =
        be_bytes IntLen (unat (of_nat (length (uv_NodeID u)) :: 32 word)) @ uv_NodeID u @ extra"
      using len by (simp add: NewReader_def b lengthPrefixed_def)
    show "p_Offset ?p1 \<le> length (p_Bytes ?p1)"
      using len by (simp add: NewReader_def b)
  qed (use nl in \<open>simp_all add: NewReader_def NodeIDLen_def\<close>)
  show ?thesis
    by (simp add: UnmarshalUnstakeValidator_def r1 r2) (simp add: NewReader_def)
qed

lemma DelegateUserStake_decodes:
  assumes pop: "DelegateUserStake_populated s"
    and room: "IntLen + length (du_NodeID s) + 3 * Uint64Len + AddressLen \<le> limit"
  shows "UnmarshalDelegateUserStake
           (NewReader (DelegateUserStake_bytes limit s @ extra) limit') = (s, None)"
proof -
  let ?n = "du_NodeID s"
  let ?a = "be_bytes Uint64Len (unat (du_StakeStartBlock s))"
  let ?b = "be_bytes Uint64Len (unat (du_StakeEndBlock s))"
  let ?c = "be_bytes Uint64Len (unat (du_StakedAmount s))"
  let ?r = "du_RewardAddress s"
  let ?p = "NewReader (DelegateUserStake_bytes limit s @ extra) limit'"
  let ?p1 = "?p\<lparr>p_Offset := IntLen + length ?n\<rparr>"
  let ?p2 = "?p\<lparr>p_Offset := IntLen + length ?n + Uint64Len\<rparr>"
  let ?p3 = "?p\<lparr>p_Offset := IntLen + length ?n + Uint64Len + Uint64Len\<rparr>"
  let ?p4 = "?p\<lparr>p_Offset := IntLen + length ?n + Uint64Len + Uint64Len + Uint64Len\<rparr>"
  let ?p5 = "?p\<lparr>p_Offset := IntLen + length ?n + Uint64Len + Uint64Len + Uint64Len + AddressLen\<rparr>"
  have f: "?n \<noteq> []" "length ?n \<le> NodeIDLen" "du_StakeStartBlock s \<noteq> 0"
    "du_StakeEndBlock s \<noteq> 0" "du_StakedAmount s \<noteq> 0" "length ?r = AddressLen"
    "?r \<noteq> EmptyAddress"
    using pop by (simp_all add: DelegateUserStake_populated_def)
  have b: "DelegateUserStake_bytes limit s = lengthPrefixed ?n @ ?a @ ?b @ ?c @ ?r"
    using room f(6) by (simp add: DelegateUserStake_bytes_def DelegateUserStake_bytes_eq)
  have bytes: "p_Bytes ?p = lengthPrefixed ?n @ ?a @ ?b @ ?c @ ?r @ extra"
    and err: "p_Err ?p = None" and off: "p_Offset ?p = 0"
    by (simp_all add: NewReader_def b)
  have r1: "UnpackBytes ?p NodeIDLen True = (?n, ?p1)"
    using UnpackBytes_reads [of ?p ?n "?a @ ?b @ ?c @ ?r @ extra" NodeIDLen True]
      f(1,2) NodeIDLen_small
    by (simp add: bytes err off lengthPrefixed_def)
  have r2: "UnpackUint64 ?p1 True = (du_StakeStartBlock s, ?p2)"
    using UnpackUint64_reads [of ?p1 "du_StakeStartBlock s" "?b @ ?c @ ?r @ extra" True] f(3)
    by (simp add: bytes err)
  have r3: "UnpackUint64 ?p2 True = (du_StakeEndBlock s, ?p3)"
    using UnpackUint64_reads [of ?p2 "du_StakeEndBlock s" "?c @ ?r @ extra" True] f(4)
    by (simp add: bytes err)
  have r4: "UnpackUint64 ?p3 True = (du_StakedAmount s, ?p4)"
    using UnpackUint64_reads [of ?p3 "du_StakedAmount s" "?r @ extra" True] f(5)
    by (simp add: bytes err)
  have r5: "UnpackAddress ?p4 = (?r, ?p5)"
    using UnpackAddress_reads [of ?p4 ?r extra] f(6,7)
    by (simp add: bytes err)
  show ?thesis
    by (simp add: UnmarshalDelegateUserStake_def r1 r2 r3 r4 r5) (simp add: NewReader_def)
qed


text \<open>A read that leaves the packer without error had room, and started without error.\<close>

lemma addErr_not_None [simp]: "p_Err (addErr p e) \<noteq> None"
  by (simp add: addErr_def)

lemma UnpackFixedBytes_no_error:
  assumes "p_Err (snd (UnpackFixedBytes p n)) = None"
  shows "p_Err p = None \<and> p_Offset p + n \<le> length (p_Bytes p) \<and>
         snd (UnpackFixedBytes p n) = p\<lparr>p_Offset := p_Offset p + n\<rparr>"
  using assms
  by (auto simp add: UnpackFixedBytes_def checkSpace_def Errored_def Let_def addErr_def
      split: if_splits)

lemma UnpackInt_no_error:
  assumes "p_Err (snd (UnpackInt p)) = None"
  shows "p_Err p = None \<and> p_Offset p + IntLen \<le> length (p_Bytes p) \<and>
         snd (UnpackInt p) = p\<lparr>p_Offset := p_Offset p + IntLen\<rparr> \<and>
         fst (UnpackInt p) = of_nat (be_nat (take IntLen (drop (p_Offset p) (p_Bytes p))))"
  using assms
  by (auto simp add: UnpackInt_def checkSpace_def Errored_def Let_def addErr_def
      split: if_splits)

lemma UnpackLong_no_error:
  assumes "p_Err (snd (UnpackLong p)) = None"
  shows "p_Err p = None \<and> p_Offset p + Uint64Len \<le> length (p_Bytes p) \<and>
         snd (UnpackLong p) = p\<lparr>p_Offset := p_Offset p + Uint64Len\<rparr>"
  using assms
  by (auto simp add: UnpackLong_def checkSpace_def Errored_def Let_def addErr_def
      split: if_splits)

lemma UnpackUint64_no_error:
  assumes "p_Err (snd (UnpackUint64 p required)) = None"
  shows "p_Err p = None \<and> p_Offset p + Uint64Len \<le> length (p_Bytes p) \<and>
         snd (UnpackUint64 p required) = p\<lparr>p_Offset := p_Offset p + Uint64Len\<rparr>"
proof -
  obtain v p1 where u: "UnpackLong p = (v, p1)" by (cases "UnpackLong p")
  with assms have "p_Err p1 = None" and "snd (UnpackUint64 p required) = p1"
    by (auto simp add: UnpackUint64_def split: if_splits)
  with UnpackLong_no_error [of p] u show ?thesis by simp
qed

lemma UnpackLimitedBytes_no_error:
  assumes "p_Err (snd (UnpackLimitedBytes p limit)) = None"
  shows "p_Err p = None \<and> p_Offset p + IntLen \<le> length (p_Bytes p) \<and>
         fst (UnpackInt p) \<le> limit \<and>
         p_Offset p + IntLen + unat (fst (UnpackInt p)) \<le> length (p_Bytes p) \<and>
         snd (UnpackLimitedBytes p limit) =
           p\<lparr>p_Offset := p_Offset p + IntLen + unat (fst (UnpackInt p))\<rparr>"
proof -
  obtain sz p1 where u: "UnpackInt p = (sz, p1)" by (cases "UnpackInt p")
  from assms u have le: "\<not> limit < sz"
    and f: "p_Err (snd (UnpackFixedBytes p1 (unat sz))) = None"
    and e: "snd (UnpackLimitedBytes p limit) = snd (UnpackFixedBytes p1 (unat sz))"
    by (auto simp add: UnpackLimitedBytes_def split: if_splits)
  note a = UnpackFixedBytes_no_error [OF f]
  from a u have "p_Err (snd (UnpackInt p)) = None" by simp
  note b = UnpackInt_no_error [OF this]
  from a b u e le show ?thesis by (simp add: add.assoc)
qed

lemma UnpackBytes_no_error:
  assumes "p_Err (snd (UnpackBytes p limit required)) = None"
  shows "p_Err p = None \<and> p_Offset p + IntLen \<le> length (p_Bytes p) \<and>
         fst (UnpackInt p) \<le> of_nat limit \<and>
         p_Offset p + IntLen + unat (fst (UnpackInt p)) \<le> length (p_Bytes p) \<and>
         snd (UnpackBytes p limit required) =
           p\<lparr>p_Offset := p_Offset p + IntLen + unat (fst (UnpackInt p))\<rparr>"
proof -
  obtain d p1 where u: "UnpackLimitedBytes p (of_nat limit) = (d, p1)"
    by (cases "UnpackLimitedBytes p (of_nat limit)")
  with assms have "p_Err p1 = None" and "snd (UnpackBytes p limit required) = p1"
    by (auto simp add: UnpackBytes_def split: if_splits)
  with UnpackLimitedBytes_no_error [of p "of_nat limit"] u show ?thesis by simp
qed

lemma UnpackAddress_no_error:
  assumes "p_Err (snd (UnpackAddress p)) = None"
  shows "p_Err p = None \<and> p_Offset p + AddressLen \<le> length (p_Bytes p) \<and>
         snd (UnpackAddress p) = p\<lparr>p_Offset := p_Offset p + AddressLen\<rparr>"
proof -
  obtain b p1 where u: "UnpackFixedBytes p AddressLen = (b, p1)"
    by (cases "UnpackFixedBytes p AddressLen")
  with assms have "p_Err p1 = None" and "snd (UnpackAddress p) = p1"
    by (auto simp add: UnpackAddress_def Let_def split: if_splits)
  with UnpackFixedBytes_no_error [of p AddressLen] u show ?thesis by simp
qed

lemma UnpackID_no_error:
  assumes "p_Err (snd (UnpackID p required)) = None"
  shows "p_Err p = None \<and> p_Offset p + IDLen \<le> length (p_Bytes p) \<and>
         snd (UnpackID p required) = p\<lparr>p_Offset := p_Offset p + IDLen\<rparr>"
proof -
  obtain b p1 where u: "UnpackFixedBytes p IDLen = (b, p1)"
    by (cases "UnpackFixedBytes p IDLen")
  with assms have "p_Err p1 = None" and "snd (UnpackID p required) = p1"
    by (auto simp add: UnpackID_def Let_def split: if_splits)
  with UnpackFixedBytes_no_error [of p IDLen] u show ?thesis by simp
qed

text \<open>What a decoder that returns no error has read.\<close>

lemma UnmarshalWithdrawValidatorStake_consumes:
  assumes "snd (UnmarshalWithdrawValidatorStake p) = None"
  shows "p_Offset p + IntLen \<le> length (p_Bytes p) \<and>
         fst (UnpackInt p) \<le> of_nat NodeIDLen \<and>
         p_Offset p + IntLen + unat (fst (UnpackInt p)) \<le> length (p_Bytes p)"
proof -
  from assms have "p_Err (snd (UnpackBytes p NodeIDLen True)) = None"
    by (simp add: UnmarshalWithdrawValidatorStake_def split: prod.splits)
  from UnpackBytes_no_error [OF this] show ?thesis by simp
qed

lemma UnmarshalUnstakeValidator_consumes:
  assumes "snd (UnmarshalUnstakeValidator p) = None"
  shows "p_Offset p + IDLen + IntLen \<le> length (p_Bytes p) \<and>
         fst (UnpackInt (p\<lparr>p_Offset := p_Offset p + IDLen\<rparr>)) \<le> of_nat NodeIDLen \<and>
         p_Offset p + IDLen + IntLen +
           unat (fst (UnpackInt (p\<lparr>p_Offset := p_Offset p + IDLen\<rparr>))) \<le> length (p_Bytes p)"
proof -
  let ?p1 = "snd (UnpackID p True)"
  from assms have e2: "p_Err (snd (UnpackBytes ?p1 NodeIDLen False)) = None"
    by (simp add: UnmarshalUnstakeValidator_def split: prod.splits)
  note b = UnpackBytes_no_error [OF e2]
  then have "p_Err ?p1 = None" by simp
  note a = UnpackID_no_error [OF this]
  from a b show ?thesis by simp
qed

lemma UnmarshalDelegateUserStake_consumes:
  assumes "snd (UnmarshalDelegateUserStake p) = None"
  shows "p_Offset p + IntLen \<le> length (p_Bytes p) \<and>
         fst (UnpackInt p) \<le> of_nat NodeIDLen \<and>
         p_Offset p + IntLen + unat (fst (UnpackInt p)) + 3 * Uint64Len + AddressLen
           \<le> length (p_Bytes p)"
proof -
  let ?p1 = "snd (UnpackBytes p NodeIDLen True)"
  let ?p2 = "snd (UnpackUint64 ?p1 True)"
  let ?p3 = "snd (UnpackUint64 ?p2 True)"
  let ?p4 = "snd (UnpackUint64 ?p3 True)"
  from assms have e5: "p_Err (snd (UnpackAddress ?p4)) = None"
    by (simp add: UnmarshalDelegateUserStake_def split: prod.splits)
  note a5 = UnpackAddress_no_error [OF e5]
  then have "p_Err ?p4 = None" by simp
  note a4 = UnpackUint64_no_error [OF this]
  then have "p_Err ?p3 = None" by simp
  note a3 = UnpackUint64_no_error [OF this]
  then have "p_Err ?p2 = None" by simp
  note a2 = UnpackUint64_no_error [OF this]
  then have "p_Err ?p1 = None" by simp
  note a1 = UnpackBytes_no_error [OF this]
  from a1 a2 a3 a4 a5 show ?thesis by simp
qed


lemma UnpackInt_value:
  assumes "p_Err p = None" and "p_Offset p + IntLen \<le> length (p_Bytes p)"
  shows "fst (UnpackInt p) = of_nat (be_nat (take IntLen (drop (p_Offset p) (p_Bytes p))))"
  using assms by (simp add: UnpackInt_def checkSpace_def Errored_def Let_def)

lemma prefix_value:
  assumes "length b < 2 ^ 32"
  shows "(of_nat (be_nat (take IntLen (lengthPrefixed b @ rest))) :: 32 word) =
           of_nat (length b)"
  by (simp add: lengthPrefixed_def)

lemma unat_prefix:
  assumes "length b < 2 ^ 32"
  shows "unat (of_nat (length b) :: 32 word) = length (b :: bytes)"
  using assms by (simp add: unat_of_nat)

lemma prefix_le_limit:
  assumes "length b < 2 ^ 32" and "(of_nat (length b) :: 32 word) \<le> of_nat NodeIDLen"
  shows "length (b :: bytes) \<le> NodeIDLen"
  using assms by (simp add: word_le_nat_alt unat_of_nat NodeIDLen_def)

lemma WithdrawValidatorStake_rejects:
  assumes room: "IntLen + length (wv_NodeID u) \<le> limit"
    and small: "length (wv_NodeID u) < 2 ^ 32"
  shows "k < length (WithdrawValidatorStake_bytes limit u) \<Longrightarrow>
           snd (UnmarshalWithdrawValidatorStake
             (NewReader (take k (WithdrawValidatorStake_bytes limit u)) limit')) \<noteq> None"
    and "NodeIDLen < length (wv_NodeID u) \<Longrightarrow>
           snd (UnmarshalWithdrawValidatorStake
             (NewReader (WithdrawValidatorStake_bytes limit u @ extra) limit')) \<noteq> None"
proof -
  have b: "WithdrawValidatorStake_bytes limit u = lengthPrefixed (wv_NodeID u)"
    using room by (simp add: WithdrawValidatorStake_bytes_def WithdrawValidatorStake_bytes_eq)
  {
    assume k: "k < length (WithdrawValidatorStake_bytes limit u)"
    let ?p = "NewReader (take k (WithdrawValidatorStake_bytes limit u)) limit'"
    show "snd (UnmarshalWithdrawValidatorStake ?p) \<noteq> None"
    proof
      assume "snd (UnmarshalWithdrawValidatorStake ?p) = None"
      note c = UnmarshalWithdrawValidatorStake_consumes [OF this]
      have len: "length (p_Bytes ?p) = k" "p_Offset ?p = 0" "p_Err ?p = None"
        using k by (simp_all add: NewReader_def)
      from c len have k4: "IntLen \<le> k" by simp
      have "fst (UnpackInt ?p) = of_nat (be_nat (take IntLen (drop (p_Offset ?p) (p_Bytes ?p))))"
        by (rule UnpackInt_value) (use c len in simp_all)
      also have "take IntLen (drop (p_Offset ?p) (p_Bytes ?p)) =
          take IntLen (lengthPrefixed (wv_NodeID u) @ [])"
        using k4 by (simp add: NewReader_def b min_def)
      finally have "fst (UnpackInt ?p) = of_nat (length (wv_NodeID u))"
        using prefix_value [OF small] by simp
      with c len unat_prefix [OF small] have "IntLen + length (wv_NodeID u) \<le> k" by simp
      with k b show False by simp
    qed
  }
  {
    assume big: "NodeIDLen < length (wv_NodeID u)"
    let ?p = "NewReader (WithdrawValidatorStake_bytes limit u @ extra) limit'"
    show "snd (UnmarshalWithdrawValidatorStake ?p) \<noteq> None"
    proof
      assume "snd (UnmarshalWithdrawValidatorStake ?p) = None"
      note c = UnmarshalWithdrawValidatorStake_consumes [OF this]
      have len: "p_Offset ?p = 0" "p_Err ?p = None"
        by (simp_all add: NewReader_def)
      have "fst (UnpackInt ?p) = of_nat (be_nat (take IntLen (drop (p_Offset ?p) (p_Bytes ?p))))"
        by (rule UnpackInt_value) (use c len in simp_all)
      also have "take IntLen (drop (p_Offset ?p) (p_Bytes ?p)) =
          take IntLen (lengthPrefixed (wv_NodeID u) @ extra)"
        by (simp add: NewReader_def b)
      finally have "fst (UnpackInt ?p) = of_nat (length (wv_NodeID u))"
        using prefix_value [OF small] by simp
      with c prefix_le_limit [OF small] big show False by simp
    qed
  }
qed


lemma UnstakeValidator_rejects:
  assumes room: "IDLen + IntLen + length (uv_NodeID u) \<le> limit"
    and small: "length (uv_NodeID u) < 2 ^ 32"
    and stake: "length (uv_Stake u) = IDLen"
  shows "k < length (UnstakeValidator_bytes limit u) \<Longrightarrow>
           snd (UnmarshalUnstakeValidator
             (NewReader (take k (UnstakeValidator_bytes limit u)) limit')) \<noteq> None"
    and "NodeIDLen < length (uv_NodeID u) \<Longrightarrow>
           snd (UnmarshalUnstakeValidator
             (NewReader (UnstakeValidator_bytes limit u @ extra) limit')) \<noteq> None"
proof -
  have b: "UnstakeValidator_bytes limit u = uv_Stake u @ lengthPrefixed (uv_NodeID u)"
    using room stake by (simp add: UnstakeValidator_bytes_def UnstakeValidator_bytes_eq)
  {
    assume k: "k < length (UnstakeValidator_bytes limit u)"
    let ?p = "NewReader (take k (UnstakeValidator_bytes limit u)) limit'"
    let ?p1 = "?p\<lparr>p_Offset := p_Offset ?p + IDLen\<rparr>"
    show "snd (UnmarshalUnstakeValidator ?p) \<noteq> None"
    proof
      assume "snd (UnmarshalUnstakeValidator ?p) = None"
      note c = UnmarshalUnstakeValidator_consumes [OF this]
      have len: "length (p_Bytes ?p) = k" "p_Offset ?p = 0" "p_Err ?p = None"
        using k by (simp_all add: NewReader_def)
      from c len have k4: "IDLen + IntLen \<le> k" by simp
      then have k4': "IntLen \<le> k - IDLen" by simp
      have "fst (UnpackInt ?p1) =
          of_nat (be_nat (take IntLen (drop (p_Offset ?p1) (p_Bytes ?p1))))"
        by (rule UnpackInt_value) (use c len in simp_all)
      also have "take IntLen (drop (p_Offset ?p1) (p_Bytes ?p1)) =
          take IntLen (lengthPrefixed (uv_NodeID u) @ [])"
        using k4 k4' stake by (simp add: NewReader_def b drop_take min_def)
      finally have "fst (UnpackInt ?p1) = of_nat (length (uv_NodeID u))"
        using prefix_value [OF small] by simp
      with c len unat_prefix [OF small]
      have "IDLen + IntLen + length (uv_NodeID u) \<le> k" by simp
      with k b stake show False by simp
    qed
  }
  {
    assume big: "NodeIDLen < length (uv_NodeID u)"
    let ?p = "NewReader (UnstakeValidator_bytes limit u @ extra) limit'"
    let ?p1 = "?p\<lparr>p_Offset := p_Offset ?p + IDLen\<rparr>"
    show "snd (UnmarshalUnstakeValidator ?p) \<noteq> None"
    proof
      assume "snd (UnmarshalUnstakeValidator ?p) = None"
      note c = UnmarshalUnstakeValidator_consumes [OF this]
      have len: "p_Offset ?p = 0" "p_Err ?p = None"
        by (simp_all add: NewReader_def)
      have "fst (UnpackInt ?p1) =
          of_nat (be_nat (take IntLen (drop (p_Offset ?p1) (p_Bytes ?p1))))"
        by (rule UnpackInt_value) (use c len in simp_all)
      also have "take IntLen (drop (p_Offset ?p1) (p_Bytes ?p1)) =
          take IntLen (lengthPrefixed (uv_NodeID u) @ extra)"
        using stake by (simp add: NewReader_def b)
      finally have "fst (UnpackInt ?p1) = of_nat (length (uv_NodeID u))"
        using prefix_value [OF small] by simp
      with c prefix_le_limit [OF small] big show False by simp
    qed
  }
qed

lemma DelegateUserStake_rejects:
  assumes room: "IntLen + length (du_NodeID s) + 3 * Uint64Len + AddressLen \<le> limit"
    and small: "length (du_NodeID s) < 2 ^ 32"
    and reward: "length (du_RewardAddress s) = AddressLen"
  shows "k < length (DelegateUserStake_bytes limit s) \<Longrightarrow>
           snd (UnmarshalDelegateUserStake
             (NewReader (take k (DelegateUserStake_bytes limit s)) limit')) \<noteq> None"
    and "NodeIDLen < length (du_NodeID s) \<Longrightarrow>
           snd (UnmarshalDelegateUserStake
             (NewReader (DelegateUserStake_bytes limit s @ extra) limit')) \<noteq> None"
proof -
  let ?tail = "be_bytes Uint64Len (unat (du_StakeStartBlock s)) @
      be_bytes Uint64Len (unat (du_StakeEndBlock s)) @
      be_bytes Uint64Len (unat (du_StakedAmount s)) @ du_RewardAddress s"
  have b: "DelegateUserStake_bytes limit s = lengthPrefixed (du_NodeID s) @ ?tail"
    using room reward by (simp add: DelegateUserStake_bytes_def DelegateUserStake_bytes_eq)
  have total: "length (DelegateUserStake_bytes limit s) =
      IntLen + length (du_NodeID s) + 3 * Uint64Len + AddressLen"
    using reward by (simp add: b)
  {
    assume k: "k < length (DelegateUserStake_bytes limit s)"
    let ?p = "NewReader (take k (DelegateUserStake_bytes limit s)) limit'"
    show "snd (UnmarshalDelegateUserStake ?p) \<noteq> None"
    proof
      assume "snd (UnmarshalDelegateUserStake ?p) = None"
      note c = UnmarshalDelegateUserStake_consumes [OF this]
      have len: "length (p_Bytes ?p) = k" "p_Offset ?p = 0" "p_Err ?p = None"
        using k by (simp_all add: NewReader_def)
      from c len have k4: "IntLen \<le> k" by simp
      have "fst (UnpackInt ?p) = of_nat (be_nat (take IntLen (drop (p_Offset ?p) (p_Bytes ?p))))"
        by (rule UnpackInt_value) (use c len in simp_all)
      also have "take IntLen (drop (p_Offset ?p) (p_Bytes ?p)) =
          take IntLen (lengthPrefixed (du_NodeID s) @ ?tail)"
        using k4 by (simp add: NewReader_def b min_def)
      finally have "fst (UnpackInt ?p) = of_nat (length (du_NodeID s))"
        using prefix_value [OF small] by simp
      with c len unat_prefix [OF small]
      have "IntLen + length (du_NodeID s) + 3 * Uint64Len + AddressLen \<le> k" by simp
      with k total show False by simp
    qed
  }
  {
    assume big: "NodeIDLen < length (du_NodeID s)"
    let ?p = "NewReader (DelegateUserStake_bytes limit s @ extra) limit'"
    show "snd (UnmarshalDelegateUserStake ?p) \<noteq> None"
    proof
      assume "snd (UnmarshalDelegateUserStake ?p) = None"
      note c = UnmarshalDelegateUserStake_consumes [OF this]
      have len: "p_Offset ?p = 0" "p_Err ?p = None"
        by (simp_all add: NewReader_def)
      have "fst (UnpackInt ?p) = of_nat (be_nat (take IntLen (drop (p_Offset ?p) (p_Bytes ?p))))"
        by (rule UnpackInt_value) (use c len in simp_all)
      also have "take IntLen (drop (p_Offset ?p) (p_Bytes ?p)) =
          take IntLen (lengthPrefixed (du_NodeID s) @ ?tail @ extra)"
        by (simp add: NewReader_def b)
      finally have "fst (UnpackInt ?p) = of_nat (length (du_NodeID s))"
        using prefix_value [OF small] by simp
      with c prefix_le_limit [OF small] big show False by simp
    qed
  }
qed

text \<open>Once a packer holds an error, unpacking returns zero values and leaves it as it is.\<close>

lemma UnpackUint64_errored:
  assumes "p_Err p \<noteq> None"
  shows "UnpackUint64 p required = (0, p)"
  using assms
  by (auto simp add: UnpackUint64_def UnpackLong_def checkSpace_def addErr_def Errored_def Let_def)

lemma UnpackAddress_errored:
  assumes "p_Err p \<noteq> None"
  shows "UnpackAddress p = (EmptyAddress, p)"
  using assms
  by (auto simp add: UnpackAddress_def UnpackFixedBytes_def checkSpace_def addErr_def Errored_def
      Let_def EmptyAddress_def)

lemma UnpackUint64_reads_zero:
  assumes "p_Err p = None"
    and "drop (p_Offset p) (p_Bytes p) = be_bytes Uint64Len (unat (0 :: uint64)) @ rest"
  shows "UnpackUint64 p True =
           (0, p\<lparr>p_Offset := p_Offset p + Uint64Len, p_Err := Some ErrFieldNotPopulated\<rparr>)"
  using UnpackLong_reads [OF assms] assms(1)
  by (simp add: UnpackUint64_def addErr_def)

lemma populated_examples:
  "UnstakeValidator_populated unstake1"
  "WithdrawValidatorStake_populated withdraw7"
  "DelegateUserStake_populated delegate5000"
  by (simp_all add: UnstakeValidator_populated_def WithdrawValidatorStake_populated_def
      DelegateUserStake_populated_def unstake1_def withdraw7_def delegate5000_def
      id_of_def ids_Empty_def addr_of_def EmptyAddress_def node_of_def
      IDLen_def NodeIDLen_def AddressLen_def)

lemma example_lengths:
  "length (UnstakeValidator_bytes 1024 unstake1) = 56"
  "length (WithdrawValidatorStake_bytes 1024 withdraw7) = 24"
  "length (DelegateUserStake_bytes 1024 delegate5000) = 81"
  by (simp_all add: UnstakeValidator_bytes_def UnstakeValidator_bytes_eq
      WithdrawValidatorStake_bytes_def WithdrawValidatorStake_bytes_eq
      DelegateUserStake_bytes_def DelegateUserStake_bytes_eq
      unstake1_def withdraw7_def delegate5000_def
      IDLen_def NodeIDLen_def AddressLen_def IntLen_def Uint64Len_def)

text \<open>
  Claim C7, as the code has it, for the three actions. The field values a decoder accepts
  are the populated ones: a node id of at most \<^verbatim>\<open>NodeIDLen\<close> bytes, not empty where it is
  unpacked as required (it may be empty in \<^verbatim>\<open>UnstakeValidator\<close>), \<^verbatim>\<open>uint64\<close> fields that
  are not zero, a stake id and a reward address of full length that are not all zero.
  For such an action, on a writer with room, \<^verbatim>\<open>Unmarshal\<close> of the bytes that \<^verbatim>\<open>Marshal\<close>
  wrote returns the action and no error; it does so too when further bytes follow in
  the buffer, which the decoder leaves unread; and it returns an error on every proper
  prefix of the bytes. An action whose node id is longer than \<^verbatim>\<open>NodeIDLen\<close> is written
  by \<^verbatim>\<open>Marshal\<close> and refused by \<^verbatim>\<open>Unmarshal\<close>.
\<close>

theorem Unmarshal_reads_back_Marshal:
  "(UnstakeValidator_populated u \<and> IDLen + IntLen + length (uv_NodeID u) \<le> limit \<longrightarrow>
      UnmarshalUnstakeValidator (NewReader (UnstakeValidator_bytes limit u) limit') =
        (u, None) \<and>
      UnmarshalUnstakeValidator (NewReader (UnstakeValidator_bytes limit u @ extra) limit') =
        (u, None) \<and>
      (k < length (UnstakeValidator_bytes limit u) \<longrightarrow>
         snd (UnmarshalUnstakeValidator
           (NewReader (take k (UnstakeValidator_bytes limit u)) limit')) \<noteq> None)) \<and>
   (WithdrawValidatorStake_populated w \<and> IntLen + length (wv_NodeID w) \<le> limit \<longrightarrow>
      UnmarshalWithdrawValidatorStake (NewReader (WithdrawValidatorStake_bytes limit w) limit') =
        (w, None) \<and>
      UnmarshalWithdrawValidatorStake
        (NewReader (WithdrawValidatorStake_bytes limit w @ extra) limit') = (w, None) \<and>
      (k < length (WithdrawValidatorStake_bytes limit w) \<longrightarrow>
         snd (UnmarshalWithdrawValidatorStake
           (NewReader (take k (WithdrawValidatorStake_bytes limit w)) limit')) \<noteq> None)) \<and>
   (DelegateUserStake_populated s \<and>
    IntLen + length (du_NodeID s) + 3 * Uint64Len + AddressLen \<le> limit \<longrightarrow>
      UnmarshalDelegateUserStake (NewReader (DelegateUserStake_bytes limit s) limit') =
        (s, None) \<and>
      UnmarshalDelegateUserStake (NewReader (DelegateUserStake_bytes limit s @ extra) limit') =
        (s, None) \<and>
      (k < length (DelegateUserStake_bytes limit s) \<longrightarrow>
         snd (UnmarshalDelegateUserStake
           (NewReader (take k (DelegateUserStake_bytes limit s)) limit')) \<noteq> None)) \<and>
   (length (uv_Stake u) = IDLen \<and> NodeIDLen < length (uv_NodeID u) \<and>
    length (uv_NodeID u) < 2 ^ 32 \<and> IDLen + IntLen + length (uv_NodeID u) \<le> limit \<longrightarrow>
      snd (UnmarshalUnstakeValidator (NewReader (UnstakeValidator_bytes limit u) limit')) \<noteq>
        None) \<and>
   (NodeIDLen < length (wv_NodeID w) \<and> length (wv_NodeID w) < 2 ^ 32 \<and>
    IntLen + length (wv_NodeID w) \<le> limit \<longrightarrow>
      snd (UnmarshalWithdrawValidatorStake
        (NewReader (WithdrawValidatorStake_bytes limit w) limit')) \<noteq> None) \<and>
   (length (du_RewardAddress s) = AddressLen \<and> NodeIDLen < length (du_NodeID s) \<and>
    length (du_NodeID s) < 2 ^ 32 \<and>
    IntLen + length (du_NodeID s) + 3 * Uint64Len + AddressLen \<le> limit \<longrightarrow>
      snd (UnmarshalDelegateUserStake (NewReader (DelegateUserStake_bytes limit s) limit')) \<noteq>
        None)"
proof (intro conjI impI)
  assume a: "UnstakeValidator_populated u \<and> IDLen + IntLen + length (uv_NodeID u) \<le> limit"
  then have pop: "UnstakeValidator_populated u"
    and room: "IDLen + IntLen + length (uv_NodeID u) \<le> limit" by simp_all
  from pop have small: "length (uv_NodeID u) < 2 ^ 32" and st: "length (uv_Stake u) = IDLen"
    by (simp_all add: UnstakeValidator_populated_def NodeIDLen_def)
  show "UnmarshalUnstakeValidator (NewReader (UnstakeValidator_bytes limit u) limit') =
      (u, None)"
    using UnstakeValidator_decodes [OF pop room, of "[]"] by simp
  show "UnmarshalUnstakeValidator (NewReader (UnstakeValidator_bytes limit u @ extra) limit') =
      (u, None)"
    by (rule UnstakeValidator_decodes [OF pop room])
  assume "k < length (UnstakeValidator_bytes limit u)"
  then show "snd (UnmarshalUnstakeValidator
      (NewReader (take k (UnstakeValidator_bytes limit u)) limit')) \<noteq> None"
    by (rule UnstakeValidator_rejects(1) [OF room small st])
next
  assume a: "WithdrawValidatorStake_populated w \<and> IntLen + length (wv_NodeID w) \<le> limit"
  then have pop: "WithdrawValidatorStake_populated w"
    and room: "IntLen + length (wv_NodeID w) \<le> limit" by simp_all
  from pop have small: "length (wv_NodeID w) < 2 ^ 32"
    by (simp add: WithdrawValidatorStake_populated_def NodeIDLen_def)
  show "UnmarshalWithdrawValidatorStake
      (NewReader (WithdrawValidatorStake_bytes limit w) limit') = (w, None)"
    using WithdrawValidatorStake_decodes [OF pop room, of "[]"] by simp
  show "UnmarshalWithdrawValidatorStake
      (NewReader (WithdrawValidatorStake_bytes limit w @ extra) limit') = (w, None)"
    by (rule WithdrawValidatorStake_decodes [OF pop room])
  assume "k < length (WithdrawValidatorStake_bytes limit w)"
  then show "snd (UnmarshalWithdrawValidatorStake
      (NewReader (take k (WithdrawValidatorStake_bytes limit w)) limit')) \<noteq> None"
    by (rule WithdrawValidatorStake_rejects(1) [OF room small])
next
  assume a: "DelegateUserStake_populated s \<and>
      IntLen + length (du_NodeID s) + 3 * Uint64Len + AddressLen \<le> limit"
  then have pop: "DelegateUserStake_populated s"
    and room: "IntLen + length (du_NodeID s) + 3 * Uint64Len + AddressLen \<le> limit"
    by simp_all
  from pop have small: "length (du_NodeID s) < 2 ^ 32"
    and rw: "length (du_RewardAddress s) = AddressLen"
    by (simp_all add: DelegateUserStake_populated_def NodeIDLen_def)
  show "UnmarshalDelegateUserStake (NewReader (DelegateUserStake_bytes limit s) limit') =
      (s, None)"
    using DelegateUserStake_decodes [OF pop room, of "[]"] by simp
  show "UnmarshalDelegateUserStake (NewReader (DelegateUserStake_bytes limit s @ extra) limit') =
      (s, None)"
    by (rule DelegateUserStake_decodes [OF pop room])
  assume "k < length (DelegateUserStake_bytes limit s)"
  then show "snd (UnmarshalDelegateUserStake
      (NewReader (take k (DelegateUserStake_bytes limit s)) limit')) \<noteq> None"
    by (rule DelegateUserStake_rejects(1) [OF room small rw])
next
  assume "length (uv_Stake u) = IDLen \<and> NodeIDLen < length (uv_NodeID u) \<and>
      length (uv_NodeID u) < 2 ^ 32 \<and> IDLen + IntLen + length (uv_NodeID u) \<le> limit"
  then show "snd (UnmarshalUnstakeValidator
      (NewReader (UnstakeValidator_bytes limit u) limit')) \<noteq> None"
    using UnstakeValidator_rejects(2) [of u limit "[]" limit'] by simp
next
  assume "NodeIDLen < length (wv_NodeID w) \<and> length (wv_NodeID w) < 2 ^ 32 \<and>
      IntLen + length (wv_NodeID w) \<le> limit"
  then show "snd (UnmarshalWithdrawValidatorStake
      (NewReader (WithdrawValidatorStake_bytes limit w) limit')) \<noteq> None"
    using WithdrawValidatorStake_rejects(2) [of w limit "[]" limit'] by simp
next
  assume "length (du_RewardAddress s) = AddressLen \<and> NodeIDLen < length (du_NodeID s) \<and>
      length (du_NodeID s) < 2 ^ 32 \<and>
      IntLen + length (du_NodeID s) + 3 * Uint64Len + AddressLen \<le> limit"
  then show "snd (UnmarshalDelegateUserStake
      (NewReader (DelegateUserStake_bytes limit s) limit')) \<noteq> None"
    using DelegateUserStake_rejects(2) [of s limit "[]" limit'] by simp
qed

theorem Unmarshal_reads_back_Marshal_witness:
  "UnmarshalUnstakeValidator (NewReader (UnstakeValidator_bytes 1024 unstake1) 1024) =
     (unstake1, None) \<and>
   UnmarshalUnstakeValidator (NewReader (UnstakeValidator_bytes 1024 unstake1 @ [255]) 1024) =
     (unstake1, None) \<and>
   snd (UnmarshalUnstakeValidator
     (NewReader (take 10 (UnstakeValidator_bytes 1024 unstake1)) 1024)) \<noteq> None \<and>
   UnmarshalWithdrawValidatorStake (NewReader (WithdrawValidatorStake_bytes 1024 withdraw7) 1024) =
     (withdraw7, None) \<and>
   UnmarshalWithdrawValidatorStake
     (NewReader (WithdrawValidatorStake_bytes 1024 withdraw7 @ [255]) 1024) =
     (withdraw7, None) \<and>
   snd (UnmarshalWithdrawValidatorStake
     (NewReader (take 10 (WithdrawValidatorStake_bytes 1024 withdraw7)) 1024)) \<noteq> None \<and>
   UnmarshalDelegateUserStake (NewReader (DelegateUserStake_bytes 1024 delegate5000) 1024) =
     (delegate5000, None) \<and>
   UnmarshalDelegateUserStake
     (NewReader (DelegateUserStake_bytes 1024 delegate5000 @ [255]) 1024) =
     (delegate5000, None) \<and>
   snd (UnmarshalDelegateUserStake
     (NewReader (take 10 (DelegateUserStake_bytes 1024 delegate5000)) 1024)) \<noteq> None \<and>
   snd (UnmarshalUnstakeValidator (NewReader (UnstakeValidator_bytes 1024 unstake_long) 1024)) \<noteq>
     None \<and>
   snd (UnmarshalWithdrawValidatorStake
     (NewReader (WithdrawValidatorStake_bytes 1024 withdraw_long) 1024)) \<noteq> None \<and>
   snd (UnmarshalDelegateUserStake
     (NewReader (DelegateUserStake_bytes 1024 delegate_long) 1024)) \<noteq> None"
proof -
  have room: "IDLen + IntLen + length (uv_NodeID unstake1) \<le> 1024"
    "IntLen + length (wv_NodeID withdraw7) \<le> 1024"
    "IntLen + length (du_NodeID delegate5000) + 3 * Uint64Len + AddressLen \<le> 1024"
    by (simp_all add: unstake1_def withdraw7_def delegate5000_def IDLen_def IntLen_def
        NodeIDLen_def Uint64Len_def AddressLen_def)
  have long: "length (uv_Stake unstake_long) = IDLen \<and> NodeIDLen < length (uv_NodeID unstake_long) \<and>
      length (uv_NodeID unstake_long) < 2 ^ 32 \<and>
      IDLen + IntLen + length (uv_NodeID unstake_long) \<le> 1024"
    "NodeIDLen < length (wv_NodeID withdraw_long) \<and> length (wv_NodeID withdraw_long) < 2 ^ 32 \<and>
      IntLen + length (wv_NodeID withdraw_long) \<le> 1024"
    "length (du_RewardAddress delegate_long) = AddressLen \<and>
      NodeIDLen < length (du_NodeID delegate_long) \<and>
      length (du_NodeID delegate_long) < 2 ^ 32 \<and>
      IntLen + length (du_NodeID delegate_long) + 3 * Uint64Len + AddressLen \<le> 1024"
    by (simp_all add: unstake_long_def withdraw_long_def delegate_long_def IDLen_def IntLen_def
        NodeIDLen_def Uint64Len_def AddressLen_def)
  note a = Unmarshal_reads_back_Marshal [where u = unstake1 and w = withdraw7
      and s = delegate5000 and limit = 1024 and limit' = 1024 and extra = "[255]" and k = 10]
  note b = Unmarshal_reads_back_Marshal [where u = unstake_long and w = withdraw_long
      and s = delegate_long and limit = 1024 and limit' = 1024 and extra = "[255]" and k = 10]
  from a populated_examples room example_lengths
  have first: "UnmarshalUnstakeValidator (NewReader (UnstakeValidator_bytes 1024 unstake1) 1024) =
     (unstake1, None) \<and>
   UnmarshalUnstakeValidator (NewReader (UnstakeValidator_bytes 1024 unstake1 @ [255]) 1024) =
     (unstake1, None) \<and>
   snd (UnmarshalUnstakeValidator
     (NewReader (take 10 (UnstakeValidator_bytes 1024 unstake1)) 1024)) \<noteq> None \<and>
   UnmarshalWithdrawValidatorStake (NewReader (WithdrawValidatorStake_bytes 1024 withdraw7) 1024) =
     (withdraw7, None) \<and>
   UnmarshalWithdrawValidatorStake
     (NewReader (WithdrawValidatorStake_bytes 1024 withdraw7 @ [255]) 1024) =
     (withdraw7, None) \<and>
   snd (UnmarshalWithdrawValidatorStake
     (NewReader (take 10 (WithdrawValidatorStake_bytes 1024 withdraw7)) 1024)) \<noteq> None \<and>
   UnmarshalDelegateUserStake (NewReader (DelegateUserStake_bytes 1024 delegate5000) 1024) =
     (delegate5000, None) \<and>
   UnmarshalDelegateUserStake
     (NewReader (DelegateUserStake_bytes 1024 delegate5000 @ [255]) 1024) =
     (delegate5000, None) \<and>
   snd (UnmarshalDelegateUserStake
     (NewReader (take 10 (DelegateUserStake_bytes 1024 delegate5000)) 1024)) \<noteq> None"
    by simp
  from b long
  have second: "snd (UnmarshalUnstakeValidator
       (NewReader (UnstakeValidator_bytes 1024 unstake_long) 1024)) \<noteq> None \<and>
     snd (UnmarshalWithdrawValidatorStake
       (NewReader (WithdrawValidatorStake_bytes 1024 withdraw_long) 1024)) \<noteq> None \<and>
     snd (UnmarshalDelegateUserStake
       (NewReader (DelegateUserStake_bytes 1024 delegate_long) 1024)) \<noteq> None"
    by blast
  from first second show ?thesis by simp
qed

text \<open>
  The claim as stated fails at two inputs: a buffer that is longer than the encoding
  decodes without error, and a \<^verbatim>\<open>DelegateUserStake\<close> whose start block is 0 (a value that
  \<^verbatim>\<open>Execute\<close> accepts while the last accepted height is 0) does not decode from its own
  encoding.
\<close>

theorem Unmarshal_counterexample:
  "UnmarshalDelegateUserStake
     (NewReader (DelegateUserStake_bytes 1024 delegate5000 @ [0, 0, 0]) 1024) =
     (delegate5000, None) \<and>
   snd (UnmarshalDelegateUserStake
     (NewReader (DelegateUserStake_bytes 1024 (delegate_with 0 200 500)) 1024)) =
     Some ErrFieldNotPopulated"
proof
  have room: "IntLen + length (du_NodeID delegate5000) + 3 * Uint64Len + AddressLen \<le> 1024"
    by (simp add: delegate5000_def IntLen_def NodeIDLen_def Uint64Len_def AddressLen_def)
  show "UnmarshalDelegateUserStake
     (NewReader (DelegateUserStake_bytes 1024 delegate5000 @ [0, 0, 0]) 1024) =
     (delegate5000, None)"
    by (rule DelegateUserStake_decodes [OF populated_examples(3) room])
next
  let ?s = "delegate_with 0 200 500"
  let ?rest = "be_bytes Uint64Len (unat (du_StakeEndBlock ?s)) @
      be_bytes Uint64Len (unat (du_StakedAmount ?s)) @ du_RewardAddress ?s"
  let ?p = "NewReader (DelegateUserStake_bytes 1024 ?s) 1024"
  let ?p1 = "?p\<lparr>p_Offset := p_Offset ?p + IntLen + length (du_NodeID ?s)\<rparr>"
  let ?p2 = "?p1\<lparr>p_Offset := p_Offset ?p1 + Uint64Len, p_Err := Some ErrFieldNotPopulated\<rparr>"
  have b: "DelegateUserStake_bytes 1024 ?s =
      lengthPrefixed (du_NodeID ?s) @ be_bytes Uint64Len (unat (0 :: uint64)) @ ?rest"
    by (simp add: DelegateUserStake_bytes_def DelegateUserStake_bytes_eq delegate_with_def
        IntLen_def NodeIDLen_def Uint64Len_def AddressLen_def)
  have r1: "UnpackBytes ?p NodeIDLen True = (du_NodeID ?s, ?p1)"
  proof (rule UnpackBytes_reads
      [where rest = "be_bytes Uint64Len (unat (0 :: uint64)) @ ?rest"])
    show "drop (p_Offset ?p) (p_Bytes ?p) =
        be_bytes IntLen (unat (of_nat (length (du_NodeID ?s)) :: 32 word)) @ du_NodeID ?s @
        be_bytes Uint64Len (unat (0 :: uint64)) @ ?rest"
      by (simp add: NewReader_def b lengthPrefixed_def)
  qed (simp_all add: NewReader_def delegate_with_def NodeIDLen_def node_of_def)
  have r2: "UnpackUint64 ?p1 True = (0, ?p2)"
  proof (rule UnpackUint64_reads_zero [where rest = ?rest])
    show "drop (p_Offset ?p1) (p_Bytes ?p1) = be_bytes Uint64Len (unat (0 :: uint64)) @ ?rest"
      by (simp add: NewReader_def b)
  qed (simp add: NewReader_def)
  show "snd (UnmarshalDelegateUserStake ?p) = Some ErrFieldNotPopulated"
    by (simp add: UnmarshalDelegateUserStake_def r1 r2 UnpackUint64_errored
        UnpackAddress_errored)
qed

text \<open>
  Claim C8 at concrete inputs. \<^verbatim>\<open>UnstakeValidator.Size()\<close> is \<^verbatim>\<open>consts.IDLen\<close>, 32, while
  \<^verbatim>\<open>Marshal\<close> packs the stake id and then the node id: 56 bytes for a node id of 20
  bytes. \<^verbatim>\<open>Size()\<close> of the other two actions counts \<^verbatim>\<open>NodeIDLen\<close> for the node id, while
  \<^verbatim>\<open>PackBytes\<close> writes its length in 4 bytes before it: 20 against 24, 77 against 81.
\<close>

theorem Size_is_not_the_length_written:
  "UnstakeValidator_Size = 32 \<and> length (UnstakeValidator_bytes 1024 unstake1) = 56 \<and>
   WithdrawValidatorStake_Size = 20 \<and>
   length (WithdrawValidatorStake_bytes 1024 withdraw7) = 24 \<and>
   DelegateUserStake_Size = 77 \<and> length (DelegateUserStake_bytes 1024 delegate5000) = 81"
  by (simp add: example_lengths UnstakeValidator_Size_def WithdrawValidatorStake_Size_def
      DelegateUserStake_Size_def IDLen_def NodeIDLen_def AddressLen_def Uint64Len_def)

end
